theory Spec2Isabelle
  imports Complex_Main "HOL-Library.Word"
begin

unbundle bit_operations_syntax

section \<open>Numbers of the source language\<close>

text \<open>
  The sources are TypeScript: every \<open>number\<close> is an IEEE-754 double. The zone classifier
  only ever computes with integer-valued numbers until its final division, so a finite
  number is modelled by the integer it denotes and a non-finite one (an infinity or NaN)
  by \<open>None\<close>. Sums and products of integers are rounded to the nearest double (53
  significant bits, ties to even); a result beyond the largest double becomes an infinity.
  The bitwise operators first reduce their operands modulo \<open>2 ^ 32\<close> (non-finite operands
  become 0), which is \<open>word_of_int\<close> into \<open>32 word\<close>.
\<close>

type_synonym jsnum = "int option"

fun bitLength :: "nat \<Rightarrow> nat" where
  "bitLength n = (if n = 0 then 0 else Suc (bitLength (n div 2)))"

declare bitLength.simps [simp del]

definition roundToDouble :: "int \<Rightarrow> jsnum" where
  "roundToDouble v =
     (let a = \<bar>v\<bar> in
      if a < 2 ^ 53 then Some v
      else
        let e = bitLength (nat a) - 53;
            q = a div 2 ^ e;
            r = a mod 2 ^ e;
            m = (if 2 * r > 2 ^ e \<or> (2 * r = 2 ^ e \<and> odd q) then q + 1 else q);
            y = m * 2 ^ e
        in if y \<ge> 2 ^ 1024 then None else Some (sgn v * y))"

definition jsMul :: "jsnum \<Rightarrow> jsnum \<Rightarrow> jsnum" where
  "jsMul a b = (case (a, b) of (Some x, Some y) \<Rightarrow> roundToDouble (x * y) | _ \<Rightarrow> None)"

definition jsAdd :: "jsnum \<Rightarrow> jsnum \<Rightarrow> jsnum" where
  "jsAdd a b = (case (a, b) of (Some x, Some y) \<Rightarrow> roundToDouble (x + y) | _ \<Rightarrow> None)"

definition toInt32 :: "jsnum \<Rightarrow> 32 word" where
  "toInt32 a = (case a of None \<Rightarrow> 0 | Some x \<Rightarrow> word_of_int x)"

subsection \<open>Doubles with a fraction\<close>

text \<open>
  The weather layer computes with fractions. There a finite double is the real number it
  denotes, and every arithmetic operation of the source returns the double nearest to its
  exact result, ties to the even significand: \<open>fl v\<close> is the multiple of \<open>ulp v\<close> nearest
  to \<open>v\<close>, where \<open>ulp v = 2 ^ (e - 52)\<close> and \<open>e\<close> is the binary exponent of \<open>v\<close>, at least
  \<open>-1022\<close> (below \<open>2 ^ -1022\<close> the doubles are subnormal and evenly spaced). A decimal
  literal of the source that is not a double itself, such as \<open>0.92\<close>, denotes \<open>fl 0.92\<close>.
  Magnitudes of \<open>2 ^ 1024\<close> and more, where the machine returns an infinity, are not
  modelled: the properties below are about values within the range of the doubles.
\<close>

definition roundHalfEven :: "real \<Rightarrow> int" where
  "roundHalfEven t =
     (let f = \<lfloor>t\<rfloor>; d = t - of_int f in
      if d < 1 / 2 then f else if 1 / 2 < d then f + 1 else if even f then f else f + 1)"

definition doubleExponent :: "real \<Rightarrow> int" where
  "doubleExponent v = (if v = 0 then - 1022 else max (- 1022) \<lfloor>log 2 \<bar>v\<bar>\<rfloor>)"

definition ulp :: "real \<Rightarrow> real" where
  "ulp v = 2 powi (doubleExponent v - 52)"

definition fl :: "real \<Rightarrow> real" where
  "fl v = of_int (roundHalfEven (v / ulp v)) * ulp v"

definition addD :: "real \<Rightarrow> real \<Rightarrow> real" where
  "addD a b = fl (a + b)"

definition subD :: "real \<Rightarrow> real \<Rightarrow> real" where
  "subD a b = fl (a - b)"

definition mulD :: "real \<Rightarrow> real \<Rightarrow> real" where
  "mulD a b = fl (a * b)"

definition divD :: "real \<Rightarrow> real \<Rightarrow> real" where
  "divD a b = fl (a / b)"

text \<open>The doubles are the numbers that rounding leaves as they are.\<close>

definition isDouble :: "real \<Rightarrow> bool" where
  "isDouble v = (fl v = v)"

section \<open>The zone classifier (utils/weatherGrid.ts)\<close>

datatype WeatherType = Clear | Rain | Storm | Wind | Snow

definition ZONE_SIZE :: nat where
  "ZONE_SIZE = 8"

record tendency =
  main :: WeatherType
  alt :: "WeatherType option"
  weight :: "real option"

definition tendencyTable :: "(string \<times> tendency) list" where
  "tendencyTable =
     [(''DESERT'', \<lparr>main = Clear, alt = None, weight = None\<rparr>),
      (''GOBI'', \<lparr>main = Clear, alt = None, weight = None\<rparr>),
      (''PLAIN'', \<lparr>main = Clear, alt = Some Rain, weight = Some 0.4\<rparr>),
      (''GRASSLAND'', \<lparr>main = Clear, alt = Some Rain, weight = Some 0.45\<rparr>),
      (''FARM'', \<lparr>main = Clear, alt = Some Rain, weight = Some 0.35\<rparr>),
      (''RAINFOREST'', \<lparr>main = Rain, alt = Some Storm, weight = Some 0.15\<rparr>),
      (''FOREST'', \<lparr>main = Rain, alt = Some Clear, weight = Some 0.3\<rparr>),
      (''BAMBOO'', \<lparr>main = Rain, alt = Some Clear, weight = Some 0.25\<rparr>),
      (''SWAMP'', \<lparr>main = Rain, alt = Some Storm, weight = Some 0.2\<rparr>),
      (''MARSH'', \<lparr>main = Rain, alt = Some Storm, weight = Some 0.2\<rparr>),
      (''SEA'', \<lparr>main = Wind, alt = Some Rain, weight = Some 0.2\<rparr>),
      (''WATER'', \<lparr>main = Wind, alt = Some Rain, weight = Some 0.25\<rparr>),
      (''ISLAND'', \<lparr>main = Wind, alt = Some Rain, weight = Some 0.3\<rparr>),
      (''MOUNTAIN'', \<lparr>main = Clear, alt = Some Rain, weight = Some 0.2\<rparr>),
      (''SNOW_MOUNTAIN'', \<lparr>main = Snow, alt = Some Clear, weight = Some 0.2\<rparr>),
      (''GLACIER'', \<lparr>main = Snow, alt = Some Wind, weight = Some 0.15\<rparr>),
      (''TUNDRA'', \<lparr>main = Snow, alt = Some Wind, weight = Some 0.25\<rparr>),
      (''VOLCANO'', \<lparr>main = Clear, alt = None, weight = None\<rparr>)]"

text \<open>
  \<open>TERRAIN_WEATHER_TENDENCY[terrain]\<close>: the entry of the table, \<open>None\<close> for
  \<open>undefined\<close>. The declaration of \<open>MapMatrix\<close> is not among the sources; terrain tags
  are strings used as ordinary property keys (tile-type names such as \<open>PLAIN\<close>), not
  names of members inherited from \<open>Object.prototype\<close> and not array indices.
\<close>

definition TERRAIN_WEATHER_TENDENCY :: "string \<Rightarrow> tendency option" where
  "TERRAIN_WEATHER_TENDENCY terrain = map_of tendencyTable terrain"

text \<open>
  \<open>hashNoise\<close>: \<open>n\<close> and \<open>mixed\<close> are doubles, \<open>^\<close> and \<open>>>>\<close> work on their 32-bit
  reductions, \<open>& 0xffffffff\<close> keeps all 32 bits and \<open>& 0xffff\<close> the low 16. The final
  division of an integer in \<open>0..65535\<close> by 65535 is kept exact: the comparisons made with
  it (against two-digit decimals) come out the same on the correctly rounded double,
  and \<open>65535 / 65535\<close> is exactly 1 there too.
\<close>

definition hashBits :: "int \<Rightarrow> int \<Rightarrow> int \<Rightarrow> 32 word" where
  "hashBits zx zy seed =
     (let n = jsAdd (jsAdd (jsMul (Some zx) (Some 1619)) (jsMul (Some zy) (Some 31337)))
                    (jsMul (Some seed) (Some 6971));
          a = toInt32 n XOR drop_bit 8 (toInt32 n);
          mixed = jsMul (Some (sint a)) (Some 0x27d4eb2d);
          u = (toInt32 mixed XOR drop_bit 15 (toInt32 mixed)) AND 0xffffffff
      in u AND 0xffff)"

definition hashNoise :: "int \<Rightarrow> int \<Rightarrow> int \<Rightarrow> real" where
  "hashNoise zx zy seed = real (unat (hashBits zx zy seed)) / 65535"

definition weatherFromNoise :: "int \<Rightarrow> int \<Rightarrow> int \<Rightarrow> WeatherType" where
  "weatherFromNoise zx zy seed =
     (let r = hashNoise zx zy seed in
      if r < 0.35 then Rain
      else if r < 0.6 then Wind
      else if r < 0.8 then Clear
      else if r < 0.9 then Snow else Storm)"

type_synonym MapMatrix = "string list list"

text \<open>\<open>mapData[0]?.length ?? 0\<close>\<close>

definition firstRowLength :: "'a list list \<Rightarrow> nat" where
  "firstRowLength m = (case m of [] \<Rightarrow> 0 | r # _ \<Rightarrow> length r)"

text \<open>\<open>mapData[ty][tx] ?? ''\<close> for a row index in range: a short row reads as the empty tag.\<close>

definition tileAt :: "MapMatrix \<Rightarrow> nat \<Rightarrow> nat \<Rightarrow> string" where
  "tileAt mapData ty tx = (if tx < length (mapData ! ty) then mapData ! ty ! tx else [])"

text \<open>
  The \<open>count\<close> record is an association list in insertion order, the order in which
  \<open>Object.entries\<close> enumerates string keys. \<open>count[t] = (count[t] || 0) + 1\<close>:
\<close>

definition countTile :: "(string \<times> nat) list \<Rightarrow> string \<Rightarrow> (string \<times> nat) list" where
  "countTile count t =
     (case map_of count t of
        None \<Rightarrow> count @ [(t, 1)]
      | Some c \<Rightarrow> map (\<lambda>(k, v). if k = t then (k, v + 1) else (k, v)) count)"

text \<open>The inner loop over \<open>dx\<close> for one \<open>dy\<close>, then the outer loop over \<open>dy\<close>.\<close>

definition countZoneRow ::
  "MapMatrix \<Rightarrow> nat \<Rightarrow> nat \<Rightarrow> nat \<Rightarrow> (string \<times> nat) list \<Rightarrow> (string \<times> nat) list" where
  "countZoneRow mapData zx zy dy =
     fold (\<lambda>dx count.
             let tx = zx * ZONE_SIZE + dx; ty = zy * ZONE_SIZE + dy in
             if ty < length mapData \<and> tx < firstRowLength mapData
             then countTile count (tileAt mapData ty tx) else count)
       [0..<ZONE_SIZE]"

definition countZone :: "MapMatrix \<Rightarrow> nat \<Rightarrow> nat \<Rightarrow> (string \<times> nat) list" where
  "countZone mapData zx zy = fold (countZoneRow mapData zx zy) [0..<ZONE_SIZE] []"

definition pickDominant :: "(string \<times> nat) list \<Rightarrow> string" where
  "pickDominant count =
     snd (fold (\<lambda>(terrain, c) (mx, dominant). if c > mx then (c, terrain) else (mx, dominant))
            count (0, []))"

definition getZoneDominantTerrain :: "MapMatrix \<Rightarrow> nat \<Rightarrow> nat \<Rightarrow> string" where
  "getZoneDominantTerrain mapData zx zy =
     (let dominant = pickDominant (countZone mapData zx zy) in
      if dominant \<noteq> [] then dominant
      else if zy * ZONE_SIZE < length mapData
           then tileAt mapData (zy * ZONE_SIZE) (zx * ZONE_SIZE) else [])"

text \<open>\<open>useAlt ? tendency.alt : tendency.main\<close> with \<open>weight = tendency.weight ?? 0\<close>.\<close>

definition tendencyWeather :: "tendency \<Rightarrow> real \<Rightarrow> WeatherType" where
  "tendencyWeather t r =
     (let w = (case weight t of None \<Rightarrow> 0 | Some x \<Rightarrow> x) in
      case alt t of
        None \<Rightarrow> main t
      | Some a \<Rightarrow> if r < w then a else main t)"

text \<open>The body of the inner loop of \<open>buildWeatherGrid\<close>: the value pushed for zone \<open>(zx, zy)\<close>.\<close>

definition zoneWeather :: "MapMatrix \<Rightarrow> int \<Rightarrow> nat \<Rightarrow> nat \<Rightarrow> WeatherType" where
  "zoneWeather mapData seed zy zx =
     (let terrain = getZoneDominantTerrain mapData zx zy;
          r = hashNoise (int zx) (int zy) seed
      in case TERRAIN_WEATHER_TENDENCY terrain of
           None \<Rightarrow> weatherFromNoise (int zx) (int zy) seed
         | Some t \<Rightarrow>
             let weather = tendencyWeather t r in
             if weather = Rain \<and> hashNoise (int zx + 1) (int zy) seed < 0.12 then Storm
             else weather)"

definition buildWeatherGrid :: "MapMatrix \<Rightarrow> int \<Rightarrow> WeatherType list list" where
  "buildWeatherGrid mapData seed =
     (let rows = length mapData; cols = firstRowLength mapData in
      if rows = 0 \<or> cols = 0 then []
      else
        let zoneRows = nat \<lceil>real rows / real ZONE_SIZE\<rceil>;
            zoneCols = nat \<lceil>real cols / real ZONE_SIZE\<rceil>
        in map (\<lambda>zy. map (\<lambda>zx. zoneWeather mapData seed zy zx) [0..<zoneCols]) [0..<zoneRows])"

subsection \<open>The visibility culler\<close>

definition TILE_SIZE :: nat where
  "TILE_SIZE = 64"

text \<open>
  Field names are prefixed (\<open>zone_x\<close> for \<open>zone.x\<close>), since the source's \<open>x\<close>, \<open>y\<close>,
  \<open>zx\<close> and \<open>zy\<close> are also its variable names.
\<close>

record zoneIndex =
  zone_zx :: int
  zone_zy :: int

record zone = zoneIndex +
  zone_x :: real
  zone_y :: real
  zone_width :: real
  zone_height :: real

definition worldToZone :: "real \<Rightarrow> real \<Rightarrow> zoneIndex" where
  "worldToZone px py =
     (let tx = \<lfloor>px / real TILE_SIZE\<rfloor>; ty = \<lfloor>py / real TILE_SIZE\<rfloor> in
      \<lparr>zone_zx = \<lfloor>real_of_int tx / real ZONE_SIZE\<rfloor>,
       zone_zy = \<lfloor>real_of_int ty / real ZONE_SIZE\<rfloor>\<rparr>)"

definition getVisibleZones :: "real \<Rightarrow> real \<Rightarrow> real \<Rightarrow> real \<Rightarrow> int \<Rightarrow> int \<Rightarrow> zone list" where
  "getVisibleZones cornerX cornerY visibleWidth visibleHeight zoneRows zoneCols =
     (let zonePxW = real (ZONE_SIZE * TILE_SIZE);
          zonePxH = real (ZONE_SIZE * TILE_SIZE);
          start = worldToZone cornerX cornerY;
          end = worldToZone (cornerX + visibleWidth) (cornerY + visibleHeight)
      in concat (map (\<lambda>j.
           if j < 0 \<or> j \<ge> zoneRows then []
           else concat (map (\<lambda>i.
             if i < 0 \<or> i \<ge> zoneCols then []
             else [\<lparr>zone_zx = i, zone_zy = j,
                    zone_x = real_of_int i * zonePxW, zone_y = real_of_int j * zonePxH,
                    zone_width = zonePxW, zone_height = zonePxH\<rparr>])
             [zone_zx start..zone_zx end]))
           [zone_zy start..zone_zy end]))"

section \<open>The weather layer (the WeatherLayer component)\<close>

subsection \<open>The host: display list and random numbers\<close>

text \<open>
  Every number of the component is a double: its sums, differences, products and
  quotients are \<open>addD\<close>, \<open>subD\<close>, \<open>mulD\<close> and \<open>divD\<close>, and a decimal literal that is not a
  double itself is rounded (\<open>fl 0.92\<close>). \<open>Math.PI\<close> is the double next to \<open>pi\<close>, and
  \<open>Math.sin\<close> is taken to return the double next to the sine.

  The rendering framework is outside the sources; only its display-list contract is
  used. A display object is identified by a number; \<open>parentOf\<close> records which container
  holds it, \<open>destroyed\<close> which objects have been destroyed. \<open>addChild\<close> attaches,
  \<open>removeChild\<close> detaches a child of that container, and \<open>destroy\<close> detaches the object
  from whatever parent it has and marks it destroyed. \<open>Math.random()\<close> reads the next
  element of a sequence \<open>randoms\<close> of doubles in \<open>[0, 1)\<close>.
\<close>

record hostState =
  parentOf :: "nat \<Rightarrow> nat option"
  destroyed :: "nat set"
  nextId :: nat
  randoms :: "nat \<Rightarrow> real"
  randIx :: nat

definition unitRandoms :: "hostState \<Rightarrow> bool" where
  "unitRandoms h = (\<forall>i. isDouble (randoms h i) \<and> 0 \<le> randoms h i \<and> randoms h i < 1)"

definition mathRandom :: "hostState \<Rightarrow> real \<times> hostState" where
  "mathRandom h = (randoms h (randIx h), h\<lparr>randIx := Suc (randIx h)\<rparr>)"

definition newNode :: "hostState \<Rightarrow> nat \<times> hostState" where
  "newNode h = (nextId h, h\<lparr>nextId := Suc (nextId h)\<rparr>)"

definition addChild :: "nat \<Rightarrow> nat \<Rightarrow> hostState \<Rightarrow> hostState" where
  "addChild c g h = h\<lparr>parentOf := (parentOf h)(g := Some c)\<rparr>"

definition removeChild :: "nat \<Rightarrow> nat \<Rightarrow> hostState \<Rightarrow> hostState" where
  "removeChild c g h =
     (if parentOf h g = Some c then h\<lparr>parentOf := (parentOf h)(g := None)\<rparr> else h)"

definition destroyNode :: "nat \<Rightarrow> hostState \<Rightarrow> hostState" where
  "destroyNode g h = h\<lparr>parentOf := (parentOf h)(g := None), destroyed := insert g (destroyed h)\<rparr>"

subsection \<open>Configuration\<close>

record weatherLevel =
  lv_rain :: int
  lv_wind :: int
  lv_snow :: int
  lv_stormChance :: real

definition levelNone :: weatherLevel where
  "levelNone = \<lparr>lv_rain = 0, lv_wind = 0, lv_snow = 0, lv_stormChance = 0\<rparr>"

definition levelLow :: weatherLevel where
  "levelLow = \<lparr>lv_rain = 120, lv_wind = 35, lv_snow = 45, lv_stormChance = fl 0.015\<rparr>"

definition levelHigh :: weatherLevel where
  "levelHigh = \<lparr>lv_rain = 320, lv_wind = 90, lv_snow = 110, lv_stormChance = fl 0.035\<rparr>"

definition WEATHER_LEVEL :: "string \<Rightarrow> weatherLevel option" where
  "WEATHER_LEVEL k =
     map_of [(''none'', levelNone), (''low'', levelLow), (''high'', levelHigh)] k"

record viewportInfo =
  vp_cornerX :: real
  vp_cornerY :: real
  vp_scaled :: real
  vp_screenWidth :: real
  vp_screenHeight :: real

text \<open>
  What the component reads from outside on every frame: the \<open>weather\<close> entry of the
  frontend configuration, the camera (absent until it is initialised; its scale is a
  non-zero number), the \<open>width\<close> and \<open>height\<close> props, and which particle textures are
  loaded.
\<close>

record env =
  weatherConfig :: "string option"
  viewport :: "viewportInfo option"
  propsWidth :: real
  propsHeight :: real
  texRain :: bool
  texWind :: bool
  texSnow :: bool

definition getWeatherLevel :: "env \<Rightarrow> weatherLevel" where
  "getWeatherLevel e =
     (let level = (case weatherConfig e of None \<Rightarrow> ''high'' | Some k \<Rightarrow> k) in
      case WEATHER_LEVEL level of None \<Rightarrow> levelHigh | Some l \<Rightarrow> l)"

record bounds =
  b_x :: real
  b_y :: real
  b_w :: real
  b_h :: real

definition getViewportBounds :: "env \<Rightarrow> bounds" where
  "getViewportBounds e =
     (case viewport e of
        Some vp \<Rightarrow> \<lparr>b_x = vp_cornerX vp, b_y = vp_cornerY vp,
                    b_w = divD (vp_screenWidth vp) (vp_scaled vp),
                    b_h = divD (vp_screenHeight vp) (vp_scaled vp)\<rparr>
      | None \<Rightarrow> \<lparr>b_x = 0, b_y = 0, b_w = propsWidth e, b_h = propsHeight e\<rparr>)"

subsection \<open>Particles\<close>

text \<open>
  A display object carries what the layer writes to it later: position and rotation.
  Scale, tint and alpha of a particle are set once from random draws at creation and
  never read again; the draws are made, the values are not kept.
\<close>

record displayObject =
  objId :: nat
  objSprite :: bool
  objX :: real
  objY :: real
  objRotation :: real

record RainParticle =
  rain_g :: displayObject
  rain_x :: real
  rain_y :: real
  rain_vx :: real
  rain_vy :: real
  rain_zoneX :: real
  rain_zoneY :: real
  rain_zoneW :: real
  rain_zoneH :: real

record WindParticle =
  wind_g :: displayObject
  wind_x :: real
  wind_y :: real
  wind_vx :: real
  wind_zoneX :: real
  wind_zoneW :: real

record SnowParticle =
  snow_g :: displayObject
  snow_x :: real
  snow_y :: real
  snow_vy :: real
  snow_phase :: real
  snow_zoneX :: real
  snow_zoneY :: real
  snow_zoneW :: real
  snow_zoneH :: real

text \<open>
  \<open>createRainParticle\<close>: a sprite when a rain texture is loaded (three draws: scale,
  rotation, alpha), else a drawn line (two draws: length, slant).
\<close>

definition createRainParticle :: "bool \<Rightarrow> hostState \<Rightarrow> displayObject \<times> hostState" where
  "createRainParticle tex h =
     (if tex then
        let (i, h1) = newNode h;
            (scale, h2) = mathRandom h1;
            (rot, h3) = mathRandom h2;
            (alpha, h4) = mathRandom h3
        in (\<lparr>objId = i, objSprite = True, objX = 0, objY = 0, objRotation = addD (fl 0.3) (mulD rot (fl 0.4))\<rparr>, h4)
      else
        let (len, h1) = mathRandom h;
            (slant, h2) = mathRandom h1;
            (i, h3) = newNode h2
        in (\<lparr>objId = i, objSprite = False, objX = 0, objY = 0, objRotation = 0\<rparr>, h3))"

definition createWindParticle :: "bool \<Rightarrow> hostState \<Rightarrow> displayObject \<times> hostState" where
  "createWindParticle tex h =
     (if tex then
        let (i, h1) = newNode h;
            (scale, h2) = mathRandom h1;
            (rot, h3) = mathRandom h2;
            (alpha, h4) = mathRandom h3
        in (\<lparr>objId = i, objSprite = True, objX = 0, objY = 0, objRotation = mulD (mulD rot (fl pi)) 2\<rparr>, h4)
      else
        let (i, h1) = newNode h;
            (len, h2) = mathRandom h1
        in (\<lparr>objId = i, objSprite = False, objX = 0, objY = 0, objRotation = 0\<rparr>, h2))"

definition createSnowParticle :: "bool \<Rightarrow> hostState \<Rightarrow> displayObject \<times> hostState" where
  "createSnowParticle tex h =
     (if tex then
        let (i, h1) = newNode h;
            (scale, h2) = mathRandom h1;
            (rot, h3) = mathRandom h2;
            (alpha, h4) = mathRandom h3
        in (\<lparr>objId = i, objSprite = True, objX = 0, objY = 0, objRotation = mulD (mulD rot (fl pi)) 2\<rparr>, h4)
      else
        let (i, h1) = newNode h
        in (\<lparr>objId = i, objSprite = False, objX = 0, objY = 0, objRotation = 0\<rparr>, h1))"

text \<open>\<open>zones[Math.floor(Math.random() * zones.length)]\<close>\<close>

definition pickZone :: "zone list \<Rightarrow> hostState \<Rightarrow> zone \<times> hostState" where
  "pickZone zones h =
     (let (r, h1) = mathRandom h in (zones ! nat \<lfloor>mulD r (real (length zones))\<rfloor>, h1))"

text \<open>The body of the \<open>while\<close> loop of each \<open>ensure...Particles\<close>: one new particle.\<close>

definition newRainParticle :: "bool \<Rightarrow> nat \<Rightarrow> zone list \<Rightarrow> hostState \<Rightarrow> RainParticle \<times> hostState" where
  "newRainParticle tex c zones h =
     (let (z, h1) = pickZone zones h;
          (g, h2) = createRainParticle tex h1;
          (rx, h3) = mathRandom h2;
          (ry, h4) = mathRandom h3;
          g' = g\<lparr>objX := addD (zone_x z) (mulD rx (zone_width z)),
                 objY := addD (zone_y z) (mulD ry (zone_height z))\<rparr>;
          (rvx, h5) = mathRandom h4;
          (rvy, h6) = mathRandom h5
      in (\<lparr>rain_g = g', rain_x = objX g', rain_y = objY g',
           rain_vx = mulD (subD rvx 0.5) (fl 0.8), rain_vy = addD 4 (mulD rvy 6),
           rain_zoneX = zone_x z, rain_zoneY = zone_y z,
           rain_zoneW = zone_width z, rain_zoneH = zone_height z\<rparr>,
          addChild c (objId g') h6))"

definition newWindParticle :: "bool \<Rightarrow> nat \<Rightarrow> zone list \<Rightarrow> hostState \<Rightarrow> WindParticle \<times> hostState" where
  "newWindParticle tex c zones h =
     (let (z, h1) = pickZone zones h;
          (g, h2) = createWindParticle tex h1;
          (rx, h3) = mathRandom h2;
          (ry, h4) = mathRandom h3;
          g' = g\<lparr>objX := addD (zone_x z) (mulD rx (zone_width z)),
                 objY := addD (zone_y z) (mulD ry (zone_height z))\<rparr>;
          (rvx, h5) = mathRandom h4
      in (\<lparr>wind_g = g', wind_x = objX g', wind_y = objY g',
           wind_vx = addD 1.5 (mulD rvx 2),
           wind_zoneX = zone_x z, wind_zoneW = zone_width z\<rparr>,
          addChild c (objId g') h5))"

definition newSnowParticle :: "bool \<Rightarrow> nat \<Rightarrow> zone list \<Rightarrow> hostState \<Rightarrow> SnowParticle \<times> hostState" where
  "newSnowParticle tex c zones h =
     (let (z, h1) = pickZone zones h;
          (g, h2) = createSnowParticle tex h1;
          (rx, h3) = mathRandom h2;
          (ry, h4) = mathRandom h3;
          g' = g\<lparr>objX := addD (zone_x z) (mulD rx (zone_width z)),
                 objY := addD (zone_y z) (mulD ry (zone_height z))\<rparr>;
          (rvy, h5) = mathRandom h4;
          (rph, h6) = mathRandom h5
      in (\<lparr>snow_g = g', snow_x = objX g', snow_y = objY g',
           snow_vy = addD (fl 0.35) (mulD rvy (fl 0.55)),
           snow_phase = mulD (mulD rph (fl pi)) 2,
           snow_zoneX = zone_x z, snow_zoneY = zone_y z,
           snow_zoneW = zone_width z, snow_zoneH = zone_height z\<rparr>,
          addChild c (objId g') h6))"

subsection \<open>Reconciling a pool\<close>

text \<open>
  The three functions \<open>ensureRainParticles\<close>, \<open>ensureWindParticles\<close> and
  \<open>ensureSnowParticles\<close> are the same text up to the density, the container, the pool
  and the particle built in the loop; \<open>ensureParticles\<close> is that text once, on the pair of
  the pool and the host. \<open>existing\<close> is the pool array itself, so after the loop its length
  is the length of the grown pool.
\<close>

definition destroyAll :: "nat \<Rightarrow> nat list \<Rightarrow> hostState \<Rightarrow> hostState" where
  "destroyAll c gs h = fold (\<lambda>g h'. destroyNode g (removeChild c g h')) gs h"

primrec spawnParticles ::
  "nat \<Rightarrow> (hostState \<Rightarrow> 'p \<times> hostState) \<Rightarrow> 'p list \<times> hostState \<Rightarrow> 'p list \<times> hostState" where
  "spawnParticles 0 mk st = st"
| "spawnParticles (Suc n) mk st =
     (let (p, h') = mk (snd st) in spawnParticles n mk (fst st @ [p], h'))"

definition ensureParticles ::
  "nat \<Rightarrow> (nat \<Rightarrow> zone list \<Rightarrow> hostState \<Rightarrow> 'p \<times> hostState) \<Rightarrow> ('p \<Rightarrow> nat) \<Rightarrow> nat option \<Rightarrow>
   zone list \<Rightarrow> int \<Rightarrow> 'p list \<times> hostState \<Rightarrow> 'p list \<times> hostState" where
  "ensureParticles density mk gid cont zones maxCount st =
     (case cont of
        None \<Rightarrow> st
      | Some c \<Rightarrow>
          let need = min maxCount (int (length zones) * int density) - int (length (fst st)) in
          if need \<le> 0 \<and> length zones = 0 then ([], destroyAll c (map gid (fst st)) (snd st))
          else
            let st' = (if length zones > 0 then spawnParticles (nat need) (mk c zones) st else st)
            in if length zones = 0 \<and> length (fst st') > 0
               then ([], destroyAll c (map gid (fst st')) (snd st'))
               else st')"

subsection \<open>The component state\<close>

datatype phase = First | Dim | Second | Out

record layer =
  host :: hostState
  container :: "nat option"
  rainContainer :: "nat option"
  rainPool :: "RainParticle list"
  windPool :: "WindParticle list"
  snowPool :: "SnowParticle list"
  lightningGraphics :: "nat option"
  lightningGfxAlpha :: real
  lightningRects :: "(real \<times> real \<times> real \<times> real) list"
  lightningAlpha :: real
  lightningPhase :: phase
  stormOverlay :: "nat option"
  stormOverlayVisible :: bool
  stormAccum :: real
  ticker :: bool
  weatherGrid :: "WeatherType list list"
  thunderPlayed :: nat

definition ensureRainParticles :: "env \<Rightarrow> zone list \<Rightarrow> int \<Rightarrow> layer \<Rightarrow> layer" where
  "ensureRainParticles e visibleRainZones maxCount s =
     (let (pool, h) = ensureParticles 35 (newRainParticle (texRain e)) (\<lambda>p. objId (rain_g p))
                        (rainContainer s) visibleRainZones maxCount (rainPool s, host s)
      in s\<lparr>rainPool := pool, host := h\<rparr>)"

definition ensureWindParticles :: "env \<Rightarrow> zone list \<Rightarrow> int \<Rightarrow> layer \<Rightarrow> layer" where
  "ensureWindParticles e visibleWindZones maxCount s =
     (let (pool, h) = ensureParticles 12 (newWindParticle (texWind e)) (\<lambda>p. objId (wind_g p))
                        (container s) visibleWindZones maxCount (windPool s, host s)
      in s\<lparr>windPool := pool, host := h\<rparr>)"

definition ensureSnowParticles :: "env \<Rightarrow> zone list \<Rightarrow> int \<Rightarrow> layer \<Rightarrow> layer" where
  "ensureSnowParticles e visibleSnowZones maxCount s =
     (let (pool, h) = ensureParticles 20 (newSnowParticle (texSnow e)) (\<lambda>p. objId (snow_g p))
                        (container s) visibleSnowZones maxCount (snowPool s, host s)
      in s\<lparr>snowPool := pool, host := h\<rparr>)"

definition ensureStormOverlay :: "bool \<Rightarrow> layer \<Rightarrow> layer" where
  "ensureStormOverlay hasStorm s =
     (case container s of
        None \<Rightarrow> s
      | Some c \<Rightarrow>
          if hasStorm then
            (case stormOverlay s of
               None \<Rightarrow>
                 let (i, h1) = newNode (host s)
                 in s\<lparr>stormOverlay := Some i, host := addChild c i h1, stormOverlayVisible := True\<rparr>
             | Some _ \<Rightarrow> s\<lparr>stormOverlayVisible := True\<rparr>)
          else
            (case stormOverlay s of
               None \<Rightarrow> s
             | Some _ \<Rightarrow> s\<lparr>stormOverlayVisible := False\<rparr>))"

subsection \<open>Per-frame integration\<close>

text \<open>
  Each \<open>forEach\<close> of the frame callback, as a step on one particle that also threads the
  host (a recycled rain or snow particle draws a random number), folded over the pool.
\<close>

definition stepRain :: "real \<Rightarrow> RainParticle \<Rightarrow> hostState \<Rightarrow> RainParticle \<times> hostState" where
  "stepRain dt p h =
     (let p1 = p\<lparr>rain_x := addD (rain_x p) (mulD (rain_vx p) dt),
                 rain_y := addD (rain_y p) (mulD (rain_vy p) dt)\<rparr>;
          (p2, h') =
            (if rain_y p1 > addD (addD (rain_zoneY p1) (rain_zoneH p1)) 20 then
               let (r, h1) = mathRandom h
               in (p1\<lparr>rain_y := subD (rain_zoneY p1) 10,
                     rain_x := addD (rain_zoneX p1) (mulD r (rain_zoneW p1))\<rparr>, h1)
             else (p1, h))
      in (p2\<lparr>rain_g := (rain_g p2)\<lparr>objX := rain_x p2, objY := rain_y p2\<rparr>\<rparr>, h'))"

definition stepWind :: "real \<Rightarrow> WindParticle \<Rightarrow> WindParticle" where
  "stepWind dt p =
     (let p1 = p\<lparr>wind_x := addD (wind_x p) (mulD (wind_vx p) dt)\<rparr>;
          p2 = (if wind_x p1 > addD (addD (wind_zoneX p1) (wind_zoneW p1)) 20
                then p1\<lparr>wind_x := subD (wind_zoneX p1) 10\<rparr> else p1)
      in p2\<lparr>wind_g := (wind_g p2)\<lparr>objX := wind_x p2, objY := wind_y p2\<rparr>\<rparr>)"

definition stepSnow :: "real \<Rightarrow> SnowParticle \<Rightarrow> hostState \<Rightarrow> SnowParticle \<times> hostState" where
  "stepSnow dt p h =
     (let p1 = p\<lparr>snow_y := addD (snow_y p) (mulD (snow_vy p) dt),
                 snow_phase := addD (snow_phase p) (mulD dt (fl 0.8))\<rparr>;
          wobble = mulD (fl (sin (snow_phase p1))) (fl 1.2);
          wx = addD (snow_x p1) wobble;
          (p2, h') =
            (if snow_y p1 > addD (addD (snow_zoneY p1) (snow_zoneH p1)) 10 then
               let (r, h1) = mathRandom h
               in (p1\<lparr>snow_y := subD (snow_zoneY p1) 5,
                     snow_x := addD (snow_zoneX p1) (mulD r (snow_zoneW p1))\<rparr>, h1)
             else (p1, h));
          g = (snow_g p2)\<lparr>objX := wx, objY := snow_y p2\<rparr>;
          g' = (if objSprite g then g\<lparr>objRotation := addD (objRotation g) (mulD dt (fl 0.15))\<rparr>
                else g)
      in (p2\<lparr>snow_g := g'\<rparr>, h'))"

primrec forEachWithHost ::
  "('p \<Rightarrow> hostState \<Rightarrow> 'p \<times> hostState) \<Rightarrow> 'p list \<Rightarrow> hostState \<Rightarrow> 'p list \<times> hostState" where
  "forEachWithHost f [] h = ([], h)"
| "forEachWithHost f (p # ps) h =
     (let (p', h1) = f p h; (ps', h2) = forEachWithHost f ps h1 in (p' # ps', h2))"

definition integrateRain :: "real \<Rightarrow> layer \<Rightarrow> layer" where
  "integrateRain dt s =
     (let (pool, h) = forEachWithHost (stepRain dt) (rainPool s) (host s)
      in s\<lparr>rainPool := pool, host := h\<rparr>)"

definition integrateWind :: "real \<Rightarrow> layer \<Rightarrow> layer" where
  "integrateWind dt s = s\<lparr>windPool := map (stepWind dt) (windPool s)\<rparr>"

definition integrateSnow :: "real \<Rightarrow> layer \<Rightarrow> layer" where
  "integrateSnow dt s =
     (let (pool, h) = forEachWithHost (stepSnow dt) (snowPool s) (host s)
      in s\<lparr>snowPool := pool, host := h\<rparr>)"

subsection \<open>Lightning\<close>

text \<open>The \<open>if\<close> chain of \<open>updateLightning\<close> on the pair of phase and alpha.\<close>

definition decayLightning :: "real \<Rightarrow> phase \<times> real \<Rightarrow> phase \<times> real" where
  "decayLightning dt pa =
     (let decay = 7; ph = fst pa; a = snd pa in
      if ph = First then
        (let a1 = subD a (mulD dt decay) in if a1 \<le> 0.25 then (Dim, 0.25) else (First, a1))
      else if ph = Dim then
        (let a1 = subD a (mulD dt 2) in if a1 \<le> fl 0.15 then (Second, fl 0.65) else (Dim, a1))
      else if ph = Second then
        (let a1 = subD a (mulD dt decay) in if a1 \<le> 0 then (Out, a1) else (Second, a1))
      else (ph, subD a (mulD dt decay)))"

definition updateLightning :: "real \<Rightarrow> layer \<Rightarrow> layer" where
  "updateLightning dt s =
     (case lightningGraphics s of
        None \<Rightarrow> s
      | Some g \<Rightarrow>
          let (ph, a) = decayLightning dt (lightningPhase s, lightningAlpha s);
              s1 = s\<lparr>lightningPhase := ph, lightningAlpha := a, lightningGfxAlpha := max 0 a\<rparr>
          in if a \<le> 0
             then s1\<lparr>host := destroyNode g (host s1), lightningGraphics := None,
                     lightningPhase := Out\<rparr>
             else s1)"

text \<open>
  The loop \<open>while (indices.size < count) indices.add(...)\<close> of \<open>triggerLightning\<close> ends
  only when enough distinct indices have been drawn; \<open>None\<close> stands for a run in which
  it never does. The set is a list in insertion order.
\<close>

partial_function (option) drawIndices ::
  "nat \<Rightarrow> nat \<Rightarrow> nat list \<Rightarrow> hostState \<Rightarrow> (nat list \<times> hostState) option" where
  "drawIndices count len indices h =
     (if length indices < count then
        (let (r, h1) = mathRandom h; i = nat \<lfloor>mulD r (real len)\<rfloor>
         in drawIndices count len (if i \<in> set indices then indices else indices @ [i]) h1)
      else Some (indices, h))"

definition triggerLightning :: "zone list \<Rightarrow> layer \<Rightarrow> layer option" where
  "triggerLightning stormZones s =
     (case container s of
        None \<Rightarrow> Some s
      | Some c \<Rightarrow>
          if length stormZones = 0 then Some s
          else
            let h0 = (case lightningGraphics s of
                        None \<Rightarrow> host s
                      | Some g \<Rightarrow> destroyNode g (removeChild c g (host s)));
                (i, h1) = newNode h0;
                margin = 30;
                count = min 2 (length stormZones)
            in case drawIndices count (length stormZones) [] h1 of
                 None \<Rightarrow> None
               | Some (indices, h2) \<Rightarrow>
                   Some (s\<lparr>host := addChild c i h2,
                            lightningGraphics := Some i,
                            lightningGfxAlpha := 1,
                            lightningRects :=
                              map (\<lambda>k. let z = stormZones ! k in
                                         (subD (zone_x z) margin, subD (zone_y z) margin,
                                          addD (zone_width z) (mulD margin 2),
                                          addD (zone_height z) (mulD margin 2)))
                                  (filter (\<lambda>k. k < length stormZones) indices),
                            lightningAlpha := fl 0.92,
                            lightningPhase := First,
                            thunderPlayed := Suc (thunderPlayed s)\<rparr>))"

definition tryLightning :: "env \<Rightarrow> real \<Rightarrow> zone list \<Rightarrow> layer \<Rightarrow> layer option" where
  "tryLightning e dt stormZones s =
     (if length stormZones = 0 then Some s
      else
        let level = getWeatherLevel e in
        if lv_stormChance level \<le> 0 then Some s
        else
          let s1 = s\<lparr>stormAccum := addD (stormAccum s) dt\<rparr> in
          if stormAccum s1 < 0.5 then Some s1
          else
            let s2 = s1\<lparr>stormAccum := 0\<rparr>;
                (r, h1) = mathRandom (host s2);
                s3 = s2\<lparr>host := h1\<rparr>
            in if r > lv_stormChance level then Some s3
               else triggerLightning stormZones s3)"

subsection \<open>The driver\<close>

definition setupContainers :: "layer \<Rightarrow> layer" where
  "setupContainers s =
     (case rainContainer s of
        Some _ \<Rightarrow> s
      | None \<Rightarrow>
          (case container s of
             None \<Rightarrow> s
           | Some c \<Rightarrow>
               let (i, h1) = newNode (host s)
               in s\<lparr>rainContainer := Some i, host := addChild c i h1\<rparr>))"

text \<open>\<open>grid[z.zy]?.[z.zx]\<close>: the weather of a visible zone, \<open>None\<close> for \<open>undefined\<close>.\<close>

definition gridAt :: "WeatherType list list \<Rightarrow> zone \<Rightarrow> WeatherType option" where
  "gridAt grid z =
     (if 0 \<le> zone_zy z \<and> nat (zone_zy z) < length grid then
        (let row = grid ! nat (zone_zy z) in
         if 0 \<le> zone_zx z \<and> nat (zone_zx z) < length row then Some (row ! nat (zone_zx z))
         else None)
      else None)"

text \<open>The callback that \<open>startTicker\<close> registers: one frame with \<open>t.deltaTime = dt\<close>.\<close>

definition tick :: "env \<Rightarrow> real \<Rightarrow> layer \<Rightarrow> layer option" where
  "tick e dt s0 =
     (let s = setupContainers s0;
          grid = weatherGrid s;
          zoneRows = length grid;
          zoneCols = firstRowLength grid;
          bnds = getViewportBounds e
      in if zoneRows = 0 \<or> zoneCols = 0 then Some s
         else
           let level = getWeatherLevel e in
           if lv_rain level = 0 \<and> lv_wind level = 0 \<and> lv_snow level = 0 then Some s
           else
             let zones = getVisibleZones (b_x bnds) (b_y bnds) (b_w bnds) (b_h bnds)
                           (int zoneRows) (int zoneCols);
                 rainZones = filter (\<lambda>z. gridAt grid z = Some Rain \<or> gridAt grid z = Some Storm) zones;
                 windZones = filter (\<lambda>z. gridAt grid z = Some Wind) zones;
                 snowZones = filter (\<lambda>z. gridAt grid z = Some Snow) zones;
                 stormZones = filter (\<lambda>z. gridAt grid z = Some Storm) zones;
                 hasStorm = (length stormZones > 0);
                 s1 = ensureRainParticles e rainZones (lv_rain level) s;
                 s2 = ensureWindParticles e windZones (lv_wind level) s1;
                 s3 = ensureSnowParticles e snowZones (lv_snow level) s2;
                 s4 = ensureStormOverlay hasStorm s3;
                 s5 = integrateRain dt s4;
                 s6 = integrateWind dt s5;
                 s7 = integrateSnow dt s6
             in case tryLightning e dt stormZones s7 of
                  None \<Rightarrow> None
                | Some s8 \<Rightarrow> Some (updateLightning dt s8))"

definition startTicker :: "layer \<Rightarrow> layer" where
  "startTicker s = (if ticker s then s else s\<lparr>ticker := True\<rparr>)"

definition stopTicker :: "layer \<Rightarrow> layer" where
  "stopTicker s =
     (let s1 = s\<lparr>ticker := False, stormAccum := 0\<rparr>;
          s2 = (case stormOverlay s1 of
                  Some ov \<Rightarrow> if parentOf (host s1) ov \<noteq> None then s1\<lparr>stormOverlayVisible := False\<rparr> else s1
                | None \<Rightarrow> s1);
          s3 = (case lightningGraphics s2 of
                  Some g \<Rightarrow>
                    if parentOf (host s2) g \<noteq> None
                    then s2\<lparr>host := destroyNode g (host s2), lightningGraphics := None\<rparr>
                    else s2
                | None \<Rightarrow> s2);
          h1 = fold destroyNode (map (\<lambda>p. objId (rain_g p)) (rainPool s3)) (host s3);
          h2 = fold destroyNode (map (\<lambda>p. objId (wind_g p)) (windPool s3)) h1;
          h3 = fold destroyNode (map (\<lambda>p. objId (snow_g p)) (snowPool s3)) h2
      in s3\<lparr>host := h3, rainPool := [], windPool := [], snowPool := []\<rparr>)"

text \<open>
  The two watchers on the configuration and the grid run the same decision: stop when
  every density is zero, else start when the grid has rows.
\<close>

definition onWeatherChange :: "env \<Rightarrow> layer \<Rightarrow> layer" where
  "onWeatherChange e s =
     (let level = getWeatherLevel e in
      if lv_rain level = 0 \<and> lv_wind level = 0 \<and> lv_snow level = 0 then stopTicker s
      else if length (weatherGrid s) > 0 then startTicker s
      else s)"

definition onUnmounted :: "layer \<Rightarrow> layer" where
  "onUnmounted s =
     (let s1 = (stopTicker s)\<lparr>rainContainer := None\<rparr> in
      case stormOverlay s1 of
        Some ov \<Rightarrow>
          if parentOf (host s1) ov \<noteq> None
          then s1\<lparr>host := destroyNode ov (host s1), stormOverlay := None\<rparr>
          else s1
      | None \<Rightarrow> s1)"

text \<open>
  The watcher of \<open>mapData\<close>, run once at set-up and again whenever the map changes:
  \<open>data?.length && data[0]?.length\<close> selects between a fresh grid, built with the default
  seed 12345, and the empty grid. \<open>None\<close> stands for a map that is not loaded.
\<close>

definition onMapDataChange :: "MapMatrix option \<Rightarrow> layer \<Rightarrow> layer" where
  "onMapDataChange data s =
     (case data of
        None \<Rightarrow> s\<lparr>weatherGrid := []\<rparr>
      | Some d \<Rightarrow>
          if length d \<noteq> 0 \<and> firstRowLength d \<noteq> 0
          then s\<lparr>weatherGrid := buildWeatherGrid d 12345\<rparr>
          else s\<lparr>weatherGrid := []\<rparr>)"

subsection \<open>Predicates and states used in the proofs\<close>

text \<open>
  The lightning machine while a flash is running in phase \<open>ph\<close> with alpha \<open>a\<close> and node \<open>g\<close>,
  and after the flash has ended; \<open>D\<close> is the set of objects destroyed before the flash.
\<close>

definition lightningIn :: "phase \<Rightarrow> nat \<Rightarrow> nat set \<Rightarrow> real \<Rightarrow> layer \<Rightarrow> bool" where
  "lightningIn ph g D a s =
     (lightningPhase s = ph \<and> lightningAlpha s = a \<and> lightningGraphics s = Some g \<and>
      destroyed (host s) = D)"

definition lightningGone :: "nat \<Rightarrow> nat set \<Rightarrow> real \<Rightarrow> layer \<Rightarrow> bool" where
  "lightningGone g D a s =
     (lightningPhase s = Out \<and> lightningAlpha s = a \<and> lightningGraphics s = None \<and>
      destroyed (host s) = insert g D)"

text \<open>
  Concrete inputs: the two leftmost zones of the top row; a mounted component (main
  container 0, rain container 1) with empty pools, whose random source always returns
  \<open>1 / 2\<close>; the same component after one lightning trigger on \<open>zone00\<close>, and after the three
  pools have been filled for one visible zone; the configuration presets \<open>high\<close> and
  \<open>none\<close> without camera and without textures.
\<close>

definition zone00 :: zone where
  "zone00 = \<lparr>zone_zx = 0, zone_zy = 0, zone_x = 0, zone_y = 0, zone_width = 512, zone_height = 512\<rparr>"

definition zone10 :: zone where
  "zone10 = \<lparr>zone_zx = 1, zone_zy = 0, zone_x = 512, zone_y = 0, zone_width = 512, zone_height = 512\<rparr>"

definition idleHost :: hostState where
  "idleHost = \<lparr>parentOf = (\<lambda>_. None)(1 := Some 0), destroyed = {}, nextId = 2,
                randoms = (\<lambda>_. 1 / 2), randIx = 0\<rparr>"

definition mountedLayer :: layer where
  "mountedLayer =
     \<lparr>host = idleHost, container = Some 0, rainContainer = Some 1,
      rainPool = [], windPool = [], snowPool = [],
      lightningGraphics = None, lightningGfxAlpha = 0, lightningRects = [],
      lightningAlpha = 0, lightningPhase = Out,
      stormOverlay = None, stormOverlayVisible = False, stormAccum = 0,
      ticker = True, weatherGrid = [[Storm]], thunderPlayed = 0\<rparr>"

definition struckLayer :: layer where
  "struckLayer =
     mountedLayer\<lparr>host := idleHost\<lparr>parentOf := (parentOf idleHost)(2 := Some 0), nextId := 3, randIx := 1\<rparr>,
                  lightningGraphics := Some 2, lightningGfxAlpha := 1,
                  lightningRects := [(-30, -30, 572, 572)],
                  lightningAlpha := fl 0.92, lightningPhase := First,
                  thunderPlayed := 1\<rparr>"

definition highEnv :: env where
  "highEnv = \<lparr>weatherConfig = Some ''high'', viewport = None, propsWidth = 512, propsHeight = 512,
               texRain = False, texWind = False, texSnow = False\<rparr>"

definition noneEnv :: env where
  "noneEnv = highEnv\<lparr>weatherConfig := Some ''none''\<rparr>"

definition fullLayer :: layer where
  "fullLayer =
     ensureSnowParticles highEnv [zone00] 110
       (ensureWindParticles highEnv [zone00] 90
          (ensureRainParticles highEnv [zone00] 320 mountedLayer))"

text \<open>
  The home zone of a particle, the objects that \<open>stopTicker\<close> destroys, and further
  concrete inputs: particles about to leave their zone and a component with a rain drop,
  the storm overlay and a running flash.
\<close>

definition rainHome :: "RainParticle \<Rightarrow> real \<times> real \<times> real \<times> real" where
  "rainHome p = (rain_zoneX p, rain_zoneY p, rain_zoneW p, rain_zoneH p)"

definition windHome :: "WindParticle \<Rightarrow> real \<times> real" where
  "windHome p = (wind_zoneX p, wind_zoneW p)"

definition snowHome :: "SnowParticle \<Rightarrow> real \<times> real \<times> real \<times> real" where
  "snowHome p = (snow_zoneX p, snow_zoneY p, snow_zoneW p, snow_zoneH p)"

definition fallingDrop :: RainParticle where
  "fallingDrop =
     \<lparr>rain_g = \<lparr>objId = 4, objSprite = False, objX = 100, objY = 530, objRotation = 0\<rparr>,
      rain_x = 100, rain_y = 530, rain_vx = 0, rain_vy = 5,
      rain_zoneX = 0, rain_zoneY = 0, rain_zoneW = 512, rain_zoneH = 512\<rparr>"

definition stormyLayer :: layer where
  "stormyLayer =
     struckLayer\<lparr>host := (host struckLayer)\<lparr>parentOf := (parentOf (host struckLayer))(3 := Some 0, 4 := Some 1),
                                           nextId := 5\<rparr>,
                 rainPool := [fallingDrop], stormOverlay := Some 3, stormOverlayVisible := True\<rparr>"

definition gust :: WindParticle where
  "gust =
     \<lparr>wind_g = \<lparr>objId = 5, objSprite = False, objX = 531, objY = 40, objRotation = 0\<rparr>,
      wind_x = 531, wind_y = 40, wind_vx = 2, wind_zoneX = 0, wind_zoneW = 512\<rparr>"

definition flake :: SnowParticle where
  "flake =
     \<lparr>snow_g = \<lparr>objId = 6, objSprite = False, objX = 70, objY = 522, objRotation = 0\<rparr>,
      snow_x = 70, snow_y = 522, snow_vy = 1, snow_phase = 0,
      snow_zoneX = 0, snow_zoneY = 0, snow_zoneW = 512, snow_zoneH = 512\<rparr>"

definition pooledNodes :: "layer \<Rightarrow> nat set" where
  "pooledNodes s =
     set (map (\<lambda>p. objId (rain_g p)) (rainPool s)) \<union>
     set (map (\<lambda>p. objId (wind_g p)) (windPool s)) \<union>
     set (map (\<lambda>p. objId (snow_g p)) (snowPool s))"

definition attachedLightning :: "layer \<Rightarrow> nat set" where
  "attachedLightning s =
     (case lightningGraphics s of
        Some g \<Rightarrow> if parentOf (host s) g \<noteq> None then {g} else {}
      | None \<Rightarrow> {})"

section \<open>Properties of double arithmetic\<close>

lemma roundHalfEven_of_int: "roundHalfEven (of_int z) = z"
  by (simp add: roundHalfEven_def)

lemma roundHalfEven_le: "roundHalfEven t \<le> \<lfloor>t\<rfloor> + 1"
  by (simp add: roundHalfEven_def Let_def)

lemma roundHalfEven_nonpos:
  assumes "t \<le> 0"
  shows "roundHalfEven t \<le> 0"
proof (cases "\<lfloor>t\<rfloor> = 0")
  case True
  then have "0 \<le> t"
    by (metis of_int_0 of_int_floor_le)
  with assms have "t = 0"
    by simp
  then show ?thesis
    by (simp add: roundHalfEven_def)
next
  case False
  moreover from assms have "\<lfloor>t\<rfloor> \<le> 0"
    by (simp add: floor_le_zero)
  ultimately have "\<lfloor>t\<rfloor> + 1 \<le> 0"
    by linarith
  with roundHalfEven_le [of t] show ?thesis
    by linarith
qed

lemma ulp_pos: "0 < ulp v"
  by (simp add: ulp_def)

lemma fl_nonpos:
  assumes "v \<le> 0"
  shows "fl v \<le> 0"
proof -
  from assms ulp_pos [of v] have "v / ulp v \<le> 0"
    by (simp add: divide_nonpos_pos)
  then have "roundHalfEven (v / ulp v) \<le> 0"
    by (rule roundHalfEven_nonpos)
  then have "of_int (roundHalfEven (v / ulp v)) \<le> (0::real)"
    by simp
  with ulp_pos [of v] show ?thesis
    unfolding fl_def by (simp add: mult_le_0_iff)
qed

lemma doubleExponent_eq:
  assumes "2 powi e \<le> \<bar>v\<bar>" and "\<bar>v\<bar> < 2 powi (e + 1)" and "- 1022 \<le> e"
  shows "doubleExponent v = e"
proof -
  have "(0::real) < 2 powi e"
    by simp
  with assms(1) have pos: "0 < \<bar>v\<bar>"
    by linarith
  have p1: "(2::real) powr (real_of_int e) = 2 powi e"
    by (simp add: powr_real_of_int')
  have "(2::real) powr (real_of_int (e + 1)) = 2 powi (e + 1)"
    by (rule powr_real_of_int') simp_all
  then have p2: "(2::real) powr (real_of_int e + 1) = 2 powi (e + 1)"
    by simp
  have "\<lfloor>log 2 \<bar>v\<bar>\<rfloor> = e"
    using assms(1,2) pos unfolding floor_log_eq_powr_iff [OF pos, of 2 e, simplified] p1 p2
    by simp
  with assms(3) pos show ?thesis
    by (simp add: doubleExponent_def)
qed

lemma fl_value:
  assumes "2 powi e \<le> \<bar>v\<bar>" and "\<bar>v\<bar> < 2 powi (e + 1)" and "- 1022 \<le> e"
    and "roundHalfEven (v / 2 powi (e - 52)) = m"
  shows "fl v = of_int m * 2 powi (e - 52)"
  unfolding fl_def ulp_def doubleExponent_eq [OF assms(1-3)] assms(4) ..

lemma fl_0: "fl 0 = 0"
  by (simp add: fl_def roundHalfEven_def)

lemma fl_int:
  assumes "\<bar>k\<bar> < 2 ^ 53"
  shows "fl (of_int k) = of_int k"
proof (cases "k = 0")
  case True
  then show ?thesis
    by (simp add: fl_0)
next
  case False
  define v :: real where "v = of_int k"
  define e where "e = \<lfloor>log 2 \<bar>v\<bar>\<rfloor>"
  have v1: "1 \<le> \<bar>v\<bar>"
    using False unfolding v_def by (metis of_int_abs of_int_1_le_iff zero_less_abs_iff
        int_one_le_iff_zero_less)
  then have pos: "0 < \<bar>v\<bar>"
    by linarith
  have "0 \<le> log 2 \<bar>v\<bar>"
    using v1 by simp
  then have e0: "0 \<le> e"
    unfolding e_def by simp
  have "\<bar>v\<bar> < 2 ^ 53"
    using assms unfolding v_def by (metis of_int_abs of_int_less_numeral_power_cancel_iff)
  moreover have "(2::real) powr real (53::nat) = 2 ^ 53"
    by (rule powr_realpow) simp
  ultimately have "\<bar>v\<bar> < 2 powr 53"
    by simp
  moreover have "log 2 \<bar>v\<bar> < 53 \<longleftrightarrow> \<bar>v\<bar> < 2 powr 53"
    using pos by (intro log_less_iff) simp_all
  ultimately have "log 2 \<bar>v\<bar> < 53"
    by simp
  then have "e < 53"
    unfolding e_def by (simp add: floor_less_iff)
  then have e52: "e \<le> 52"
    by simp
  define j where "j = nat (52 - e)"
  have ex: "doubleExponent v = e"
    unfolding doubleExponent_def e_def [symmetric] using e0 pos by simp
  have "e - 52 = - int j"
    unfolding j_def using e52 by simp
  then have u: "ulp v = inverse (2 ^ j)"
    unfolding ulp_def ex by (simp add: power_int_minus)
  have "v / ulp v = v * 2 ^ j"
    by (simp add: u divide_inverse)
  also have "\<dots> = of_int (k * 2 ^ j)"
    unfolding v_def by simp
  finally have "v / ulp v = of_int (k * 2 ^ j)" .
  then have "roundHalfEven (v / ulp v) = k * 2 ^ j"
    by (simp only: roundHalfEven_of_int)
  then have "fl v = of_int (k * 2 ^ j) * inverse (2 ^ j)"
    unfolding fl_def u by simp
  also have "\<dots> = v"
    unfolding v_def by simp
  finally show ?thesis
    unfolding v_def .
qed

lemma fl_numeral:
  "(numeral n :: int) < 9007199254740992 \<Longrightarrow> fl (numeral n) = numeral n"
  "(numeral n :: int) < 9007199254740992 \<Longrightarrow> fl (- numeral n) = - numeral n"
  "fl 1 = 1"
  using fl_int [of "numeral n"] fl_int [of "- numeral n"] fl_int [of 1]
  by simp_all

lemma fl_value_small:
  assumes "1 / 2 ^ n \<le> \<bar>v\<bar>" and "\<bar>v\<bar> < 2 / 2 ^ n" and "n \<le> 1022"
    and "roundHalfEven (v * 2 ^ (n + 52)) = m"
  shows "fl v = of_int m / 2 ^ (n + 52)"
proof -
  have q: "(2::real) powi (- int k) = 1 / 2 ^ k" for k
    by (simp add: power_int_minus field_simps)
  have "(2::real) powi (- int n + 1) = 2 powi (- int n) * 2 powi 1"
    by (rule power_int_add) simp
  then have p1: "(2::real) powi (- int n + 1) = 2 / 2 ^ n"
    by (simp add: q)
  have "- int n - 52 = - int (n + 52)"
    by simp
  then have p2: "(2::real) powi (- int n - 52) = 1 / 2 ^ (n + 52)"
    by (simp only: q)
  note p = q [of n] p1 p2
  have "fl v = of_int m * 2 powi (- int n - 52)"
  proof (rule fl_value)
    show "2 powi (- int n) \<le> \<bar>v\<bar>"
      unfolding q using assms(1) .
    show "\<bar>v\<bar> < 2 powi (- int n + 1)"
      unfolding p1 using assms(2) .
    show "- 1022 \<le> - int n"
      using assms(3) by simp
    show "roundHalfEven (v / 2 powi (- int n - 52)) = m"
      unfolding p2 using assms(4) by simp
  qed
  then show ?thesis
    by (simp add: p)
qed

lemma alpha092: "fl (92 / 100) = 8286623314361713 / 9007199254740992"
proof -
  have "roundHalfEven (92 / 100 * 2 ^ (1 + 52)) = 8286623314361713"
    by (simp add: roundHalfEven_def Let_def)
  from fl_value_small [OF _ _ _ this] show ?thesis
    by simp
qed

lemma alpha065: "fl (65 / 100) = 5854679515581645 / 9007199254740992"
proof -
  have "roundHalfEven (65 / 100 * 2 ^ (1 + 52)) = 5854679515581645"
    by (simp add: roundHalfEven_def Let_def)
  from fl_value_small [OF _ _ _ this] show ?thesis
    by simp
qed

lemma alpha015: "fl (15 / 100) = 5404319552844595 / 36028797018963968"
proof -
  have "roundHalfEven (15 / 100 * 2 ^ (3 + 52)) = 5404319552844595"
    by (simp add: roundHalfEven_def Let_def)
  from fl_value_small [OF _ _ _ this] show ?thesis
    by simp
qed

lemma tiny_step: "fl (7 / 2 ^ 57) = 7 / 2 ^ 57"
proof -
  have "roundHalfEven (7 / 2 ^ 57 * 2 ^ (55 + 52)) = 7 * 2 ^ 50"
    by (simp add: roundHalfEven_def Let_def)
  from fl_value_small [OF _ _ _ this] show ?thesis
    by simp
qed

lemma alpha_absorbs_tiny_step:
  "fl (8286623314361713 / 9007199254740992 - 7 / 2 ^ 57) = 8286623314361713 / 9007199254740992"
proof -
  have "roundHalfEven ((8286623314361713 / 9007199254740992 - 7 / 2 ^ 57) * 2 ^ (1 + 52))
          = 8286623314361713"
    by (simp add: roundHalfEven_def Let_def)
  from fl_value_small [OF _ _ _ this] show ?thesis
    by simp
qed

lemma roundHalfEven_error: "\<bar>of_int (roundHalfEven t) - t\<bar> \<le> 1 / 2"
proof -
  have "of_int \<lfloor>t\<rfloor> \<le> t" "t < of_int \<lfloor>t\<rfloor> + 1"
    by linarith+
  then show ?thesis
    unfolding roundHalfEven_def Let_def by (simp add: abs_le_iff)
qed

lemma fl_error: "\<bar>fl v - v\<bar> \<le> ulp v / 2"
proof -
  define u where "u = ulp v"
  define t where "t = v / u"
  have u: "0 < u"
    unfolding u_def by (rule ulp_pos)
  then have v: "v = t * u"
    unfolding t_def by simp
  have "fl v = of_int (roundHalfEven t) * u"
    by (simp add: fl_def u_def t_def)
  with v have "fl v - v = (of_int (roundHalfEven t) - t) * u"
    by (simp add: algebra_simps)
  then have "\<bar>fl v - v\<bar> = \<bar>of_int (roundHalfEven t) - t\<bar> * u"
    using u by (simp add: abs_mult)
  also have "\<dots> \<le> 1 / 2 * u"
    using roundHalfEven_error [of t] u by (intro mult_right_mono) simp_all
  finally show ?thesis
    unfolding u_def by simp
qed

lemma floor_log2_le:
  assumes "v \<noteq> 0" and "\<bar>v\<bar> < 2 powi (e + 1)"
  shows "\<lfloor>log 2 \<bar>v\<bar>\<rfloor> \<le> e"
proof -
  from assms(1) have pos: "0 < \<bar>v\<bar>"
    by simp
  have "(2::real) powr (real_of_int (e + 1)) = 2 powi (e + 1)"
    by (rule powr_real_of_int') simp_all
  with assms(2) have "\<bar>v\<bar> < 2 powr (real_of_int (e + 1))"
    by simp
  moreover have "log 2 \<bar>v\<bar> < real_of_int (e + 1) \<longleftrightarrow> \<bar>v\<bar> < 2 powr (real_of_int (e + 1))"
    using pos by (intro log_less_iff) simp_all
  ultimately have "log 2 \<bar>v\<bar> < real_of_int (e + 1)"
    by simp
  then have "\<lfloor>log 2 \<bar>v\<bar>\<rfloor> < e + 1"
    by (simp only: floor_less_iff)
  then show ?thesis
    by simp
qed

lemma ulp_le:
  assumes "\<bar>v\<bar> < 2 powi (e + 1)" and "- 1022 \<le> e"
  shows "ulp v \<le> 2 powi (e - 52)"
proof -
  have "doubleExponent v \<le> e"
  proof (cases "v = 0")
    case True
    with assms(2) show ?thesis
      by (simp add: doubleExponent_def)
  next
    case False
    from floor_log2_le [OF False assms(1)] assms(2) False show ?thesis
      by (simp add: doubleExponent_def)
  qed
  then have "doubleExponent v - 52 \<le> e - 52"
    by simp
  then show ?thesis
    unfolding ulp_def by (intro power_int_increasing) simp_all
qed

lemma ulp_le_rel:
  assumes "2 powi (- 1022) \<le> \<bar>v\<bar>"
  shows "ulp v \<le> \<bar>v\<bar> / 2 ^ 52"
proof -
  have "(0::real) < 2 powi (- 1022)"
    by (rule zero_less_power_int) simp
  from this assms have pos: "0 < \<bar>v\<bar>"
    by (rule less_le_trans)
  then have nz: "v \<noteq> 0"
    by simp
  define l where "l = \<lfloor>log 2 \<bar>v\<bar>\<rfloor>"
  have p: "(2::real) powr (real_of_int k) = 2 powi k" for k
    by (rule powr_real_of_int') simp_all
  have "(2::real) powr (real_of_int (- 1022)) \<le> \<bar>v\<bar>"
    unfolding p using assms .
  moreover have "real_of_int (- 1022) \<le> log 2 \<bar>v\<bar> \<longleftrightarrow> 2 powr (real_of_int (- 1022)) \<le> \<bar>v\<bar>"
    using pos by (intro le_log_iff) simp_all
  ultimately have "real_of_int (- 1022) \<le> log 2 \<bar>v\<bar>"
    by simp
  then have low: "- 1022 \<le> l"
    unfolding l_def by (simp only: le_floor_iff)
  have "real_of_int l \<le> log 2 \<bar>v\<bar>"
    unfolding l_def by (rule of_int_floor_le)
  moreover have "real_of_int l \<le> log 2 \<bar>v\<bar> \<longleftrightarrow> 2 powr (real_of_int l) \<le> \<bar>v\<bar>"
    using pos by (intro le_log_iff) simp_all
  ultimately have "2 powi l \<le> \<bar>v\<bar>"
    unfolding p by simp
  moreover have "doubleExponent v = l"
    using low nz unfolding doubleExponent_def l_def by simp
  moreover have "(2::real) powi (l - 52) = 2 powi l / 2 powi 52"
    by (rule power_int_diff) simp
  then have "(2::real) powi (l - 52) = 2 powi l / 2 ^ 52"
    by simp
  ultimately show ?thesis
    unfolding ulp_def by (simp add: divide_right_mono)
qed

lemma fl_error_rel:
  assumes "2 powi (- 1022) \<le> \<bar>v\<bar>"
  shows "\<bar>fl v - v\<bar> \<le> \<bar>v\<bar> / 2 ^ 53"
proof -
  from ulp_le_rel [OF assms] have "ulp v / 2 \<le> \<bar>v\<bar> / 2 ^ 52 / 2"
    by (rule divide_right_mono) simp
  with fl_error [of v] show ?thesis
    by simp
qed

lemma tiny_le: "(2::real) powi (- 1022) \<le> 1 / 2 ^ 56"
proof -
  have "(2::real) powi (- 1022) \<le> 2 powi (- 56)"
    by (rule power_int_increasing) simp_all
  also have "(2::real) powi (- 56) = 1 / 2 ^ 56"
    by (simp add: power_int_minus inverse_eq_divide)
  finally show ?thesis .
qed

lemma fl_error_below:
  assumes "\<bar>v\<bar> < 1 / 2 ^ n" and "n \<le> 1021"
  shows "\<bar>fl v - v\<bar> \<le> 1 / 2 ^ (n + 54)"
proof -
  have q: "(2::real) powi (- int k) = 1 / 2 ^ k" for k
    by (simp add: power_int_minus field_simps)
  have "- int (Suc n) + 1 = - int n"
    by simp
  with assms(1) have "\<bar>v\<bar> < 2 powi (- int (Suc n) + 1)"
    by (simp only: q)
  then have "ulp v \<le> 2 powi (- int (Suc n) - 52)"
    using assms(2) by (intro ulp_le) simp_all
  moreover have "- int (Suc n) - 52 = - int (n + 53)"
    by simp
  ultimately have "ulp v \<le> 1 / 2 ^ (n + 53)"
    by (simp only: q)
  then have "ulp v / 2 \<le> 1 / 2 ^ (n + 53) / 2"
    by (rule divide_right_mono) simp
  moreover have "(1::real) / 2 ^ (n + 53) / 2 = 1 / 2 ^ (n + 54)"
    by (simp add: power_add)
  ultimately show ?thesis
    using fl_error [of v] by linarith
qed

lemma fl_lower:
  assumes "2 powi (- 1022) \<le> x"
  shows "x * 7 / 8 \<le> fl x"
proof -
  have "(0::real) < 2 powi (- 1022)"
    by (rule zero_less_power_int) simp
  from this assms have pos: "0 < x"
    by (rule less_le_trans)
  with assms have "\<bar>fl x - x\<bar> \<le> \<bar>x\<bar> / 2 ^ 53"
    by (intro fl_error_rel) simp
  with pos have "x - x / 2 ^ 53 \<le> fl x"
    by linarith
  moreover have "x / 2 ^ 53 \<le> x / 8"
    using pos by (intro divide_left_mono) simp_all
  ultimately show ?thesis
    by linarith
qed

lemma fl_upper_neg:
  assumes "v \<le> - c" and "2 powi (- 1022) \<le> c"
  shows "fl v \<le> - c / 2"
proof -
  have "(0::real) < 2 powi (- 1022)"
    by (rule zero_less_power_int) simp
  from this assms(2) have c: "0 < c"
    by (rule less_le_trans)
  from assms c have "2 powi (- 1022) \<le> \<bar>v\<bar>"
    by linarith
  from fl_error_rel [OF this] assms(1) c have "fl v \<le> v - v / 2 ^ 53"
    by linarith
  moreover have "(- v) / 2 ^ 53 \<le> (- v) / 2"
    using assms(1) c by (intro divide_left_mono) simp_all
  ultimately show ?thesis
    using assms(1) by linarith
qed

lemma fl_value_large:
  assumes "2 ^ n \<le> \<bar>v\<bar>" and "\<bar>v\<bar> < 2 * 2 ^ n" and "n \<le> 52"
    and "roundHalfEven (v * 2 ^ (52 - n)) = m"
  shows "fl v = of_int m / 2 ^ (52 - n)"
proof -
  have p0: "(2::real) powi (int n) = 2 ^ n"
    by simp
  have "(2::real) powi (int n + 1) = 2 powi (int n) * 2 powi 1"
    by (rule power_int_add) simp
  then have p1: "(2::real) powi (int n + 1) = 2 * 2 ^ n"
    by simp
  from assms(3) have "int n - 52 = - int (52 - n)"
    by simp
  moreover have "(2::real) powi (- int k) = 1 / 2 ^ k" for k
    by (simp add: power_int_minus field_simps)
  ultimately have p2: "(2::real) powi (int n - 52) = 1 / 2 ^ (52 - n)"
    by (simp only:)
  have "fl v = of_int m * 2 powi (int n - 52)"
  proof (rule fl_value)
    show "2 powi (int n) \<le> \<bar>v\<bar>"
      unfolding p0 using assms(1) .
    show "\<bar>v\<bar> < 2 powi (int n + 1)"
      unfolding p1 using assms(2) .
    show "- 1022 \<le> int n"
      by simp
    show "roundHalfEven (v / 2 powi (int n - 52)) = m"
      unfolding p2 using assms(4) by simp
  qed
  then show ?thesis
    unfolding p2 by simp
qed

lemma fl_half: "fl (1 / 2) = 1 / 2"
proof -
  have "roundHalfEven (1 / 2 * 2 ^ (1 + 52)) = 4503599627370496"
    by (simp add: roundHalfEven_def Let_def)
  from fl_value_small [OF _ _ _ this] show ?thesis
    by simp
qed

lemmas double_simps = addD_def subD_def mulD_def fl_numeral fl_0 fl_half

lemma subD_nonpos: "a \<le> c \<Longrightarrow> subD a c \<le> 0"
  unfolding subD_def by (rule fl_nonpos) simp

lemma roundHalfEven_ge: "\<lfloor>t\<rfloor> \<le> roundHalfEven t"
  by (simp add: roundHalfEven_def Let_def)

lemma roundHalfEven_mono:
  assumes "s \<le> t"
  shows "roundHalfEven s \<le> roundHalfEven t"
proof (cases "\<lfloor>s\<rfloor> = \<lfloor>t\<rfloor>")
  case True
  with assms show ?thesis
    unfolding roundHalfEven_def Let_def by simp
next
  case False
  moreover from assms have "\<lfloor>s\<rfloor> \<le> \<lfloor>t\<rfloor>"
    by (rule floor_mono)
  ultimately have "\<lfloor>s\<rfloor> + 1 \<le> \<lfloor>t\<rfloor>"
    by linarith
  with roundHalfEven_le [of s] roundHalfEven_ge [of t] show ?thesis
    by linarith
qed

lemma roundHalfEven_minus: "roundHalfEven (- t) = - roundHalfEven t"
proof (cases "t = of_int \<lfloor>t\<rfloor>")
  case True
  then obtain z :: int where "t = of_int z"
    by blast
  then have "- t = of_int (- z)"
    by simp
  then show ?thesis
    unfolding \<open>t = of_int z\<close> by (simp only: roundHalfEven_of_int)
next
  case False
  have b: "of_int \<lfloor>t\<rfloor> \<le> t" "t < of_int \<lfloor>t\<rfloor> + 1"
    by linarith+
  with False have lt: "of_int \<lfloor>t\<rfloor> < t"
    by linarith
  have f: "\<lfloor>- t\<rfloor> = - \<lfloor>t\<rfloor> - 1"
  proof (rule floor_unique)
    show "of_int (- \<lfloor>t\<rfloor> - 1) \<le> - t"
      using b(2) by (simp only: of_int_diff of_int_minus of_int_1; linarith?)
    show "- t < of_int (- \<lfloor>t\<rfloor> - 1) + 1"
      using lt by (simp only: of_int_diff of_int_minus of_int_1; linarith?)
  qed
  have e: "even (- \<lfloor>t\<rfloor> - 1) = odd \<lfloor>t\<rfloor>"
    by simp
  show ?thesis
    unfolding roundHalfEven_def Let_def f e using lt b(2) by (simp add: algebra_simps)
qed

lemma ulp_minus: "ulp (- v) = ulp v"
  by (simp add: ulp_def doubleExponent_def)

lemma fl_minus: "fl (- v) = - fl v"
proof -
  have "- v / ulp v = - (v / ulp v)"
    by simp
  then show ?thesis
    unfolding fl_def ulp_minus by (simp only: roundHalfEven_minus of_int_minus mult_minus_left)
qed

lemma fl_nonneg:
  assumes "0 \<le> v"
  shows "0 \<le> fl v"
proof -
  from assms have "fl (- v) \<le> 0"
    by (intro fl_nonpos) simp
  then show ?thesis
    unfolding fl_minus by simp
qed

lemma doubleExponent_ge: "- 1022 \<le> doubleExponent v"
  by (simp add: doubleExponent_def)

lemma doubleExponent_mono:
  assumes "\<bar>a\<bar> \<le> \<bar>b\<bar>"
  shows "doubleExponent a \<le> doubleExponent b"
proof (cases "a = 0")
  case True
  then have "doubleExponent a = - 1022"
    by (simp add: doubleExponent_def)
  with doubleExponent_ge [of b] show ?thesis
    by simp
next
  case False
  with assms have b: "b \<noteq> 0"
    by auto
  from False assms have "log 2 \<bar>a\<bar> \<le> log 2 \<bar>b\<bar>"
    by simp
  then have "\<lfloor>log 2 \<bar>a\<bar>\<rfloor> \<le> \<lfloor>log 2 \<bar>b\<bar>\<rfloor>"
    by (rule floor_mono)
  with False b show ?thesis
    by (simp add: doubleExponent_def)
qed

lemma below_next_binade: "\<bar>v\<bar> < 2 powi (doubleExponent v + 1)"
proof (cases "v = 0")
  case True
  then show ?thesis
    by simp
next
  case False
  then have pos: "0 < \<bar>v\<bar>"
    by simp
  define e where "e = doubleExponent v"
  have "\<lfloor>log 2 \<bar>v\<bar>\<rfloor> \<le> e"
    unfolding e_def using False by (simp add: doubleExponent_def)
  then have "\<lfloor>log 2 \<bar>v\<bar>\<rfloor> < e + 1"
    by simp
  then have "log 2 \<bar>v\<bar> < real_of_int (e + 1)"
    by (simp only: floor_less_iff)
  moreover have "log 2 \<bar>v\<bar> < real_of_int (e + 1) \<longleftrightarrow> \<bar>v\<bar> < 2 powr (real_of_int (e + 1))"
    using pos by (intro log_less_iff) simp_all
  moreover have "(2::real) powr (real_of_int (e + 1)) = 2 powi (e + 1)"
    by (rule powr_real_of_int') simp_all
  ultimately show ?thesis
    unfolding e_def by simp
qed

lemma above_binade:
  assumes "- 1022 < doubleExponent v"
  shows "2 powi (doubleExponent v) \<le> \<bar>v\<bar>"
proof -
  from assms have nz: "v \<noteq> 0"
    by (auto simp: doubleExponent_def)
  then have pos: "0 < \<bar>v\<bar>"
    by simp
  define l where "l = \<lfloor>log 2 \<bar>v\<bar>\<rfloor>"
  from assms nz have e: "doubleExponent v = l"
    unfolding l_def by (simp add: doubleExponent_def split: if_splits)
  have "real_of_int l \<le> log 2 \<bar>v\<bar>"
    unfolding l_def by (rule of_int_floor_le)
  moreover have "real_of_int l \<le> log 2 \<bar>v\<bar> \<longleftrightarrow> 2 powr (real_of_int l) \<le> \<bar>v\<bar>"
    using pos by (intro le_log_iff) simp_all
  moreover have "(2::real) powr (real_of_int l) = 2 powi l"
    by (rule powr_real_of_int') simp_all
  ultimately show ?thesis
    unfolding e by simp
qed

lemma binade_over_ulp:
  "(2::real) powi (e + 1) / 2 powi (e - 52) = 2 ^ 53" "(2::real) powi e / 2 powi (e - 52) = 2 ^ 52"
proof -
  have "(2::real) powi ((e + 1) - (e - 52)) = 2 powi (e + 1) / 2 powi (e - 52)"
    by (rule power_int_diff) simp
  moreover have "(e + 1) - (e - 52) = 53"
    by simp
  ultimately show "(2::real) powi (e + 1) / 2 powi (e - 52) = 2 ^ 53"
    by simp
  have "(2::real) powi (e - (e - 52)) = 2 powi e / 2 powi (e - 52)"
    by (rule power_int_diff) simp
  moreover have "e - (e - 52) = 52"
    by simp
  ultimately show "(2::real) powi e / 2 powi (e - 52) = 2 ^ 52"
    by simp
qed

lemma fl_le_next_binade:
  assumes "0 \<le> v"
  shows "fl v \<le> 2 powi (doubleExponent v + 1)"
proof -
  define e where "e = doubleExponent v"
  define u :: real where "u = 2 powi (e - 52)"
  have u: "0 < u"
    unfolding u_def by simp
  from below_next_binade [of v] assms have "v \<le> 2 powi (e + 1)"
    unfolding e_def by simp
  then have "v / u \<le> 2 powi (e + 1) / u"
    using u by (simp add: divide_right_mono)
  then have "v / u \<le> of_int (2 ^ 53)"
    unfolding u_def binade_over_ulp by simp
  then have "roundHalfEven (v / u) \<le> roundHalfEven (of_int (2 ^ 53))"
    by (rule roundHalfEven_mono)
  then have "roundHalfEven (v / u) \<le> 2 ^ 53"
    by (simp only: roundHalfEven_of_int)
  then have "real_of_int (roundHalfEven (v / u)) \<le> real_of_int (2 ^ 53)"
    by (simp only: of_int_le_iff)
  then have "real_of_int (roundHalfEven (v / u)) * u \<le> 2 ^ 53 * u"
    using u by (simp add: mult_right_mono)
  moreover have "2 ^ 53 * u = 2 powi (e + 1)"
    using binade_over_ulp(1) [of e] u unfolding u_def by (simp add: field_simps)
  ultimately show ?thesis
    unfolding fl_def ulp_def e_def [symmetric] u_def [symmetric] by simp
qed

lemma fl_ge_binade:
  assumes "0 \<le> v" and "- 1022 < doubleExponent v"
  shows "2 powi (doubleExponent v) \<le> fl v"
proof -
  define e where "e = doubleExponent v"
  define u :: real where "u = 2 powi (e - 52)"
  have u: "0 < u"
    unfolding u_def by simp
  from above_binade [OF assms(2)] assms(1) have "2 powi e \<le> v"
    unfolding e_def by simp
  then have "2 powi e / u \<le> v / u"
    using u by (simp add: divide_right_mono)
  then have "of_int (2 ^ 52) \<le> v / u"
    unfolding u_def binade_over_ulp by simp
  then have "roundHalfEven (of_int (2 ^ 52)) \<le> roundHalfEven (v / u)"
    by (rule roundHalfEven_mono)
  then have "2 ^ 52 \<le> roundHalfEven (v / u)"
    by (simp only: roundHalfEven_of_int)
  then have "real_of_int (2 ^ 52) \<le> real_of_int (roundHalfEven (v / u))"
    by (simp only: of_int_le_iff)
  then have "2 ^ 52 * u \<le> real_of_int (roundHalfEven (v / u)) * u"
    using u by (simp add: mult_right_mono)
  moreover have "2 ^ 52 * u = 2 powi e"
    using binade_over_ulp(2) [of e] u unfolding u_def by (simp add: field_simps)
  ultimately show ?thesis
    unfolding fl_def ulp_def e_def [symmetric] u_def [symmetric] by simp
qed

lemma fl_mono_nonneg:
  assumes "0 \<le> a" and "a \<le> b"
  shows "fl a \<le> fl b"
proof -
  from assms have b: "0 \<le> b"
    by simp
  from assms have "\<bar>a\<bar> \<le> \<bar>b\<bar>"
    by simp
  then have le: "doubleExponent a \<le> doubleExponent b"
    by (rule doubleExponent_mono)
  show ?thesis
  proof (cases "doubleExponent a = doubleExponent b")
    case True
    then have u: "ulp a = ulp b"
      by (simp add: ulp_def)
    from assms(2) ulp_pos [of b] have "a / ulp b \<le> b / ulp b"
      by (simp add: divide_right_mono)
    then have "roundHalfEven (a / ulp b) \<le> roundHalfEven (b / ulp b)"
      by (rule roundHalfEven_mono)
    then have "real_of_int (roundHalfEven (a / ulp b)) \<le> real_of_int (roundHalfEven (b / ulp b))"
      by (simp only: of_int_le_iff)
    with ulp_pos [of b] show ?thesis
      unfolding fl_def u by (simp add: mult_right_mono)
  next
    case False
    with le have lt: "doubleExponent a + 1 \<le> doubleExponent b"
      by simp
    with doubleExponent_ge [of a] have "- 1022 < doubleExponent b"
      by simp
    from fl_ge_binade [OF b this] have "2 powi (doubleExponent b) \<le> fl b" .
    moreover from lt have "(2::real) powi (doubleExponent a + 1) \<le> 2 powi (doubleExponent b)"
      by (intro power_int_increasing) simp_all
    moreover note fl_le_next_binade [OF assms(1)]
    ultimately show ?thesis
      by linarith
  qed
qed

lemma fl_mono:
  assumes "a \<le> b"
  shows "fl a \<le> fl b"
proof -
  consider "0 \<le> a" | "b \<le> 0" | "a < 0" "0 < b"
    by linarith
  then show ?thesis
  proof cases
    case 1
    from this assms show ?thesis
      by (rule fl_mono_nonneg)
  next
    case 2
    with assms have "0 \<le> - b" "- b \<le> - a"
      by simp_all
    then have "fl (- b) \<le> fl (- a)"
      by (rule fl_mono_nonneg)
    then show ?thesis
      unfolding fl_minus by simp
  next
    case 3
    then have "fl a \<le> 0" "0 \<le> fl b"
      by (simp_all add: fl_nonpos fl_nonneg)
    then show ?thesis
      by simp
  qed
qed

section \<open>Properties of the classifier\<close>

lemma hashBits_le: "unat (hashBits zx zy seed) \<le> 65535"
proof -
  have "hashBits zx zy seed \<le> 0xffff"
    unfolding hashBits_def Let_def by (rule word_and_le1)
  then show ?thesis
    by (simp add: word_le_nat_alt)
qed

lemma hashNoise_range: "0 \<le> hashNoise zx zy seed \<and> hashNoise zx zy seed \<le> 1"
proof -
  define r where "r = real (unat (hashBits zx zy seed))"
  have "r \<le> real (65535::nat)"
    unfolding r_def by (rule of_nat_mono) (rule hashBits_le)
  moreover have "0 \<le> r"
    unfolding r_def by (rule of_nat_0_le_iff)
  moreover have "hashNoise zx zy seed = r / 65535"
    unfolding r_def hashNoise_def ..
  ultimately show ?thesis
    by simp
qed

lemma hashNoise_scaled: "hashNoise zx zy seed * 65535 = real (unat (hashBits zx zy seed))"
proof -
  define r where "r = real (unat (hashBits zx zy seed))"
  have "hashNoise zx zy seed = r / 65535"
    unfolding r_def hashNoise_def ..
  then have "hashNoise zx zy seed * 65535 = r"
    by simp
  then show ?thesis
    unfolding r_def .
qed

lemma hashBits_38_17_47: "hashBits 38 17 47 = 65535"
  by code_simp

lemma hashBits_0_0_8: "hashBits 0 0 8 = 22129"
  by code_simp

lemma hashBits_1_0_8: "hashBits 1 0 8 = 7060"
  by code_simp

lemma length_buildWeatherGrid:
  "length (buildWeatherGrid mapData seed) =
     (if length mapData = 0 \<or> firstRowLength mapData = 0 then 0
      else nat \<lceil>real (length mapData) / real ZONE_SIZE\<rceil>)"
  by (simp add: buildWeatherGrid_def Let_def)

lemma length_buildWeatherGrid_row:
  assumes "j < length (buildWeatherGrid mapData seed)"
  shows "length (buildWeatherGrid mapData seed ! j) =
           nat \<lceil>real (firstRowLength mapData) / real ZONE_SIZE\<rceil>"
  using assms by (simp add: buildWeatherGrid_def Let_def split: if_splits)

lemma buildWeatherGrid_cell:
  assumes "j < length (buildWeatherGrid mapData seed)"
    and "i < length (buildWeatherGrid mapData seed ! j)"
  shows "buildWeatherGrid mapData seed ! j ! i = zoneWeather mapData seed j i"
  using assms by (simp add: buildWeatherGrid_def Let_def split: if_splits)

lemma upt_8: "[0..<8] = [0, 1, 2, 3, 4, 5, 6, 7::nat]"
  by code_simp

lemma countZoneRow_single_first: "countZoneRow [[t]] 0 0 0 count = countTile count t"
  by (simp add: countZoneRow_def ZONE_SIZE_def upt_8 firstRowLength_def tileAt_def)

lemma countZoneRow_single_rest: "0 < dy \<Longrightarrow> countZoneRow [[t]] 0 0 dy count = count"
  by (simp add: countZoneRow_def ZONE_SIZE_def upt_8)

lemma countZone_single: "countZone [[t]] 0 0 = [(t, 1)]"
  by (simp add: countZone_def ZONE_SIZE_def upt_8 countZoneRow_single_first
      countZoneRow_single_rest countTile_def)

lemma dominant_single_tile: "getZoneDominantTerrain [[t]] 0 0 = t"
  by (simp add: getZoneDominantTerrain_def countZone_single pickDominant_def ZONE_SIZE_def
      tileAt_def)

lemma grid_single_tile: "buildWeatherGrid [[t]] seed = [[zoneWeather [[t]] seed 0 0]]"
proof -
  have "\<lceil>(1::real) / 8\<rceil> = 1"
    by (rule ceiling_unique) simp_all
  then show ?thesis
    by (simp add: buildWeatherGrid_def firstRowLength_def ZONE_SIZE_def)
qed

subsection \<open>Determinism\<close>

lemma zone_in_grid:
  assumes "i < nat \<lceil>real c / real ZONE_SIZE\<rceil>"
  shows "i * ZONE_SIZE < c"
proof -
  from assms have "int i < \<lceil>real c / 8\<rceil>"
    by (simp add: ZONE_SIZE_def)
  then have "real_of_int (int i) < real c / 8"
    by (simp only: less_ceiling_iff)
  then have "real (i * 8) < real c"
    by simp
  then show ?thesis
    unfolding ZONE_SIZE_def by (simp only: of_nat_less_iff)
qed

lemma countZoneRow_cong:
  assumes "length m1 = length m2" and "firstRowLength m1 = firstRowLength m2"
    and "\<And>dx. dx < ZONE_SIZE \<Longrightarrow>
           zy * ZONE_SIZE + dy < length m1 \<and> zx * ZONE_SIZE + dx < firstRowLength m1 \<Longrightarrow>
           tileAt m1 (zy * ZONE_SIZE + dy) (zx * ZONE_SIZE + dx) =
           tileAt m2 (zy * ZONE_SIZE + dy) (zx * ZONE_SIZE + dx)"
  shows "countZoneRow m1 zx zy dy = countZoneRow m2 zx zy dy"
proof -
  have "countZoneRow m1 zx zy dy count = countZoneRow m2 zx zy dy count" for count
    unfolding countZoneRow_def
  proof (rule fold_cong [OF refl refl])
    fix dx
    assume "dx \<in> set [0..<ZONE_SIZE]"
    then have dx: "dx < ZONE_SIZE"
      by simp
    show "(\<lambda>count. let tx = zx * ZONE_SIZE + dx; ty = zy * ZONE_SIZE + dy in
                   if ty < length m1 \<and> tx < firstRowLength m1
                   then countTile count (tileAt m1 ty tx) else count) =
          (\<lambda>count. let tx = zx * ZONE_SIZE + dx; ty = zy * ZONE_SIZE + dy in
                   if ty < length m2 \<and> tx < firstRowLength m2
                   then countTile count (tileAt m2 ty tx) else count)"
      using assms(3) [OF dx] unfolding assms(1,2) [symmetric] Let_def by (intro ext) simp
  qed
  then show ?thesis
    by (rule ext)
qed

lemma countZone_cong:
  assumes "length m1 = length m2" and "firstRowLength m1 = firstRowLength m2"
    and "\<And>dy dx. dy < ZONE_SIZE \<Longrightarrow> dx < ZONE_SIZE \<Longrightarrow>
           zy * ZONE_SIZE + dy < length m1 \<and> zx * ZONE_SIZE + dx < firstRowLength m1 \<Longrightarrow>
           tileAt m1 (zy * ZONE_SIZE + dy) (zx * ZONE_SIZE + dx) =
           tileAt m2 (zy * ZONE_SIZE + dy) (zx * ZONE_SIZE + dx)"
  shows "countZone m1 zx zy = countZone m2 zx zy"
  unfolding countZone_def
proof (rule fold_cong [OF refl refl])
  fix dy
  assume "dy \<in> set [0..<ZONE_SIZE]"
  then have dy: "dy < ZONE_SIZE"
    by simp
  show "countZoneRow m1 zx zy dy = countZoneRow m2 zx zy dy"
    using assms(1,2) assms(3) [OF dy] by (rule countZoneRow_cong)
qed

lemma getZoneDominantTerrain_cong:
  assumes "length m1 = length m2" and "firstRowLength m1 = firstRowLength m2"
    and "zx * ZONE_SIZE < firstRowLength m1"
    and "\<And>dy dx. dy < ZONE_SIZE \<Longrightarrow> dx < ZONE_SIZE \<Longrightarrow>
           zy * ZONE_SIZE + dy < length m1 \<and> zx * ZONE_SIZE + dx < firstRowLength m1 \<Longrightarrow>
           tileAt m1 (zy * ZONE_SIZE + dy) (zx * ZONE_SIZE + dx) =
           tileAt m2 (zy * ZONE_SIZE + dy) (zx * ZONE_SIZE + dx)"
  shows "getZoneDominantTerrain m1 zx zy = getZoneDominantTerrain m2 zx zy"
proof -
  have c: "countZone m1 zx zy = countZone m2 zx zy"
    using assms(1,2,4) by (rule countZone_cong)
  have "tileAt m1 (zy * ZONE_SIZE) (zx * ZONE_SIZE) = tileAt m2 (zy * ZONE_SIZE) (zx * ZONE_SIZE)"
    if "zy * ZONE_SIZE < length m1"
    using assms(4) [of 0 0] assms(3) that by (simp add: ZONE_SIZE_def)
  then show ?thesis
    unfolding getZoneDominantTerrain_def c assms(1) [symmetric] by (simp add: Let_def)
qed

lemma onMapDataChange_grid:
  "weatherGrid (onMapDataChange d s) =
     (case d of None \<Rightarrow> []
      | Some m \<Rightarrow> if length m \<noteq> 0 \<and> firstRowLength m \<noteq> 0 then buildWeatherGrid m 12345 else [])"
  by (simp add: onMapDataChange_def split: option.split)

lemma onMapDataChange_frame:
  "onMapDataChange d s = s\<lparr>weatherGrid := weatherGrid (onMapDataChange d s)\<rparr>"
  by (simp add: onMapDataChange_def split: option.split)

text \<open>
  Claim C1. \<open>buildWeatherGrid\<close> takes the terrain matrix and the seed and nothing else; its
  only mutable objects are the arrays and the counting record it creates itself. What it
  returns is therefore fixed by the values it reads from its two arguments: two terrain
  matrices with the same number of rows and the same first-row length give, for the same
  seed, grids of the same shape, and the cell of a zone is the same in both whenever the
  tiles of that zone are the same in both, whatever the matrices hold elsewhere; for one
  and the same matrix every cell agrees. The component calls the classifier from its
  \<open>mapData\<close> watcher: the grid it stores is the same for every state of the component
  (pools, display list, position in the sequence of random numbers), and nothing but the
  grid is changed by the call, so that no random number is drawn.
\<close>

theorem buildWeatherGrid_deterministic:
  assumes "length m1 = length m2" and "firstRowLength m1 = firstRowLength m2"
    and "j < length (buildWeatherGrid m1 seed)"
    and "i < length (buildWeatherGrid m1 seed ! j)"
    and "\<forall>dy<ZONE_SIZE. \<forall>dx<ZONE_SIZE.
           j * ZONE_SIZE + dy < length m1 \<and> i * ZONE_SIZE + dx < firstRowLength m1 \<longrightarrow>
           tileAt m1 (j * ZONE_SIZE + dy) (i * ZONE_SIZE + dx) =
           tileAt m2 (j * ZONE_SIZE + dy) (i * ZONE_SIZE + dx)"
  shows "length (buildWeatherGrid m1 seed) = length (buildWeatherGrid m2 seed) \<and>
         length (buildWeatherGrid m1 seed ! j) = length (buildWeatherGrid m2 seed ! j) \<and>
         buildWeatherGrid m1 seed ! j ! i = buildWeatherGrid m2 seed ! j ! i \<and>
         weatherGrid (onMapDataChange (Some m1) s1) = weatherGrid (onMapDataChange (Some m1) s2) \<and>
         onMapDataChange (Some m1) s1 = s1\<lparr>weatherGrid := weatherGrid (onMapDataChange (Some m1) s2)\<rparr>"
proof -
  have len: "length (buildWeatherGrid m1 seed) = length (buildWeatherGrid m2 seed)"
    unfolding length_buildWeatherGrid assms(1,2) ..
  with assms(3) have j2: "j < length (buildWeatherGrid m2 seed)"
    by simp
  have row: "length (buildWeatherGrid m1 seed ! j) = length (buildWeatherGrid m2 seed ! j)"
    unfolding length_buildWeatherGrid_row [OF assms(3)] length_buildWeatherGrid_row [OF j2]
      assms(2) ..
  with assms(4) have i2: "i < length (buildWeatherGrid m2 seed ! j)"
    by simp
  from assms(4) have "i * ZONE_SIZE < firstRowLength m1"
    unfolding length_buildWeatherGrid_row [OF assms(3)] by (rule zone_in_grid)
  with assms(1,2) have "getZoneDominantTerrain m1 i j = getZoneDominantTerrain m2 i j"
    using assms(5) by (intro getZoneDominantTerrain_cong) simp_all
  then have "zoneWeather m1 seed j i = zoneWeather m2 seed j i"
    unfolding zoneWeather_def by simp
  then have cell: "buildWeatherGrid m1 seed ! j ! i = buildWeatherGrid m2 seed ! j ! i"
    unfolding buildWeatherGrid_cell [OF assms(3,4)] buildWeatherGrid_cell [OF j2 i2] .
  have grid: "weatherGrid (onMapDataChange (Some m1) s1) = weatherGrid (onMapDataChange (Some m1) s2)"
    unfolding onMapDataChange_grid ..
  have "onMapDataChange (Some m1) s1 = s1\<lparr>weatherGrid := weatherGrid (onMapDataChange (Some m1) s1)\<rparr>"
    by (rule onMapDataChange_frame)
  then have "onMapDataChange (Some m1) s1 = s1\<lparr>weatherGrid := weatherGrid (onMapDataChange (Some m1) s2)\<rparr>"
    unfolding grid .
  with len row cell grid show ?thesis
    by (intro conjI)
qed

theorem buildWeatherGrid_deterministic_witness:
  "length (buildWeatherGrid [replicate 8 ''SWAMP'' @ [''PLAIN'']] 8) =
     length (buildWeatherGrid [replicate 8 ''SWAMP'' @ [''DESERT'']] 8) \<and>
   length (buildWeatherGrid [replicate 8 ''SWAMP'' @ [''PLAIN'']] 8 ! 0) =
     length (buildWeatherGrid [replicate 8 ''SWAMP'' @ [''DESERT'']] 8 ! 0) \<and>
   buildWeatherGrid [replicate 8 ''SWAMP'' @ [''PLAIN'']] 8 ! 0 ! 0 =
     buildWeatherGrid [replicate 8 ''SWAMP'' @ [''DESERT'']] 8 ! 0 ! 0 \<and>
   weatherGrid (onMapDataChange (Some [replicate 8 ''SWAMP'' @ [''PLAIN'']]) mountedLayer) =
     weatherGrid (onMapDataChange (Some [replicate 8 ''SWAMP'' @ [''PLAIN'']]) stormyLayer) \<and>
   onMapDataChange (Some [replicate 8 ''SWAMP'' @ [''PLAIN'']]) mountedLayer =
     mountedLayer\<lparr>weatherGrid :=
       weatherGrid (onMapDataChange (Some [replicate 8 ''SWAMP'' @ [''PLAIN'']]) stormyLayer)\<rparr>"
proof -
  let ?m1 = "[replicate 8 ''SWAMP'' @ [''PLAIN'']]"
  let ?m2 = "[replicate 8 ''SWAMP'' @ [''DESERT'']]"
  have c1: "\<lceil>(1::real) / 8\<rceil> = 1"
    by (rule ceiling_unique) simp_all
  have c9: "\<lceil>(9::real) / 8\<rceil> = 2"
    by (rule ceiling_unique) simp_all
  have d: "length ?m1 = length ?m2" "firstRowLength ?m1 = firstRowLength ?m2"
    by (simp_all add: firstRowLength_def)
  have j: "0 < length (buildWeatherGrid ?m1 8)"
    by (simp add: length_buildWeatherGrid firstRowLength_def ZONE_SIZE_def c1)
  have i: "0 < length (buildWeatherGrid ?m1 8 ! 0)"
    unfolding length_buildWeatherGrid_row [OF j]
    by (simp add: firstRowLength_def ZONE_SIZE_def c9)
  have t: "\<forall>dy<ZONE_SIZE. \<forall>dx<ZONE_SIZE.
             0 * ZONE_SIZE + dy < length ?m1 \<and> 0 * ZONE_SIZE + dx < firstRowLength ?m1 \<longrightarrow>
             tileAt ?m1 (0 * ZONE_SIZE + dy) (0 * ZONE_SIZE + dx) =
             tileAt ?m2 (0 * ZONE_SIZE + dy) (0 * ZONE_SIZE + dx)"
    by (simp add: ZONE_SIZE_def tileAt_def nth_append)
  from buildWeatherGrid_deterministic [OF d j i t, of mountedLayer stormyLayer] show ?thesis .
qed

subsection \<open>The range of the hash\<close>

text \<open>
  With the default seed 12345 the product \<open>mixed\<close> exceeds \<open>2 ^ 53\<close> and is rounded to a
  double. For zone \<open>(34, 51)\<close>: \<open>n = 87710228\<close>, \<open>n ^ (n >>> 8) = 88039502\<close>, and the product
  \<open>58833740782340022\<close> is rounded to \<open>58833740782340024\<close>.
\<close>

lemma default_seed_n:
  "jsAdd (jsAdd (jsMul (Some 34) (Some 1619)) (jsMul (Some 51) (Some 31337)))
     (jsMul (Some 12345) (Some 6971)) = Some 87710228"
  by (simp add: jsAdd_def jsMul_def roundToDouble_def)

lemma default_seed_xor:
  "sint (toInt32 (Some 87710228) XOR drop_bit 8 (toInt32 (Some 87710228))) = 88039502"
  by (simp add: toInt32_def)

lemma bitLength_mixed: "bitLength 58833740782340022 = 56"
  by (simp add: bitLength.simps)

lemma default_seed_mixed: "jsMul (Some 88039502) (Some 0x27d4eb2d) = Some 58833740782340024"
  by (simp add: jsMul_def roundToDouble_def bitLength_mixed Let_def)

lemma hashBits_34_51_default: "hashBits 34 51 12345 = 65535"
  unfolding hashBits_def default_seed_n Let_def default_seed_xor default_seed_mixed
  by (simp add: toInt32_def)

text \<open>
  Claim C9: \<open>hashNoise\<close> lies in \<open>[0, 1)\<close>, as its own comment says. The low 16 bits are
  divided by 65535, not 65536, so the function returns exactly 1 whenever they are all
  set: for \<open>zx = 38\<close>, \<open>zy = 17\<close>, \<open>seed = 47\<close> (where no product is rounded), and for zone
  \<open>(34, 51)\<close> under the default seed 12345.
\<close>

theorem hashNoise_returns_one: "hashNoise 38 17 47 = 1 \<and> hashNoise 34 51 12345 = 1"
  by (simp add: hashNoise_def hashBits_38_17_47 hashBits_34_51_default)

text \<open>
  What does hold for all integers \<open>zx\<close>, \<open>zy\<close> and \<open>seed\<close>: the value is a multiple of
  \<open>1 / 65535\<close> in the closed interval from 0 to 1.
\<close>

lemma hashNoise_closed_unit_interval:
  "0 \<le> hashNoise zx zy seed \<and> hashNoise zx zy seed \<le> 1 \<and>
   hashNoise zx zy seed * 65535 = real (unat (hashBits zx zy seed)) \<and>
   unat (hashBits zx zy seed) \<le> 65535"
proof (intro conjI)
  show "0 \<le> hashNoise zx zy seed"
    using hashNoise_range [of zx zy seed] by (rule conjunct1)
  show "hashNoise zx zy seed \<le> 1"
    using hashNoise_range [of zx zy seed] by (rule conjunct2)
  show "hashNoise zx zy seed * 65535 = real (unat (hashBits zx zy seed))"
    by (rule hashNoise_scaled)
  show "unat (hashBits zx zy seed) \<le> 65535"
    by (rule hashBits_le)
qed

subsection \<open>The storm upgrade of rainy zones\<close>

text \<open>
  Claim C8 says that every zone resolving to rain, also through the noise thresholds of
  an unknown terrain, gets the check \<open>hashNoise (zx + 1) zy seed < 0.12\<close>. The branch for a
  terrain without a tendency entry pushes \<open>weatherFromNoise\<close> and continues with the next
  zone, so the check is never made there: the one-tile map of the unlisted terrain
  \<open>CITY\<close> with seed 8 resolves to rain by noise, the check would succeed, and the zone
  stays rain.
\<close>

theorem noise_rain_not_upgraded:
  "TERRAIN_WEATHER_TENDENCY (getZoneDominantTerrain [[''CITY'']] 0 0) = None \<and>
   weatherFromNoise 0 0 8 = Rain \<and>
   hashNoise (0 + 1) 0 8 < 0.12 \<and>
   buildWeatherGrid [[''CITY'']] 8 ! 0 ! 0 = Rain"
proof -
  have t: "TERRAIN_WEATHER_TENDENCY ''CITY'' = None"
    by (simp add: TERRAIN_WEATHER_TENDENCY_def tendencyTable_def)
  have w: "weatherFromNoise 0 0 8 = Rain"
    by (simp add: weatherFromNoise_def hashNoise_def hashBits_0_0_8)
  have h: "hashNoise 1 0 8 < 0.12"
    by (simp add: hashNoise_def hashBits_1_0_8)
  have z: "zoneWeather [[''CITY'']] 8 0 0 = Rain"
    by (simp add: zoneWeather_def dominant_single_tile t w)
  have g: "buildWeatherGrid [[''CITY'']] 8 ! 0 ! 0 = Rain"
    by (simp add: grid_single_tile z)
  have "hashNoise (0 + 1) 0 8 < 0.12"
    using h by simp
  with t w g show ?thesis
    by (simp only: dominant_single_tile simp_thms)
qed

text \<open>
  Claim C8, amended. For every zone of the grid whose dominant terrain has a tendency
  entry and whose tendency (main or alternative weather) resolves to rain, the
  classifier makes the independent check \<open>hashNoise (zx + 1) zy seed < 0.12\<close> and the zone
  is storm exactly when the check succeeds, rain otherwise. A zone whose dominant terrain
  has no tendency entry gets \<open>weatherFromNoise zx zy seed\<close> as it is, without that check.
\<close>

theorem rain_upgrade_on_tendency_path:
  assumes "j < length (buildWeatherGrid mapData seed)"
    and "i < length (buildWeatherGrid mapData seed ! j)"
  shows "(\<forall>t. TERRAIN_WEATHER_TENDENCY (getZoneDominantTerrain mapData i j) = Some t \<and>
              tendencyWeather t (hashNoise (int i) (int j) seed) = Rain \<longrightarrow>
              (buildWeatherGrid mapData seed ! j ! i = Storm
                 \<longleftrightarrow> hashNoise (int i + 1) (int j) seed < 0.12) \<and>
              (buildWeatherGrid mapData seed ! j ! i = Rain
                 \<longleftrightarrow> \<not> hashNoise (int i + 1) (int j) seed < 0.12)) \<and>
         (TERRAIN_WEATHER_TENDENCY (getZoneDominantTerrain mapData i j) = None \<longrightarrow>
              buildWeatherGrid mapData seed ! j ! i = weatherFromNoise (int i) (int j) seed)"
  unfolding buildWeatherGrid_cell [OF assms]
  by (simp add: zoneWeather_def Let_def)

theorem rain_upgrade_on_tendency_path_witness:
  "TERRAIN_WEATHER_TENDENCY (getZoneDominantTerrain [[''SWAMP'']] 0 0)
     = Some \<lparr>main = Rain, alt = Some Storm, weight = Some 0.2\<rparr> \<and>
   tendencyWeather \<lparr>main = Rain, alt = Some Storm, weight = Some 0.2\<rparr> (hashNoise 0 0 8) = Rain \<and>
   hashNoise (0 + 1) 0 8 < 0.12 \<and>
   buildWeatherGrid [[''SWAMP'']] 8 ! 0 ! 0 = Storm"
proof -
  let ?t = "\<lparr>main = Rain, alt = Some Storm, weight = Some 0.2\<rparr>"
  have l: "0 < length (buildWeatherGrid [[''SWAMP'']] 8)"
    "0 < length (buildWeatherGrid [[''SWAMP'']] 8 ! 0)"
    by (simp_all add: grid_single_tile)
  have t: "TERRAIN_WEATHER_TENDENCY (getZoneDominantTerrain [[''SWAMP'']] 0 0) = Some ?t"
    by (simp add: dominant_single_tile TERRAIN_WEATHER_TENDENCY_def tendencyTable_def)
  have w: "tendencyWeather ?t (hashNoise (int 0) (int 0) 8) = Rain"
    by (simp add: tendencyWeather_def hashNoise_def hashBits_0_0_8)
  have h: "hashNoise (int 0 + 1) (int 0) 8 < 0.12"
    by (simp add: hashNoise_def hashBits_1_0_8)
  from rain_upgrade_on_tendency_path [OF l] t w h
  have "buildWeatherGrid [[''SWAMP'']] 8 ! 0 ! 0 = Storm"
    by blast
  with t w h show ?thesis
    by simp
qed

subsection \<open>The aligned viewport\<close>

lemma worldToZone_origin: "worldToZone 0 0 = \<lparr>zone_zx = 0, zone_zy = 0\<rparr>"
  by (simp add: worldToZone_def ZONE_SIZE_def TILE_SIZE_def)

lemma worldToZone_512: "worldToZone 512 512 = \<lparr>zone_zx = 1, zone_zy = 1\<rparr>"
  by (simp add: worldToZone_def ZONE_SIZE_def TILE_SIZE_def)

lemma worldToZone_511: "worldToZone 511 511 = \<lparr>zone_zx = 0, zone_zy = 0\<rparr>"
proof -
  have "\<lfloor>(511::real) / 64\<rfloor> = 7"
    by (rule floor_unique) simp_all
  then show ?thesis
    by (simp add: worldToZone_def ZONE_SIZE_def TILE_SIZE_def)
qed

lemma upto_0_1: "[0..1::int] = [0, 1]"
  by (simp add: upto.simps)

lemma upto_0_0: "[0..0::int] = [0]"
  by (simp add: upto.simps)

lemma visible_512:
  "getVisibleZones 0 0 512 512 4 4 =
     [\<lparr>zone_zx = 0, zone_zy = 0, zone_x = 0, zone_y = 0, zone_width = 512, zone_height = 512\<rparr>,
      \<lparr>zone_zx = 1, zone_zy = 0, zone_x = 512, zone_y = 0, zone_width = 512, zone_height = 512\<rparr>,
      \<lparr>zone_zx = 0, zone_zy = 1, zone_x = 0, zone_y = 512, zone_width = 512, zone_height = 512\<rparr>,
      \<lparr>zone_zx = 1, zone_zy = 1, zone_x = 512, zone_y = 512, zone_width = 512, zone_height = 512\<rparr>]"
  by (simp add: getVisibleZones_def worldToZone_origin worldToZone_512 upto_0_1
      ZONE_SIZE_def TILE_SIZE_def)

lemma visible_511:
  "getVisibleZones 0 0 511 511 4 4 =
     [\<lparr>zone_zx = 0, zone_zy = 0, zone_x = 0, zone_y = 0, zone_width = 512, zone_height = 512\<rparr>]"
  by (simp add: getVisibleZones_def worldToZone_origin worldToZone_511 upto_0_0
      ZONE_SIZE_def TILE_SIZE_def)

text \<open>
  Claim C4 says that the viewport at corner \<open>(0, 0)\<close> of size \<open>512 \<times> 512\<close> on a grid of
  \<open>4 \<times> 4\<close> zones sees the single zone \<open>(0, 0)\<close>. The far corner \<open>(512, 512)\<close> already lies
  in zone \<open>(1, 1)\<close> and the index range is inclusive, so four zones are returned.
\<close>

theorem aligned_viewport_not_single_zone:
  "getVisibleZones 0 0 512 512 4 4 \<noteq>
     [\<lparr>zone_zx = 0, zone_zy = 0, zone_x = 0, zone_y = 0, zone_width = 512, zone_height = 512\<rparr>] \<and>
   length (getVisibleZones 0 0 512 512 4 4) = 4"
  by (simp add: visible_512)

text \<open>
  Claim C4, amended. With corner \<open>(0, 0)\<close>, size \<open>512 \<times> 512\<close> and \<open>4 \<times> 4\<close> zones,
  \<open>getVisibleZones\<close> returns exactly the four zones \<open>(0, 0)\<close>, \<open>(1, 0)\<close>, \<open>(0, 1)\<close>, \<open>(1, 1)\<close>,
  row by row; it returns exactly the single zone \<open>(0, 0)\<close> when the viewport ends before
  the zone boundary, as with size \<open>511 \<times> 511\<close>.
\<close>

theorem aligned_viewport_four_zones:
  "getVisibleZones 0 0 512 512 4 4 =
     [\<lparr>zone_zx = 0, zone_zy = 0, zone_x = 0, zone_y = 0, zone_width = 512, zone_height = 512\<rparr>,
      \<lparr>zone_zx = 1, zone_zy = 0, zone_x = 512, zone_y = 0, zone_width = 512, zone_height = 512\<rparr>,
      \<lparr>zone_zx = 0, zone_zy = 1, zone_x = 0, zone_y = 512, zone_width = 512, zone_height = 512\<rparr>,
      \<lparr>zone_zx = 1, zone_zy = 1, zone_x = 512, zone_y = 512, zone_width = 512, zone_height = 512\<rparr>] \<and>
   getVisibleZones 0 0 511 511 4 4 =
     [\<lparr>zone_zx = 0, zone_zy = 0, zone_x = 0, zone_y = 0, zone_width = 512, zone_height = 512\<rparr>]"
  by (simp only: visible_512 visible_511 simp_thms)

section \<open>Properties of the weather layer\<close>

subsection \<open>Reconciling a pool\<close>

lemma spawnParticles_append:
  "\<exists>new. fst (spawnParticles n mk st) = fst st @ new \<and> length new = n"
proof (induction n arbitrary: st)
  case 0
  show ?case by simp
next
  case (Suc n)
  obtain p h' where mk: "mk (snd st) = (p, h')"
    by (cases "mk (snd st)")
  from Suc.IH [of "(fst st @ [p], h')"] obtain new where
    "fst (spawnParticles n mk (fst st @ [p], h')) = (fst st @ [p]) @ new" "length new = n"
    by auto
  then have "fst (spawnParticles (Suc n) mk st) = fst st @ (p # new) \<and> length (p # new) = Suc n"
    by (simp add: mk)
  then show ?case
    by blast
qed

lemma length_spawnParticles: "length (fst (spawnParticles n mk st)) = length (fst st) + n"
  using spawnParticles_append [of n mk st] by auto

lemma destroyAll_destroyed: "destroyed (destroyAll c gs h) = destroyed h \<union> set gs"
  unfolding destroyAll_def
  by (induction gs arbitrary: h) (auto simp: destroyNode_def removeChild_def)

lemma destroyAll_parentOf:
  "parentOf (destroyAll c gs h) g = (if g \<in> set gs then None else parentOf h g)"
  unfolding destroyAll_def
  by (induction gs arbitrary: h) (auto simp: destroyNode_def removeChild_def)

lemma ensureParticles_no_container: "ensureParticles d mk gid None zones m st = st"
  by (simp add: ensureParticles_def)

lemma ensureParticles_empty:
  "ensureParticles d mk gid (Some c) [] m st = ([], destroyAll c (map gid (fst st)) (snd st))"
  by (cases st) (auto simp: ensureParticles_def Let_def destroyAll_def)

lemma ensureParticles_nonempty:
  assumes "zones \<noteq> []"
  shows "ensureParticles d mk gid (Some c) zones m st =
           spawnParticles (nat (min m (int (length zones) * int d) - int (length (fst st))))
             (mk c zones) st"
  using assms by (simp add: ensureParticles_def Let_def)

lemma ensureParticles_keep:
  assumes "zones \<noteq> []" and "min m (int (length zones) * int d) \<le> int (length (fst st))"
  shows "ensureParticles d mk gid cont zones m st = st"
proof (cases cont)
  case None
  then show ?thesis by (simp add: ensureParticles_no_container)
next
  case (Some c)
  from assms(2) have "nat (min m (int (length zones) * int d) - int (length (fst st))) = 0"
    by simp
  with assms(1) Some show ?thesis
    by (simp add: ensureParticles_nonempty)
qed

lemma ensureParticles_length:
  "int (length (fst (ensureParticles d mk gid (Some c) zones m st))) =
     (if zones = [] then 0
      else max (int (length (fst st))) (min m (int (length zones) * int d)))"
proof (cases "zones = []")
  case True
  then show ?thesis by (simp add: ensureParticles_empty)
next
  case False
  define t where "t = min m (int (length zones) * int d)"
  define n where "n = length (fst st)"
  have "int (n + nat (t - int n)) = max (int n) t"
    by simp
  with False show ?thesis
    unfolding t_def n_def by (simp add: ensureParticles_nonempty length_spawnParticles)
qed

lemma ensureParticles_prefix:
  "fst (ensureParticles d mk gid cont zones m st) = [] \<or>
   (\<exists>new. fst (ensureParticles d mk gid cont zones m st) = fst st @ new)"
proof (cases cont)
  case None
  then show ?thesis by (simp add: ensureParticles_no_container)
next
  case (Some c)
  show ?thesis
  proof (cases "zones = []")
    case True
    with Some show ?thesis by (simp add: ensureParticles_empty)
  next
    case False
    obtain new where
      "fst (spawnParticles (nat (min m (int (length zones) * int d) - int (length (fst st))))
              (mk c zones) st) = fst st @ new"
      using spawnParticles_append by blast
    with False Some show ?thesis
      by (simp add: ensureParticles_nonempty)
  qed
qed

lemma rainPool_ensure:
  "rainPool (ensureRainParticles e Z m s) =
     fst (ensureParticles 35 (newRainParticle (texRain e)) (\<lambda>p. objId (rain_g p))
            (rainContainer s) Z m (rainPool s, host s))"
  by (simp add: ensureRainParticles_def split: prod.split)

lemma host_ensureRain:
  "host (ensureRainParticles e Z m s) =
     snd (ensureParticles 35 (newRainParticle (texRain e)) (\<lambda>p. objId (rain_g p))
            (rainContainer s) Z m (rainPool s, host s))"
  by (simp add: ensureRainParticles_def split: prod.split)

lemma windPool_ensure:
  "windPool (ensureWindParticles e Z m s) =
     fst (ensureParticles 12 (newWindParticle (texWind e)) (\<lambda>p. objId (wind_g p))
            (container s) Z m (windPool s, host s))"
  by (simp add: ensureWindParticles_def split: prod.split)

lemma host_ensureWind:
  "host (ensureWindParticles e Z m s) =
     snd (ensureParticles 12 (newWindParticle (texWind e)) (\<lambda>p. objId (wind_g p))
            (container s) Z m (windPool s, host s))"
  by (simp add: ensureWindParticles_def split: prod.split)

lemma snowPool_ensure:
  "snowPool (ensureSnowParticles e Z m s) =
     fst (ensureParticles 20 (newSnowParticle (texSnow e)) (\<lambda>p. objId (snow_g p))
            (container s) Z m (snowPool s, host s))"
  by (simp add: ensureSnowParticles_def split: prod.split)

lemma host_ensureSnow:
  "host (ensureSnowParticles e Z m s) =
     snd (ensureParticles 20 (newSnowParticle (texSnow e)) (\<lambda>p. objId (snow_g p))
            (container s) Z m (snowPool s, host s))"
  by (simp add: ensureSnowParticles_def split: prod.split)

lemma ensureRain_keep:
  assumes "Z \<noteq> []" and "min m (int (length Z) * 35) \<le> int (length (rainPool s))"
  shows "ensureRainParticles e Z m s = s"
proof -
  have "ensureParticles 35 (newRainParticle (texRain e)) (\<lambda>p. objId (rain_g p))
          (rainContainer s) Z m (rainPool s, host s) = (rainPool s, host s)"
    using assms by (intro ensureParticles_keep) simp_all
  then show ?thesis
    by (simp add: ensureRainParticles_def)
qed

lemma ensureWind_keep:
  assumes "Z \<noteq> []" and "min m (int (length Z) * 12) \<le> int (length (windPool s))"
  shows "ensureWindParticles e Z m s = s"
proof -
  have "ensureParticles 12 (newWindParticle (texWind e)) (\<lambda>p. objId (wind_g p))
          (container s) Z m (windPool s, host s) = (windPool s, host s)"
    using assms by (intro ensureParticles_keep) simp_all
  then show ?thesis
    by (simp add: ensureWindParticles_def)
qed

lemma ensureSnow_keep:
  assumes "Z \<noteq> []" and "min m (int (length Z) * 20) \<le> int (length (snowPool s))"
  shows "ensureSnowParticles e Z m s = s"
proof -
  have "ensureParticles 20 (newSnowParticle (texSnow e)) (\<lambda>p. objId (snow_g p))
          (container s) Z m (snowPool s, host s) = (snowPool s, host s)"
    using assms by (intro ensureParticles_keep) simp_all
  then show ?thesis
    by (simp add: ensureSnowParticles_def)
qed

text \<open>
  Claim C7. For each particle kind, a reconcile call with a non-empty visible-zone list
  whose target count \<open>min maxCount (|Z| * density)\<close> is at most the current pool size
  leaves the whole component state as it is: no particle is created or destroyed, no
  display object touched, no random number drawn. The pool does not shrink while its zone
  list stays non-empty.
\<close>

theorem reconcile_keeps_saturated_pool:
  assumes "Z \<noteq> []"
  shows "(min m (int (length Z) * 35) \<le> int (length (rainPool s))
            \<longrightarrow> ensureRainParticles e Z m s = s) \<and>
         (min m (int (length Z) * 12) \<le> int (length (windPool s))
            \<longrightarrow> ensureWindParticles e Z m s = s) \<and>
         (min m (int (length Z) * 20) \<le> int (length (snowPool s))
            \<longrightarrow> ensureSnowParticles e Z m s = s)"
  using assms by (simp add: ensureRain_keep ensureWind_keep ensureSnow_keep)

lemma ensureRain_length:
  assumes "rainContainer s \<noteq> None"
  shows "int (length (rainPool (ensureRainParticles e Z m s))) =
           (if Z = [] then 0 else max (int (length (rainPool s))) (min m (int (length Z) * 35)))"
proof -
  from assms obtain c where "rainContainer s = Some c"
    by blast
  then show ?thesis
    using ensureParticles_length [of 35 _ _ c Z m "(rainPool s, host s)"]
    by (simp add: rainPool_ensure)
qed

lemma ensureWind_length:
  assumes "container s \<noteq> None"
  shows "int (length (windPool (ensureWindParticles e Z m s))) =
           (if Z = [] then 0 else max (int (length (windPool s))) (min m (int (length Z) * 12)))"
proof -
  from assms obtain c where "container s = Some c"
    by blast
  then show ?thesis
    using ensureParticles_length [of 12 _ _ c Z m "(windPool s, host s)"]
    by (simp add: windPool_ensure)
qed

lemma ensureSnow_length:
  assumes "container s \<noteq> None"
  shows "int (length (snowPool (ensureSnowParticles e Z m s))) =
           (if Z = [] then 0 else max (int (length (snowPool s))) (min m (int (length Z) * 20)))"
proof -
  from assms obtain c where "container s = Some c"
    by blast
  then show ?thesis
    using ensureParticles_length [of 20 _ _ c Z m "(snowPool s, host s)"]
    by (simp add: snowPool_ensure)
qed

lemma ensureRain_clear:
  assumes "rainContainer s \<noteq> None"
  shows "rainPool (ensureRainParticles e [] m s) = [] \<and>
         (\<forall>p \<in> set (rainPool s).
            objId (rain_g p) \<in> destroyed (host (ensureRainParticles e [] m s)) \<and>
            parentOf (host (ensureRainParticles e [] m s)) (objId (rain_g p)) = None)"
proof -
  from assms obtain c where "rainContainer s = Some c"
    by blast
  then show ?thesis
    by (simp add: rainPool_ensure host_ensureRain ensureParticles_empty
        destroyAll_destroyed destroyAll_parentOf)
qed

lemma ensureWind_clear:
  assumes "container s \<noteq> None"
  shows "windPool (ensureWindParticles e [] m s) = [] \<and>
         (\<forall>p \<in> set (windPool s).
            objId (wind_g p) \<in> destroyed (host (ensureWindParticles e [] m s)) \<and>
            parentOf (host (ensureWindParticles e [] m s)) (objId (wind_g p)) = None)"
proof -
  from assms obtain c where "container s = Some c"
    by blast
  then show ?thesis
    by (simp add: windPool_ensure host_ensureWind ensureParticles_empty
        destroyAll_destroyed destroyAll_parentOf)
qed

lemma ensureSnow_clear:
  assumes "container s \<noteq> None"
  shows "snowPool (ensureSnowParticles e [] m s) = [] \<and>
         (\<forall>p \<in> set (snowPool s).
            objId (snow_g p) \<in> destroyed (host (ensureSnowParticles e [] m s)) \<and>
            parentOf (host (ensureSnowParticles e [] m s)) (objId (snow_g p)) = None)"
proof -
  from assms obtain c where "container s = Some c"
    by blast
  then show ?thesis
    by (simp add: snowPool_ensure host_ensureSnow ensureParticles_empty
        destroyAll_destroyed destroyAll_parentOf)
qed

lemma ensureRain_frame:
  "container (ensureRainParticles e Z m s) = container s"
  "rainContainer (ensureRainParticles e Z m s) = rainContainer s"
  "windPool (ensureRainParticles e Z m s) = windPool s"
  "snowPool (ensureRainParticles e Z m s) = snowPool s"
  by (simp_all add: ensureRainParticles_def split: prod.split)

lemma ensureWind_frame:
  "container (ensureWindParticles e Z m s) = container s"
  "rainContainer (ensureWindParticles e Z m s) = rainContainer s"
  "rainPool (ensureWindParticles e Z m s) = rainPool s"
  "snowPool (ensureWindParticles e Z m s) = snowPool s"
  by (simp_all add: ensureWindParticles_def split: prod.split)

lemma ensureSnow_frame:
  "container (ensureSnowParticles e Z m s) = container s"
  "rainContainer (ensureSnowParticles e Z m s) = rainContainer s"
  "rainPool (ensureSnowParticles e Z m s) = rainPool s"
  "windPool (ensureSnowParticles e Z m s) = windPool s"
  by (simp_all add: ensureSnowParticles_def split: prod.split)

lemma mountedLayer_fields:
  "container mountedLayer = Some 0" "rainContainer mountedLayer = Some 1"
  "rainPool mountedLayer = []" "windPool mountedLayer = []" "snowPool mountedLayer = []"
  by (simp_all add: mountedLayer_def)

lemma fullLayer_fields:
  "container fullLayer = Some 0" "rainContainer fullLayer = Some 1"
  "int (length (rainPool fullLayer)) = 35"
  "int (length (windPool fullLayer)) = 12"
  "int (length (snowPool fullLayer)) = 20"
  unfolding fullLayer_def
  by (simp_all add: ensureRain_frame ensureWind_frame ensureSnow_frame mountedLayer_fields
      ensureRain_length ensureWind_length ensureSnow_length)

theorem reconcile_keeps_saturated_pool_witness:
  "ensureRainParticles highEnv [zone00] 320 fullLayer = fullLayer \<and>
   ensureWindParticles highEnv [zone00] 320 fullLayer = fullLayer \<and>
   ensureSnowParticles highEnv [zone00] 320 fullLayer = fullLayer"
  using reconcile_keeps_saturated_pool [of "[zone00]" 320 fullLayer highEnv]
  by (simp add: fullLayer_fields)

text \<open>
  Claim C6. For each particle kind whose container exists (the call returns at once
  otherwise, and pools are only ever filled while it exists), a reconcile call with an
  empty visible-zone list leaves the pool empty, and every display object that was in the
  pool has been removed from its container and destroyed.
\<close>

theorem reconcile_empty_zone_list_clears_pool:
  "(rainContainer s \<noteq> None \<longrightarrow>
      rainPool (ensureRainParticles e [] m s) = [] \<and>
      (\<forall>p \<in> set (rainPool s).
         objId (rain_g p) \<in> destroyed (host (ensureRainParticles e [] m s)) \<and>
         parentOf (host (ensureRainParticles e [] m s)) (objId (rain_g p)) = None)) \<and>
   (container s \<noteq> None \<longrightarrow>
      windPool (ensureWindParticles e [] m s) = [] \<and>
      (\<forall>p \<in> set (windPool s).
         objId (wind_g p) \<in> destroyed (host (ensureWindParticles e [] m s)) \<and>
         parentOf (host (ensureWindParticles e [] m s)) (objId (wind_g p)) = None)) \<and>
   (container s \<noteq> None \<longrightarrow>
      snowPool (ensureSnowParticles e [] m s) = [] \<and>
      (\<forall>p \<in> set (snowPool s).
         objId (snow_g p) \<in> destroyed (host (ensureSnowParticles e [] m s)) \<and>
         parentOf (host (ensureSnowParticles e [] m s)) (objId (snow_g p)) = None))"
  using ensureRain_clear [of s e m] ensureWind_clear [of s e m] ensureSnow_clear [of s e m]
  by blast

theorem reconcile_empty_zone_list_clears_pool_witness:
  "rainPool fullLayer \<noteq> [] \<and> windPool fullLayer \<noteq> [] \<and> snowPool fullLayer \<noteq> [] \<and>
   rainPool (ensureRainParticles highEnv [] 320 fullLayer) = [] \<and>
   windPool (ensureWindParticles highEnv [] 90 fullLayer) = [] \<and>
   snowPool (ensureSnowParticles highEnv [] 110 fullLayer) = []"
proof -
  have c: "rainContainer fullLayer \<noteq> None" "container fullLayer \<noteq> None"
    by (simp_all add: fullLayer_fields)
  have n: "rainPool fullLayer \<noteq> []" "windPool fullLayer \<noteq> []" "snowPool fullLayer \<noteq> []"
    using fullLayer_fields(3-5) by auto
  from reconcile_empty_zone_list_clears_pool [of fullLayer highEnv 320] c
  have "rainPool (ensureRainParticles highEnv [] 320 fullLayer) = []"
    by blast
  moreover from reconcile_empty_zone_list_clears_pool [of fullLayer highEnv 90] c
  have "windPool (ensureWindParticles highEnv [] 90 fullLayer) = []"
    by blast
  moreover from reconcile_empty_zone_list_clears_pool [of fullLayer highEnv 110] c
  have "snowPool (ensureSnowParticles highEnv [] 110 fullLayer) = []"
    by blast
  ultimately show ?thesis
    using n by simp
qed

lemma fst_forEachWithHost_Cons:
  "fst (forEachWithHost f (p # ps) h) =
     fst (f p h) # fst (forEachWithHost f ps (snd (f p h)))"
  by (simp add: case_prod_beta)

lemma length_forEachWithHost: "length (fst (forEachWithHost f ps h)) = length ps"
  by (induction ps arbitrary: h) (simp_all add: fst_forEachWithHost_Cons del: forEachWithHost.simps(2))

lemma rainPool_integrate:
  "rainPool (integrateRain dt s) = fst (forEachWithHost (stepRain dt) (rainPool s) (host s))"
  by (simp add: integrateRain_def case_prod_beta)

lemma snowPool_integrate:
  "snowPool (integrateSnow dt s) = fst (forEachWithHost (stepSnow dt) (snowPool s) (host s))"
  by (simp add: integrateSnow_def case_prod_beta)

lemma integrate_length:
  "length (rainPool (integrateRain dt s)) = length (rainPool s)"
  "length (windPool (integrateWind dt s)) = length (windPool s)"
  "length (snowPool (integrateSnow dt s)) = length (snowPool s)"
  by (simp_all add: rainPool_integrate snowPool_integrate length_forEachWithHost
      integrateWind_def)

text \<open>
  Claim C2 says that after every reconcile call the pool holds at most
  \<open>min maxCount (|Z| * density)\<close> particles. The pool never shrinks while its zone list
  stays non-empty: with the wind maximum 35 of the preset \<open>low\<close>, two visible wind zones
  fill the pool to 24; when one of them leaves the view the target is 12 and the pool
  still holds 24.
\<close>

theorem pool_exceeds_target_after_zones_shrink:
  "\<not> int (length (windPool (ensureWindParticles highEnv [zone00] 35
            (ensureWindParticles highEnv [zone00, zone10] 35 mountedLayer))))
       \<le> min 35 (int (length [zone00]) * 12)"
  by (simp add: ensureWind_length ensureWind_frame mountedLayer_fields)

text \<open>
  Claim C2, amended. For each particle kind whose container exists, the pool holds after
  a reconcile call with zone list \<open>Z\<close> and maximum \<open>maxCount\<close> no particle when \<open>Z\<close> is empty,
  and otherwise the larger of its previous size and \<open>min maxCount (|Z| * density)\<close>
  (densities 35, 12 and 20): it is within the target whenever it was before the call.
  The per-frame integration never changes the size of a pool.
\<close>

theorem reconcile_pool_size:
  "(rainContainer s \<noteq> None \<longrightarrow>
      int (length (rainPool (ensureRainParticles e Z m s))) =
        (if Z = [] then 0 else max (int (length (rainPool s))) (min m (int (length Z) * 35)))) \<and>
   (container s \<noteq> None \<longrightarrow>
      int (length (windPool (ensureWindParticles e Z m s))) =
        (if Z = [] then 0 else max (int (length (windPool s))) (min m (int (length Z) * 12)))) \<and>
   (container s \<noteq> None \<longrightarrow>
      int (length (snowPool (ensureSnowParticles e Z m s))) =
        (if Z = [] then 0 else max (int (length (snowPool s))) (min m (int (length Z) * 20)))) \<and>
   length (rainPool (integrateRain dt s)) = length (rainPool s) \<and>
   length (windPool (integrateWind dt s)) = length (windPool s) \<and>
   length (snowPool (integrateSnow dt s)) = length (snowPool s)"
  using ensureRain_length [of s e Z m] ensureWind_length [of s e Z m]
    ensureSnow_length [of s e Z m] integrate_length [of dt s]
  by blast

theorem reconcile_pool_size_witness:
  "int (length (rainPool (ensureRainParticles highEnv [zone00, zone10] 320 mountedLayer))) = 70 \<and>
   int (length (windPool (ensureWindParticles highEnv [zone00, zone10] 320 mountedLayer))) = 24 \<and>
   int (length (snowPool (ensureSnowParticles highEnv [zone00, zone10] 320 mountedLayer))) = 40"
  using reconcile_pool_size [of mountedLayer highEnv "[zone00, zone10]" 320 1]
  by (simp add: mountedLayer_fields)

subsection \<open>Home zones and recycling\<close>

lemma stormyLayer_fields:
  "rainPool stormyLayer = [fallingDrop]" "windPool stormyLayer = []" "snowPool stormyLayer = []"
  "stormOverlay stormyLayer = Some 3" "lightningGraphics stormyLayer = Some 2"
  "destroyed (host stormyLayer) = {}" "rainContainer stormyLayer = Some 1"
  "container stormyLayer = Some 0" "weatherGrid stormyLayer = [[Storm]]"
  "parentOf (host stormyLayer) 2 = Some 0" "parentOf (host stormyLayer) 3 = Some 0"
  by (simp_all add: stormyLayer_def struckLayer_def mountedLayer_def idleHost_def)

lemma map_forEachWithHost:
  assumes "\<And>p h. home (fst (f p h)) = home p"
  shows "map home (fst (forEachWithHost f ps h)) = map home ps"
  by (induction ps arbitrary: h)
    (simp_all add: fst_forEachWithHost_Cons assms del: forEachWithHost.simps(2))

lemma rainHome_stepRain: "rainHome (fst (stepRain dt p h)) = rainHome p"
  by (simp add: stepRain_def rainHome_def Let_def mathRandom_def)

lemma windHome_stepWind: "windHome (stepWind dt p) = windHome p"
  by (simp add: stepWind_def windHome_def Let_def)

lemma snowHome_stepSnow: "snowHome (fst (stepSnow dt p h)) = snowHome p"
  by (simp add: stepSnow_def snowHome_def Let_def mathRandom_def)

lemma integrate_home:
  "map rainHome (rainPool (integrateRain dt s)) = map rainHome (rainPool s)"
  "map windHome (windPool (integrateWind dt s)) = map windHome (windPool s)"
  "map snowHome (snowPool (integrateSnow dt s)) = map snowHome (snowPool s)"
  by (simp_all add: rainPool_integrate snowPool_integrate integrateWind_def
      map_forEachWithHost rainHome_stepRain snowHome_stepSnow windHome_stepWind)

lemma ensure_prefix:
  "rainPool (ensureRainParticles e Z m s) = [] \<or>
     (\<exists>new. rainPool (ensureRainParticles e Z m s) = rainPool s @ new)"
  "windPool (ensureWindParticles e Z m s) = [] \<or>
     (\<exists>new. windPool (ensureWindParticles e Z m s) = windPool s @ new)"
  "snowPool (ensureSnowParticles e Z m s) = [] \<or>
     (\<exists>new. snowPool (ensureSnowParticles e Z m s) = snowPool s @ new)"
proof -
  show "rainPool (ensureRainParticles e Z m s) = [] \<or>
     (\<exists>new. rainPool (ensureRainParticles e Z m s) = rainPool s @ new)"
    unfolding rainPool_ensure
    using ensureParticles_prefix [of 35 _ _ "rainContainer s" Z m "(rainPool s, host s)"]
    by simp
  show "windPool (ensureWindParticles e Z m s) = [] \<or>
     (\<exists>new. windPool (ensureWindParticles e Z m s) = windPool s @ new)"
    unfolding windPool_ensure
    using ensureParticles_prefix [of 12 _ _ "container s" Z m "(windPool s, host s)"]
    by simp
  show "snowPool (ensureSnowParticles e Z m s) = [] \<or>
     (\<exists>new. snowPool (ensureSnowParticles e Z m s) = snowPool s @ new)"
    unfolding snowPool_ensure
    using ensureParticles_prefix [of 20 _ _ "container s" Z m "(snowPool s, host s)"]
    by simp
qed

lemma offset_in_zone:
  assumes "0 \<le> r" and "r < 1" and "0 \<le> w" and "isDouble x0" and "isDouble w"
  shows "x0 \<le> addD x0 (mulD r w) \<and> addD x0 (mulD r w) \<le> addD x0 w"
proof -
  from assms(1,3) have "0 \<le> r * w"
    by simp
  then have "0 \<le> fl (r * w)"
    by (rule fl_nonneg)
  then have lo: "x0 \<le> x0 + mulD r w"
    unfolding mulD_def by simp
  from assms(2,3) have "r * w \<le> 1 * w"
    by (intro mult_right_mono) simp_all
  then have "fl (r * w) \<le> fl w"
    by (intro fl_mono) simp
  with assms(5) have hi: "x0 + mulD r w \<le> x0 + w"
    unfolding mulD_def isDouble_def by simp
  from lo have "fl x0 \<le> fl (x0 + mulD r w)"
    by (rule fl_mono)
  moreover from hi have "fl (x0 + mulD r w) \<le> fl (x0 + w)"
    by (rule fl_mono)
  ultimately show ?thesis
    using assms(4) unfolding addD_def isDouble_def by simp
qed

lemma stepRain_recycle:
  assumes "addD (rain_y p) (mulD (rain_vy p) dt) > addD (addD (rain_zoneY p) (rain_zoneH p)) 20"
  shows "rain_y (fst (stepRain dt p h)) = subD (rain_zoneY p) 10"
    and "rain_x (fst (stepRain dt p h)) =
           addD (rain_zoneX p) (mulD (randoms h (randIx h)) (rain_zoneW p))"
  using assms by (simp_all add: stepRain_def Let_def mathRandom_def)

lemma stepWind_recycle:
  assumes "addD (wind_x p) (mulD (wind_vx p) dt) > addD (addD (wind_zoneX p) (wind_zoneW p)) 20"
  shows "wind_x (stepWind dt p) = subD (wind_zoneX p) 10"
  using assms by (simp add: stepWind_def Let_def)

lemma stepSnow_recycle:
  assumes "addD (snow_y p) (mulD (snow_vy p) dt) > addD (addD (snow_zoneY p) (snow_zoneH p)) 10"
  shows "snow_y (fst (stepSnow dt p h)) = subD (snow_zoneY p) 5"
    and "snow_x (fst (stepSnow dt p h)) =
           addD (snow_zoneX p) (mulD (randoms h (randIx h)) (snow_zoneW p))"
  using assms by (simp_all add: stepSnow_def Let_def mathRandom_def)

lemma fallingDrop_leaves:
  "addD (rain_y fallingDrop) (mulD (rain_vy fallingDrop) 1) >
     addD (addD (rain_zoneY fallingDrop) (rain_zoneH fallingDrop)) 20"
  by (simp add: fallingDrop_def double_simps)

lemma stepRain_fallingDrop:
  "rain_y (fst (stepRain 1 fallingDrop h)) = - 10"
  "rainHome (fst (stepRain 1 fallingDrop h)) = (0, 0, 512, 512)"
  unfolding stepRain_recycle(1) [OF fallingDrop_leaves] rainHome_stepRain
  by (simp_all add: fallingDrop_def rainHome_def double_simps)

text \<open>
  Claim C10 says that a recycled particle is put back inside its home zone. A rain drop
  of zone \<open>(0, 0, 512, 512)\<close> that falls past \<open>y = 532\<close> is put at \<open>y = -10\<close>, ten pixels
  above the top edge of that zone.
\<close>

theorem recycled_rain_is_above_its_zone:
  "rainHome (rainPool (integrateRain 1 stormyLayer) ! 0) = (0, 0, 512, 512) \<and>
   rain_y (rainPool (integrateRain 1 stormyLayer) ! 0) = -10 \<and>
   \<not> (rain_zoneY (rainPool (integrateRain 1 stormyLayer) ! 0)
        \<le> rain_y (rainPool (integrateRain 1 stormyLayer) ! 0))"
proof -
  have p: "rainPool (integrateRain 1 stormyLayer) ! 0 =
             fst (stepRain 1 fallingDrop (host stormyLayer))"
    by (simp add: rainPool_integrate stormyLayer_fields(1) fst_forEachWithHost_Cons
        del: forEachWithHost.simps(2))
  have "rain_zoneY (fst (stepRain 1 fallingDrop (host stormyLayer))) = 0"
    using stepRain_fallingDrop(2) [of "host stormyLayer"] by (simp add: rainHome_def)
  then show ?thesis
    unfolding p stepRain_fallingDrop by simp
qed

lemma sum_rounds_to_right_edge:
  "addD 1024 (mulD (1 - 1 / 2 ^ 52) 512) = 1536"
proof -
  have "roundHalfEven ((512 - 1 / 2 ^ 43) * 2 ^ (52 - 8)) = 9007199254740990"
    by (simp add: roundHalfEven_def Let_def)
  from fl_value_large [OF _ _ _ this] have "fl (512 - 1 / 2 ^ 43) = 512 - 1 / 2 ^ 43"
    by simp
  moreover have "(1 - 1 / 2 ^ 52) * 512 = (512 - 1 / 2 ^ 43 :: real)"
    by simp
  ultimately have m: "mulD (1 - 1 / 2 ^ 52) 512 = 512 - 1 / 2 ^ 43"
    unfolding mulD_def by (simp only:)
  have "roundHalfEven ((1536 - 1 / 2 ^ 43) * 2 ^ (52 - 10)) = 6755399441055744"
    by (simp add: roundHalfEven_def Let_def)
  from fl_value_large [OF _ _ _ this] have "fl (1536 - 1 / 2 ^ 43) = 1536"
    by simp
  moreover have "1024 + (512 - 1 / 2 ^ 43) = (1536 - 1 / 2 ^ 43 :: real)"
    by simp
  ultimately show ?thesis
    unfolding addD_def m by (simp only:)
qed

text \<open>
  The random factor is less than 1, but the rounded sum need not be less than
  \<open>zoneX + zoneW\<close>: with the factor \<open>0.9999999999999998\<close> a drop of the zone that starts
  at \<open>x = 1024\<close> is put on the right edge of its zone.
\<close>

lemma recycled_rain_can_land_on_right_edge:
  "rain_x (fst (stepRain 1 (fallingDrop\<lparr>rain_zoneX := 1024\<rparr>)
                 (idleHost\<lparr>randoms := (\<lambda>_. 1 - 1 / 2 ^ 52)\<rparr>))) = 1536"
proof -
  let ?p = "fallingDrop\<lparr>rain_zoneX := 1024\<rparr>"
  let ?h = "idleHost\<lparr>randoms := (\<lambda>_. 1 - 1 / 2 ^ 52)\<rparr>"
  have "addD (rain_y ?p) (mulD (rain_vy ?p) 1) > addD (addD (rain_zoneY ?p) (rain_zoneH ?p)) 20"
    by (simp add: fallingDrop_def double_simps)
  then have x: "rain_x (fst (stepRain 1 ?p ?h)) =
                  addD (rain_zoneX ?p) (mulD (randoms ?h (randIx ?h)) (rain_zoneW ?p))"
    by (rule stepRain_recycle)
  have f: "rain_zoneX ?p = 1024" "randoms ?h (randIx ?h) = 1 - 1 / 2 ^ 52" "rain_zoneW ?p = 512"
    by (simp_all add: fallingDrop_def)
  show ?thesis
    unfolding x f by (rule sum_rounds_to_right_edge)
qed

text \<open>
  Claim C10, amended. A reconcile call leaves every particle it keeps untouched (the pool
  is cleared or extended at its end), and integration keeps the home-zone fields of every
  particle of every pool: they are those given at creation. Each recycle places the
  particle from its own stored zone, whether or not that zone is still visible, at the
  edge it re-enters through: rain at \<open>y = zoneY - 10\<close>, 10 pixels above the zone's top,
  and \<open>x = zoneX + Math.random() * zoneW\<close>; snow at \<open>y = zoneY - 5\<close> with \<open>x\<close> likewise; wind
  at \<open>x = zoneX - 10\<close>, 10 pixels left of the zone's left edge. These are sums and
  products of doubles, each rounded: \<open>x\<close> lies between the zone's left edge and its right
  edge \<open>zoneX + zoneW\<close>, both included.
\<close>

theorem home_zone_fixed_recycle_at_zone_edge:
  "(rainPool (ensureRainParticles e Z m s) = [] \<or>
      (\<exists>new. rainPool (ensureRainParticles e Z m s) = rainPool s @ new)) \<and>
   (windPool (ensureWindParticles e Z m s) = [] \<or>
      (\<exists>new. windPool (ensureWindParticles e Z m s) = windPool s @ new)) \<and>
   (snowPool (ensureSnowParticles e Z m s) = [] \<or>
      (\<exists>new. snowPool (ensureSnowParticles e Z m s) = snowPool s @ new)) \<and>
   map rainHome (rainPool (integrateRain dt s)) = map rainHome (rainPool s) \<and>
   map windHome (windPool (integrateWind dt s)) = map windHome (windPool s) \<and>
   map snowHome (snowPool (integrateSnow dt s)) = map snowHome (snowPool s) \<and>
   (addD (rain_y p) (mulD (rain_vy p) dt) > addD (addD (rain_zoneY p) (rain_zoneH p)) 20 \<longrightarrow>
      rain_y (fst (stepRain dt p h)) = subD (rain_zoneY p) 10 \<and>
      rain_x (fst (stepRain dt p h)) =
        addD (rain_zoneX p) (mulD (randoms h (randIx h)) (rain_zoneW p)) \<and>
      (unitRandoms h \<and> isDouble (rain_zoneX p) \<and> isDouble (rain_zoneW p) \<and> 0 \<le> rain_zoneW p \<longrightarrow>
         rain_zoneX p \<le> rain_x (fst (stepRain dt p h)) \<and>
         rain_x (fst (stepRain dt p h)) \<le> addD (rain_zoneX p) (rain_zoneW p))) \<and>
   (addD (wind_x q) (mulD (wind_vx q) dt) > addD (addD (wind_zoneX q) (wind_zoneW q)) 20 \<longrightarrow>
      wind_x (stepWind dt q) = subD (wind_zoneX q) 10) \<and>
   (addD (snow_y r) (mulD (snow_vy r) dt) > addD (addD (snow_zoneY r) (snow_zoneH r)) 10 \<longrightarrow>
      snow_y (fst (stepSnow dt r h)) = subD (snow_zoneY r) 5 \<and>
      snow_x (fst (stepSnow dt r h)) =
        addD (snow_zoneX r) (mulD (randoms h (randIx h)) (snow_zoneW r)) \<and>
      (unitRandoms h \<and> isDouble (snow_zoneX r) \<and> isDouble (snow_zoneW r) \<and> 0 \<le> snow_zoneW r \<longrightarrow>
         snow_zoneX r \<le> snow_x (fst (stepSnow dt r h)) \<and>
         snow_x (fst (stepSnow dt r h)) \<le> addD (snow_zoneX r) (snow_zoneW r)))"
proof (intro conjI impI)
  show "rainPool (ensureRainParticles e Z m s) = [] \<or>
      (\<exists>new. rainPool (ensureRainParticles e Z m s) = rainPool s @ new)"
    by (rule ensure_prefix)
  show "windPool (ensureWindParticles e Z m s) = [] \<or>
      (\<exists>new. windPool (ensureWindParticles e Z m s) = windPool s @ new)"
    by (rule ensure_prefix)
  show "snowPool (ensureSnowParticles e Z m s) = [] \<or>
      (\<exists>new. snowPool (ensureSnowParticles e Z m s) = snowPool s @ new)"
    by (rule ensure_prefix)
  show "map rainHome (rainPool (integrateRain dt s)) = map rainHome (rainPool s)"
    by (rule integrate_home)
  show "map windHome (windPool (integrateWind dt s)) = map windHome (windPool s)"
    by (rule integrate_home)
  show "map snowHome (snowPool (integrateSnow dt s)) = map snowHome (snowPool s)"
    by (rule integrate_home)
next
  assume a: "addD (rain_y p) (mulD (rain_vy p) dt) > addD (addD (rain_zoneY p) (rain_zoneH p)) 20"
  show "rain_y (fst (stepRain dt p h)) = subD (rain_zoneY p) 10"
    using a by (rule stepRain_recycle)
  show x: "rain_x (fst (stepRain dt p h)) =
          addD (rain_zoneX p) (mulD (randoms h (randIx h)) (rain_zoneW p))"
    using a by (rule stepRain_recycle)
  assume b: "unitRandoms h \<and> isDouble (rain_zoneX p) \<and> isDouble (rain_zoneW p) \<and> 0 \<le> rain_zoneW p"
  then have "0 \<le> randoms h (randIx h)" "randoms h (randIx h) < 1"
    by (simp_all add: unitRandoms_def)
  from offset_in_zone [OF this, of "rain_zoneW p" "rain_zoneX p"] b
  show "rain_zoneX p \<le> rain_x (fst (stepRain dt p h))"
    and "rain_x (fst (stepRain dt p h)) \<le> addD (rain_zoneX p) (rain_zoneW p)"
    unfolding x by simp_all
next
  assume "addD (wind_x q) (mulD (wind_vx q) dt) > addD (addD (wind_zoneX q) (wind_zoneW q)) 20"
  then show "wind_x (stepWind dt q) = subD (wind_zoneX q) 10"
    by (rule stepWind_recycle)
next
  assume a: "addD (snow_y r) (mulD (snow_vy r) dt) > addD (addD (snow_zoneY r) (snow_zoneH r)) 10"
  show "snow_y (fst (stepSnow dt r h)) = subD (snow_zoneY r) 5"
    using a by (rule stepSnow_recycle)
  show x: "snow_x (fst (stepSnow dt r h)) =
          addD (snow_zoneX r) (mulD (randoms h (randIx h)) (snow_zoneW r))"
    using a by (rule stepSnow_recycle)
  assume b: "unitRandoms h \<and> isDouble (snow_zoneX r) \<and> isDouble (snow_zoneW r) \<and> 0 \<le> snow_zoneW r"
  then have "0 \<le> randoms h (randIx h)" "randoms h (randIx h) < 1"
    by (simp_all add: unitRandoms_def)
  from offset_in_zone [OF this, of "snow_zoneW r" "snow_zoneX r"] b
  show "snow_zoneX r \<le> snow_x (fst (stepSnow dt r h))"
    and "snow_x (fst (stepSnow dt r h)) \<le> addD (snow_zoneX r) (snow_zoneW r)"
    unfolding x by simp_all
qed

theorem home_zone_fixed_recycle_at_zone_edge_witness:
  "map rainHome (rainPool (integrateRain 1 stormyLayer)) = [(0, 0, 512, 512)] \<and>
   rain_y (fst (stepRain 1 fallingDrop idleHost)) = -10 \<and>
   rain_x (fst (stepRain 1 fallingDrop idleHost)) = 256 \<and>
   rain_zoneX fallingDrop \<le> rain_x (fst (stepRain 1 fallingDrop idleHost)) \<and>
   rain_x (fst (stepRain 1 fallingDrop idleHost)) \<le> 512 \<and>
   wind_x (stepWind 1 gust) = -10 \<and>
   snow_y (fst (stepSnow 1 flake idleHost)) = -5 \<and>
   snow_x (fst (stepSnow 1 flake idleHost)) = 256 \<and>
   snow_zoneX flake \<le> snow_x (fst (stepSnow 1 flake idleHost)) \<and>
   snow_x (fst (stepSnow 1 flake idleHost)) \<le> 512"
proof -
  have w: "addD (wind_x gust) (mulD (wind_vx gust) 1) >
             addD (addD (wind_zoneX gust) (wind_zoneW gust)) 20"
    by (simp add: gust_def double_simps)
  have f: "addD (snow_y flake) (mulD (snow_vy flake) 1) >
             addD (addD (snow_zoneY flake) (snow_zoneH flake)) 10"
    by (simp add: flake_def double_simps)
  have u: "unitRandoms idleHost"
    by (simp add: unitRandoms_def idleHost_def isDouble_def fl_half)
  have d: "isDouble (rain_zoneX fallingDrop)" "isDouble (rain_zoneW fallingDrop)"
    "0 \<le> rain_zoneW fallingDrop"
    "isDouble (snow_zoneX flake)" "isDouble (snow_zoneW flake)" "0 \<le> snow_zoneW flake"
    by (simp_all add: fallingDrop_def flake_def isDouble_def double_simps)
  have v: "subD (rain_zoneY fallingDrop) 10 = -10"
    "addD (rain_zoneX fallingDrop) (mulD (randoms idleHost (randIx idleHost)) (rain_zoneW fallingDrop))
       = 256"
    "addD (rain_zoneX fallingDrop) (rain_zoneW fallingDrop) = 512"
    "subD (wind_zoneX gust) 10 = -10"
    "subD (snow_zoneY flake) 5 = -5"
    "addD (snow_zoneX flake) (mulD (randoms idleHost (randIx idleHost)) (snow_zoneW flake)) = 256"
    "addD (snow_zoneX flake) (snow_zoneW flake) = 512"
    "map rainHome (rainPool stormyLayer) = [(0, 0, 512, 512)]"
    by (simp_all add: fallingDrop_def gust_def flake_def idleHost_def stormyLayer_fields
        rainHome_def double_simps)
  from home_zone_fixed_recycle_at_zone_edge
    [of highEnv "[zone00]" 320 stormyLayer 1 fallingDrop idleHost gust flake]
    fallingDrop_leaves w f u d
  show ?thesis
    unfolding v by blast
qed

subsection \<open>The lightning machine\<close>

lemma step_size:
  assumes "1 / 2 ^ 56 \<le> dt"
  shows "3 / 2 ^ 55 \<le> mulD dt 7" and "3 / 2 ^ 57 \<le> mulD dt 2"
proof -
  define e :: real where "e = 1 / 2 ^ 56"
  have e: "3 / 2 ^ 55 = 6 * e" "3 / 2 ^ 57 = 3 * e / 2" "0 < e"
    unfolding e_def by simp_all
  from assms have dt: "e \<le> dt"
    unfolding e_def .
  from tiny_le have t: "2 powi (- 1022) \<le> e"
    unfolding e_def .
  from t dt e(3) have "2 powi (- 1022) \<le> dt * 7"
    by linarith
  from fl_lower [OF this] dt e(3) show "3 / 2 ^ 55 \<le> mulD dt 7"
    unfolding mulD_def e(1) by linarith
  from t dt e(3) have "2 powi (- 1022) \<le> dt * 2"
    by linarith
  from fl_lower [OF this] dt e(3) show "3 / 2 ^ 57 \<le> mulD dt 2"
    unfolding mulD_def e(2) by linarith
qed

lemma sub_lowers:
  assumes "0 < x" and "x \<le> 1 / 2 ^ n" and "3 / 2 ^ (n + 55) \<le> c" and "n \<le> 2"
  shows "subD x c \<le> x - 1 / 2 ^ (n + 55)"
proof (cases "\<bar>x - c\<bar> < 1 / 2 ^ n")
  case True
  from assms(4) have "n \<le> 1021"
    by simp
  from fl_error_below [OF True this] have "fl (x - c) \<le> x - c + 1 / 2 ^ (n + 54)"
    by linarith
  moreover have "(1::real) / 2 ^ (n + 54) = 2 / 2 ^ (n + 55)"
    by (simp add: power_add)
  moreover have "(3::real) / 2 ^ (n + 55) = 2 / 2 ^ (n + 55) + 1 / 2 ^ (n + 55)"
    by (simp add: field_simps)
  ultimately show ?thesis
    using assms(3) unfolding subD_def by linarith
next
  case False
  define w :: real where "w = 1 / 2 ^ n"
  have "(0::real) < 3 / 2 ^ (n + 55)"
    by simp
  from this assms(3) have c: "0 < c"
    by (rule less_le_trans)
  with assms(2) False have v: "x - c \<le> - w"
    unfolding w_def by linarith
  from assms(4) have "(2::real) ^ n \<le> 2 ^ 2"
    by (intro power_increasing) simp_all
  then have "(1::real) / 2 ^ 2 \<le> 1 / 2 ^ n"
    by (intro divide_left_mono) simp_all
  then have w4: "1 / 4 \<le> w"
    unfolding w_def by simp
  have "(2::real) powi (- 1022) \<le> 1 / 2 ^ 56"
    by (rule tiny_le)
  also have "\<dots> \<le> 1 / 4"
    by simp
  finally have "2 powi (- 1022) \<le> w"
    using w4 by linarith
  from fl_upper_neg [OF v this] have "fl (x - c) \<le> - w / 2"
    .
  moreover have "(1::real) / 2 ^ (n + 55) \<le> 1 / 8"
  proof -
    have "(2::real) ^ 3 \<le> 2 ^ (n + 55)"
      by (intro power_increasing) simp_all
    then have "(1::real) / 2 ^ (n + 55) \<le> 1 / 2 ^ 3"
      by (intro divide_left_mono) simp_all
    then show ?thesis
      by simp
  qed
  ultimately show ?thesis
    using assms(1) w4 unfolding subD_def by linarith
qed

lemma sub_lowers_unit:
  assumes "0 < x" and "x \<le> 1" and "3 / 2 ^ 55 \<le> c"
  shows "subD x c \<le> x - 1 / 2 ^ 55"
  using sub_lowers [of x 0 c] assms by simp

lemma sub_lowers_quarter:
  assumes "0 < x" and "x \<le> 1 / 4" and "3 / 2 ^ 57 \<le> c"
  shows "subD x c \<le> x - 1 / 2 ^ 57"
  using sub_lowers [of x 2 c] assms by simp

lemma decay_run_bounded:
  fixes F :: "'s \<Rightarrow> 's" and P Q :: "real \<Rightarrow> 's \<Rightarrow> bool" and nxt :: "real \<Rightarrow> real"
    and d lo :: real
  assumes d: "0 < d"
    and step: "\<And>x s. lo < x \<Longrightarrow> P x s \<Longrightarrow>
                 nxt x \<le> x - d \<and> (if nxt x \<le> lo then Q (nxt x) (F s) else P (nxt x) (F s))"
  shows "lo < x0 \<Longrightarrow> P x0 s0 \<Longrightarrow> x0 - lo \<le> real N * d \<Longrightarrow>
         \<exists>k>0. (\<forall>n<k. \<exists>x>lo. P x ((F ^^ n) s0)) \<and> (\<exists>y\<le>lo. Q y ((F ^^ k) s0))"
proof (induction N arbitrary: x0 s0)
  case 0
  then show ?case
    by simp
next
  case (Suc N)
  from step [OF Suc.prems(1,2)] have le: "nxt x0 \<le> x0 - d"
    and br: "if nxt x0 \<le> lo then Q (nxt x0) (F s0) else P (nxt x0) (F s0)"
    by simp_all
  show ?case
  proof (cases "nxt x0 \<le> lo")
    case True
    with br have "Q (nxt x0) ((F ^^ Suc 0) s0)"
      by simp
    with True have "\<exists>y\<le>lo. Q y ((F ^^ Suc 0) s0)"
      by blast
    moreover have "\<forall>n<Suc 0. \<exists>x>lo. P x ((F ^^ n) s0)"
      using Suc.prems(1,2) by auto
    ultimately show ?thesis
      by blast
  next
    case False
    with br have p: "P (nxt x0) (F s0)" and lo: "lo < nxt x0"
      by simp_all
    have "real (Suc N) * d = real N * d + d"
      by (simp add: algebra_simps)
    with le Suc.prems(3) have "nxt x0 - lo \<le> real N * d"
      by simp
    from Suc.IH [OF lo p this] obtain k where k: "0 < k"
      and inv: "\<And>n. n < k \<Longrightarrow> \<exists>x>lo. P x ((F ^^ n) (F s0))"
      and fin: "\<exists>y\<le>lo. Q y ((F ^^ k) (F s0))"
      by blast
    have "\<exists>x>lo. P x ((F ^^ n) s0)" if "n < Suc k" for n
    proof (cases n)
      case 0
      with Suc.prems(1,2) show ?thesis
        by auto
    next
      case (Suc m)
      with that have "m < k"
        by simp
      from inv [OF this] show ?thesis
        unfolding Suc by (simp add: funpow_swap1)
    qed
    moreover from fin have "\<exists>y\<le>lo. Q y ((F ^^ Suc k) s0)"
      by (simp add: funpow_swap1)
    ultimately show ?thesis
      by blast
  qed
qed

lemma decay_run:
  fixes F :: "'s \<Rightarrow> 's" and P Q :: "real \<Rightarrow> 's \<Rightarrow> bool" and nxt :: "real \<Rightarrow> real"
    and d lo :: real
  assumes d: "0 < d" and x0: "lo < x0" and init: "P x0 s0"
    and step: "\<And>x s. lo < x \<Longrightarrow> P x s \<Longrightarrow>
                 nxt x \<le> x - d \<and> (if nxt x \<le> lo then Q (nxt x) (F s) else P (nxt x) (F s))"
  shows "\<exists>k>0. (\<forall>n<k. \<exists>x>lo. P x ((F ^^ n) s0)) \<and> (\<exists>y\<le>lo. Q y ((F ^^ k) s0))"
proof -
  obtain N :: nat where "(x0 - lo) / d < real N"
    using reals_Archimedean2 by blast
  with d have "x0 - lo \<le> real N * d"
    by (simp add: pos_divide_less_eq)
  from decay_run_bounded [where F = F and P = P and Q = Q and nxt = nxt and d = d and lo = lo,
      OF d step x0 init this]
  show ?thesis .
qed

lemma flash_literals:
  "fl 0.92 = 8286623314361713 / 9007199254740992"
  "fl 0.65 = 5854679515581645 / 9007199254740992"
  "fl 0.15 = 5404319552844595 / 36028797018963968"
proof -
  have "fl 0.92 = fl (92 / 100)"
    by simp
  then show "fl 0.92 = 8286623314361713 / 9007199254740992"
    unfolding alpha092 .
  have "fl 0.65 = fl (65 / 100)"
    by simp
  then show "fl 0.65 = 5854679515581645 / 9007199254740992"
    unfolding alpha065 .
  have "fl 0.15 = fl (15 / 100)"
    by simp
  then show "fl 0.15 = 5404319552844595 / 36028797018963968"
    unfolding alpha015 .
qed

lemma flash_bounds:
  "0.25 < fl 0.92" "fl 0.92 \<le> 1" "0 < fl 0.15" "fl 0.15 < 0.25" "0 < fl 0.65" "fl 0.65 \<le> 1"
  unfolding flash_literals by simp_all

lemma first_step:
  assumes c: "3 / 2 ^ 55 \<le> mulD dt 7" and lo: "0.25 < a"
    and P: "lightningIn First g D a s \<and> a \<le> 1"
  shows "subD a (mulD dt 7) \<le> a - 1 / 2 ^ 55 \<and>
         (if subD a (mulD dt 7) \<le> 0.25 then lightningIn Dim g D 0.25 (updateLightning dt s)
          else lightningIn First g D (subD a (mulD dt 7)) (updateLightning dt s) \<and>
               subD a (mulD dt 7) \<le> 1)"
proof -
  define a1 where "a1 = subD a (mulD dt 7)"
  from lo have pos: "0 < a"
    by simp
  from sub_lowers_unit [OF pos conjunct2 [OF P] c] have low: "a1 \<le> a - 1 / 2 ^ 55"
    unfolding a1_def .
  with P have le1: "a1 \<le> 1"
    by simp
  have "if a1 \<le> 0.25 then lightningIn Dim g D 0.25 (updateLightning dt s)
        else lightningIn First g D a1 (updateLightning dt s) \<and> a1 \<le> 1"
    using P le1 unfolding a1_def
    by (simp add: lightningIn_def updateLightning_def decayLightning_def destroyNode_def)
  with low show ?thesis
    unfolding a1_def by (rule conjI)
qed

lemma dim_step:
  assumes c: "3 / 2 ^ 57 \<le> mulD dt 2" and lo: "fl 0.15 < a"
    and P: "lightningIn Dim g D a s \<and> a \<le> 1 / 4"
  shows "subD a (mulD dt 2) \<le> a - 1 / 2 ^ 57 \<and>
         (if subD a (mulD dt 2) \<le> fl 0.15
          then lightningIn Second g D (fl 0.65) (updateLightning dt s) \<and> fl 0.65 \<le> 1
          else lightningIn Dim g D (subD a (mulD dt 2)) (updateLightning dt s) \<and>
               subD a (mulD dt 2) \<le> 1 / 4)"
proof -
  define a1 where "a1 = subD a (mulD dt 2)"
  define lo2 where "lo2 = fl 0.15"
  define hi2 where "hi2 = fl 0.65"
  have b: "0 < lo2" "0 < hi2" "hi2 \<le> 1"
    unfolding lo2_def hi2_def by (rule flash_bounds)+
  from lo b have pos: "0 < a"
    unfolding lo2_def by simp
  from sub_lowers_quarter [OF pos conjunct2 [OF P] c] have low: "a1 \<le> a - 1 / 2 ^ 57"
    unfolding a1_def .
  with P have le1: "a1 \<le> 1 / 4"
    by simp
  have "if a1 \<le> lo2 then lightningIn Second g D hi2 (updateLightning dt s) \<and> hi2 \<le> 1
        else lightningIn Dim g D a1 (updateLightning dt s) \<and> a1 \<le> 1 / 4"
    using P b le1 unfolding a1_def updateLightning_def decayLightning_def
      lo2_def [symmetric] hi2_def [symmetric]
    by (simp add: lightningIn_def destroyNode_def)
  with low show ?thesis
    unfolding a1_def lo2_def hi2_def by (rule conjI)
qed

lemma second_step:
  assumes c: "3 / 2 ^ 55 \<le> mulD dt 7" and lo: "0 < a"
    and P: "lightningIn Second g D a s \<and> a \<le> 1"
  shows "subD a (mulD dt 7) \<le> a - 1 / 2 ^ 55 \<and>
         (if subD a (mulD dt 7) \<le> 0
          then lightningGone g D (subD a (mulD dt 7)) (updateLightning dt s)
          else lightningIn Second g D (subD a (mulD dt 7)) (updateLightning dt s) \<and>
               subD a (mulD dt 7) \<le> 1)"
proof -
  define a1 where "a1 = subD a (mulD dt 7)"
  from sub_lowers_unit [OF lo conjunct2 [OF P] c] have low: "a1 \<le> a - 1 / 2 ^ 55"
    unfolding a1_def .
  with P have le1: "a1 \<le> 1"
    by simp
  have "if a1 \<le> 0 then lightningGone g D a1 (updateLightning dt s)
        else lightningIn Second g D a1 (updateLightning dt s) \<and> a1 \<le> 1"
    using P le1 unfolding a1_def
    by (simp add: lightningIn_def lightningGone_def updateLightning_def decayLightning_def
        destroyNode_def)
  with low show ?thesis
    unfolding a1_def by (rule conjI)
qed

lemma gone_fixed:
  assumes "lightningGraphics s = None"
  shows "(updateLightning dt ^^ n) s = s"
proof (induction n)
  case 0
  show ?case by simp
next
  case (Suc n)
  with assms show ?case
    by (simp add: updateLightning_def)
qed

lemma lightning_run:
  assumes dt: "1 / 2 ^ 56 \<le> dt" and init: "lightningIn First g D (fl 0.92) s"
  shows "\<exists>k1 k2 k3. 0 < k1 \<and> k1 < k2 \<and> k2 < k3 \<and>
           (\<forall>n<k1. \<exists>a>0. lightningIn First g D a ((updateLightning dt ^^ n) s)) \<and>
           (\<forall>n. k1 \<le> n \<and> n < k2 \<longrightarrow> (\<exists>a>0. lightningIn Dim g D a ((updateLightning dt ^^ n) s))) \<and>
           (\<forall>n. k2 \<le> n \<and> n < k3 \<longrightarrow> (\<exists>a>0. lightningIn Second g D a ((updateLightning dt ^^ n) s))) \<and>
           (\<forall>n\<ge>k3. \<exists>a\<le>0. lightningGone g D a ((updateLightning dt ^^ n) s))"
proof -
  let ?F = "updateLightning dt"
  have c7: "3 / 2 ^ 55 \<le> mulD dt 7" and c2: "3 / 2 ^ 57 \<le> mulD dt 2"
    using dt by (rule step_size)+
  have d: "(0::real) < 1 / 2 ^ 55" and d2: "(0::real) < 1 / 2 ^ 57"
    by simp_all
  have init1: "lightningIn First g D (fl 0.92) s \<and> fl 0.92 \<le> 1"
    using init flash_bounds(2) by (rule conjI)
  obtain k1 where k1: "0 < k1"
    and p1: "\<And>n. n < k1 \<Longrightarrow> \<exists>a>0.25. lightningIn First g D a ((?F ^^ n) s) \<and> a \<le> 1"
    and q1: "lightningIn Dim g D 0.25 ((?F ^^ k1) s)"
    using decay_run [where F = ?F and P = "\<lambda>a s. lightningIn First g D a s \<and> a \<le> 1"
        and Q = "\<lambda>_. lightningIn Dim g D 0.25" and nxt = "\<lambda>a. subD a (mulD dt 7)"
        and d = "1 / 2 ^ 55" and lo = "0.25" and ?x0.0 = "fl 0.92" and ?s0.0 = s,
        OF d flash_bounds(1) init1 first_step [OF c7]]
    by blast
  define s1 where "s1 = (?F ^^ k1) s"
  have init2: "lightningIn Dim g D 0.25 s1 \<and> 0.25 \<le> (1 / 4 :: real)"
    using q1 unfolding s1_def by simp
  obtain m where m: "0 < m"
    and p2: "\<And>n. n < m \<Longrightarrow> \<exists>a>fl 0.15. lightningIn Dim g D a ((?F ^^ n) s1) \<and> a \<le> 1 / 4"
    and q2: "lightningIn Second g D (fl 0.65) ((?F ^^ m) s1) \<and> fl 0.65 \<le> 1"
    using decay_run [where F = ?F and P = "\<lambda>a s. lightningIn Dim g D a s \<and> a \<le> 1 / 4"
        and Q = "\<lambda>_ s. lightningIn Second g D (fl 0.65) s \<and> fl 0.65 \<le> 1"
        and nxt = "\<lambda>a. subD a (mulD dt 2)"
        and d = "1 / 2 ^ 57" and lo = "fl 0.15" and ?x0.0 = "0.25" and ?s0.0 = s1,
        OF d2 flash_bounds(4) init2 dim_step [OF c2]]
    by blast
  define s2 where "s2 = (?F ^^ m) s1"
  have init3: "lightningIn Second g D (fl 0.65) s2 \<and> fl 0.65 \<le> 1"
    using q2 unfolding s2_def .
  obtain j y where j: "0 < j"
    and p3: "\<And>n. n < j \<Longrightarrow> \<exists>a>0. lightningIn Second g D a ((?F ^^ n) s2) \<and> a \<le> 1"
    and e3: "y \<le> 0"
    and q3: "lightningGone g D y ((?F ^^ j) s2)"
    using decay_run [where F = ?F and P = "\<lambda>a s. lightningIn Second g D a s \<and> a \<le> 1"
        and Q = "lightningGone g D" and nxt = "\<lambda>a. subD a (mulD dt 7)"
        and d = "1 / 2 ^ 55" and lo = 0 and ?x0.0 = "fl 0.65" and ?s0.0 = s2,
        OF d flash_bounds(5) init3 second_step [OF c7]]
    by blast
  define s3 where "s3 = (?F ^^ j) s2"
  have r1: "(?F ^^ (i + k1)) s = (?F ^^ i) s1" for i
    unfolding s1_def by (simp add: funpow_add)
  have r2: "(?F ^^ (i + (m + k1))) s = (?F ^^ i) s2" for i
    unfolding s2_def s1_def by (simp add: funpow_add)
  have r3: "(?F ^^ (i + (j + (m + k1)))) s = (?F ^^ i) s3" for i
    unfolding s3_def s2_def s1_def by (simp add: funpow_add)
  have gone: "lightningGraphics s3 = None"
    using q3 unfolding s3_def lightningGone_def by simp
  have a1: "\<exists>a>0. lightningIn First g D a ((?F ^^ n) s)" if "n < k1" for n
  proof -
    from p1 [OF that] obtain a where a: "0.25 < a" "lightningIn First g D a ((?F ^^ n) s)"
      by blast
    from a(1) have "0 < a"
      by simp
    with a(2) show ?thesis
      by blast
  qed
  have a2: "\<exists>a>0. lightningIn Dim g D a ((?F ^^ n) s)" if "k1 \<le> n" "n < m + k1" for n
  proof -
    from that obtain i where i: "n = i + k1" "i < m"
      by (metis add.commute le_Suc_ex nat_add_left_cancel_less)
    from p2 [OF i(2)] obtain a where a: "fl 0.15 < a" "lightningIn Dim g D a ((?F ^^ i) s1)"
      by blast
    from flash_bounds(3) a(1) have "0 < a"
      by (rule less_trans)
    with a(2) show ?thesis
      unfolding i(1) r1 by blast
  qed
  have a3: "\<exists>a>0. lightningIn Second g D a ((?F ^^ n) s)" if "m + k1 \<le> n" "n < j + (m + k1)" for n
  proof -
    from that obtain i where i: "n = i + (m + k1)" "i < j"
      by (metis add.commute le_Suc_ex nat_add_left_cancel_less)
    from p3 [OF i(2)] show ?thesis
      unfolding i(1) r2 by blast
  qed
  have a4: "\<exists>a\<le>0. lightningGone g D a ((?F ^^ n) s)" if "j + (m + k1) \<le> n" for n
  proof -
    from that obtain i where i: "n = i + (j + (m + k1))"
      by (metis add.commute le_Suc_ex)
    have "(?F ^^ n) s = s3"
      unfolding i r3 using gone by (rule gone_fixed)
    then have "lightningGone g D y ((?F ^^ n) s)"
      using q3 unfolding s3_def by (simp only:)
    with e3 show ?thesis
      by blast
  qed
  have "0 < k1 \<and> k1 < m + k1 \<and> m + k1 < j + (m + k1)"
    using k1 m j by simp
  with a1 a2 a3 a4 show ?thesis
    by blast
qed

lemma drawIndices_done:
  "\<not> length indices < count \<Longrightarrow> drawIndices count len indices h = Some (indices, h)"
  by (subst drawIndices.simps) simp

lemma drawIndices_more:
  "length indices < count \<Longrightarrow>
   drawIndices count len indices h =
     drawIndices count len
       (if nat \<lfloor>mulD (randoms h (randIx h)) (real len)\<rfloor> \<in> set indices then indices
        else indices @ [nat \<lfloor>mulD (randoms h (randIx h)) (real len)\<rfloor>])
       (h\<lparr>randIx := Suc (randIx h)\<rparr>)"
  by (subst drawIndices.simps) (simp add: mathRandom_def)

lemma drawIndices_single:
  assumes "randoms h (randIx h) = 1 / 2"
  shows "drawIndices (Suc 0) (Suc 0) [] h = Some ([0], h\<lparr>randIx := Suc (randIx h)\<rparr>)"
proof -
  have "\<lfloor>mulD (randoms h (randIx h)) (real (Suc 0))\<rfloor> = 0"
    unfolding assms by (simp add: double_simps)
  then show ?thesis
    by (simp add: drawIndices_more drawIndices_done)
qed

lemma trigger_example: "triggerLightning [zone00] mountedLayer = Some struckLayer"
  by (simp add: triggerLightning_def mountedLayer_def newNode_def drawIndices_single
      addChild_def struckLayer_def zone00_def idleHost_def double_simps)

lemma triggerLightning_sets_first:
  assumes "container s \<noteq> None" and "Z \<noteq> []" and "triggerLightning Z s = Some s'"
  shows "lightningPhase s' = First \<and> lightningAlpha s' = fl 0.92 \<and>
         lightningGraphics s' = Some (nextId (host s))"
  using assms
  by (auto simp: triggerLightning_def newNode_def destroyNode_def removeChild_def Let_def
      split: option.splits prod.splits if_splits)

lemma struckLayer_flash:
  "lightningGraphics struckLayer = Some 2" "lightningPhase struckLayer = First"
  "lightningAlpha struckLayer = fl 0.92" "destroyed (host struckLayer) = {}"
  by (simp_all add: struckLayer_def mountedLayer_def idleHost_def)

lemma absorbed_step:
  assumes "lightningGraphics s = Some g" and "lightningPhase s = First"
    and "subD (lightningAlpha s) (mulD dt 7) = lightningAlpha s"
    and "0.25 < lightningAlpha s"
  shows "updateLightning dt s = s\<lparr>lightningGfxAlpha := lightningAlpha s\<rparr>"
  using assms by (cases s) (simp add: updateLightning_def decayLightning_def)

lemma tiny_step_absorbed: "subD (fl 0.92) (mulD (1 / 2 ^ 57) 7) = fl 0.92"
proof -
  have "mulD (1 / 2 ^ 57) 7 = fl (7 / 2 ^ 57)"
    unfolding mulD_def by simp
  then have "mulD (1 / 2 ^ 57) 7 = 7 / 2 ^ 57"
    unfolding tiny_step .
  then show ?thesis
    unfolding subD_def flash_literals by (simp only: alpha_absorbs_tiny_step)
qed

lemma tiny_dt_first_step:
  "updateLightning (1 / 2 ^ 57) struckLayer = struckLayer\<lparr>lightningGfxAlpha := fl 0.92\<rparr>"
  using absorbed_step [of struckLayer 2 "1 / 2 ^ 57"] tiny_step_absorbed flash_bounds(1)
  unfolding struckLayer_flash by simp

lemma tiny_dt_later_steps:
  "updateLightning (1 / 2 ^ 57) (struckLayer\<lparr>lightningGfxAlpha := fl 0.92\<rparr>) =
     struckLayer\<lparr>lightningGfxAlpha := fl 0.92\<rparr>"
  using absorbed_step [of "struckLayer\<lparr>lightningGfxAlpha := fl 0.92\<rparr>" 2 "1 / 2 ^ 57"]
    tiny_step_absorbed flash_bounds(1)
  by (simp add: struckLayer_flash)

lemma tiny_dt_run:
  "(updateLightning (1 / 2 ^ 57) ^^ Suc n) struckLayer = struckLayer\<lparr>lightningGfxAlpha := fl 0.92\<rparr>"
proof (induction n)
  case 0
  show ?case
    using tiny_dt_first_step by simp
next
  case (Suc n)
  have "(updateLightning (1 / 2 ^ 57) ^^ Suc (Suc n)) struckLayer =
          updateLightning (1 / 2 ^ 57) ((updateLightning (1 / 2 ^ 57) ^^ Suc n) struckLayer)"
    by (simp only: funpow.simps o_apply)
  then show ?case
    unfolding Suc.IH tiny_dt_later_steps .
qed

lemma tiny_dt_never_leaves_first:
  "lightningPhase ((updateLightning (1 / 2 ^ 57) ^^ n) struckLayer) = First \<and>
   lightningGraphics ((updateLightning (1 / 2 ^ 57) ^^ n) struckLayer) = Some 2"
proof (cases n)
  case 0
  then show ?thesis
    by (simp add: struckLayer_flash)
next
  case (Suc m)
  show ?thesis
    unfolding Suc tiny_dt_run by (simp add: struckLayer_flash)
qed

text \<open>
  Claim C3 says that the phases are run through with any fixed positive \<open>dt\<close>. Alpha is a
  double: with \<open>dt = 2 ^ -57\<close> the decrement \<open>7 * dt\<close> is less than half the distance
  \<open>2 ^ -53\<close> between \<open>0.92\<close> and the doubles next to it, so that \<open>lightningAlpha -= dt * decay\<close>
  returns alpha unchanged. The flash triggered on \<open>zone00\<close> is in phase \<open>first\<close> after the
  first step, and that state is a fixed point of \<open>updateLightning\<close>: the phase is never
  left.
\<close>

theorem tiny_dt_flash_stays_first:
  "0 < (1 / 2 ^ 57 :: real) \<and>
   triggerLightning [zone00] mountedLayer = Some struckLayer \<and>
   lightningPhase (updateLightning (1 / 2 ^ 57) struckLayer) = First \<and>
   lightningAlpha (updateLightning (1 / 2 ^ 57) struckLayer) = lightningAlpha struckLayer \<and>
   updateLightning (1 / 2 ^ 57) (updateLightning (1 / 2 ^ 57) struckLayer) =
     updateLightning (1 / 2 ^ 57) struckLayer"
proof (intro conjI)
  show "0 < (1 / 2 ^ 57 :: real)"
    by simp
  show "triggerLightning [zone00] mountedLayer = Some struckLayer"
    by (rule trigger_example)
  show "lightningPhase (updateLightning (1 / 2 ^ 57) struckLayer) = First"
    unfolding tiny_dt_first_step by (simp add: struckLayer_flash)
  show "lightningAlpha (updateLightning (1 / 2 ^ 57) struckLayer) = lightningAlpha struckLayer"
    unfolding tiny_dt_first_step by simp
  show "updateLightning (1 / 2 ^ 57) (updateLightning (1 / 2 ^ 57) struckLayer) =
          updateLightning (1 / 2 ^ 57) struckLayer"
    unfolding tiny_dt_first_step tiny_dt_later_steps ..
qed

text \<open>
  Claim C3, amended. From the state a trigger leaves (phase \<open>first\<close>, alpha the double
  \<open>0.92\<close>, a live node \<open>g\<close>), stepping \<open>updateLightning\<close> with a fixed \<open>dt\<close> of at least
  \<open>2 ^ -56\<close> (about \<open>1.4e-17\<close>; a frame's \<open>deltaTime\<close> is near 1) goes through \<open>first\<close>,
  \<open>dim\<close>, \<open>second\<close> and \<open>out\<close> in this order, each for at least one step (so \<open>dim\<close> is never
  skipped) and then stays \<open>out\<close>; the node is present exactly as long as alpha is
  positive and is destroyed at the step that brings alpha to zero or below. The upper
  bound on \<open>dt\<close> keeps \<open>dt * decay\<close> within the doubles.
\<close>

theorem lightning_phase_sequence_bounded_dt:
  assumes "1 / 2 ^ 56 \<le> dt" and "dt \<le> 2 ^ 1000"
    and "lightningGraphics s = Some g"
    and "lightningPhase s = First"
    and "lightningAlpha s = fl 0.92"
    and "g \<notin> destroyed (host s)"
  shows "\<exists>k1 k2 k3. 0 < k1 \<and> k1 < k2 \<and> k2 < k3 \<and>
           (\<forall>n. lightningPhase ((updateLightning dt ^^ n) s) =
                  (if n < k1 then First else if n < k2 then Dim
                   else if n < k3 then Second else Out)) \<and>
           (\<forall>n. lightningGraphics ((updateLightning dt ^^ n) s) =
                  (if n < k3 then Some g else None)) \<and>
           (\<forall>n. (g \<in> destroyed (host ((updateLightning dt ^^ n) s))) = (k3 \<le> n)) \<and>
           (\<forall>n. (lightningAlpha ((updateLightning dt ^^ n) s) \<le> 0) = (k3 \<le> n))"
proof -
  define D where "D = destroyed (host s)"
  define R where "R n = (updateLightning dt ^^ n) s" for n
  have init: "lightningIn First g D (fl 0.92) s"
    using assms(3-5) by (simp add: lightningIn_def D_def)
  have fresh: "g \<notin> D"
    using assms(6) by (simp add: D_def)
  from lightning_run [OF assms(1) init] obtain k1 k2 k3 where
    ord: "0 < k1" "k1 < k2" "k2 < k3"
    and a1: "\<And>n. n < k1 \<Longrightarrow> \<exists>a>0. lightningIn First g D a (R n)"
    and a2: "\<And>n. k1 \<le> n \<Longrightarrow> n < k2 \<Longrightarrow> \<exists>a>0. lightningIn Dim g D a (R n)"
    and a3: "\<And>n. k2 \<le> n \<Longrightarrow> n < k3 \<Longrightarrow> \<exists>a>0. lightningIn Second g D a (R n)"
    and a4: "\<And>n. k3 \<le> n \<Longrightarrow> \<exists>a\<le>0. lightningGone g D a (R n)"
    unfolding R_def by blast
  have obs: "lightningPhase (R n) =
               (if n < k1 then First else if n < k2 then Dim else if n < k3 then Second else Out) \<and>
             lightningGraphics (R n) = (if n < k3 then Some g else None) \<and>
             (g \<in> destroyed (host (R n))) = (k3 \<le> n) \<and>
             (lightningAlpha (R n) \<le> 0) = (k3 \<le> n)" for n
  proof -
    consider "n < k1" | "k1 \<le> n" "n < k2" | "k2 \<le> n" "n < k3" | "k3 \<le> n"
      by linarith
    then show ?thesis
    proof cases
      case 1
      from a1 [OF 1] obtain a where "0 < a" "lightningIn First g D a (R n)"
        by blast
      with 1 ord fresh show ?thesis
        by (simp add: lightningIn_def)
    next
      case 2
      from a2 [OF 2] obtain a where "0 < a" "lightningIn Dim g D a (R n)"
        by blast
      with 2 ord fresh show ?thesis
        by (simp add: lightningIn_def)
    next
      case 3
      from a3 [OF 3] obtain a where "0 < a" "lightningIn Second g D a (R n)"
        by blast
      with 3 ord fresh show ?thesis
        by (simp add: lightningIn_def)
    next
      case 4
      from a4 [OF 4] obtain a where "a \<le> 0" "lightningGone g D a (R n)"
        by blast
      with 4 ord show ?thesis
        by (simp add: lightningGone_def)
    qed
  qed
  show ?thesis
    using ord obs unfolding R_def by blast
qed

theorem lightning_phase_sequence_bounded_dt_witness:
  "\<exists>k1 k2 k3. 0 < k1 \<and> k1 < k2 \<and> k2 < k3 \<and>
     (\<forall>n. lightningPhase ((updateLightning 1 ^^ n) struckLayer) =
            (if n < k1 then First else if n < k2 then Dim
             else if n < k3 then Second else Out)) \<and>
     (\<forall>n. lightningGraphics ((updateLightning 1 ^^ n) struckLayer) =
            (if n < k3 then Some 2 else None)) \<and>
     (\<forall>n. (2 \<in> destroyed (host ((updateLightning 1 ^^ n) struckLayer))) = (k3 \<le> n)) \<and>
     (\<forall>n. (lightningAlpha ((updateLightning 1 ^^ n) struckLayer) \<le> 0) = (k3 \<le> n))"
  by (rule lightning_phase_sequence_bounded_dt) (simp_all add: struckLayer_flash)

lemma lightning_trace_unit_dt:
  "lightningPhase struckLayer = First \<and>
   lightningPhase (updateLightning 1 struckLayer) = Dim \<and>
   lightningPhase (updateLightning 1 (updateLightning 1 struckLayer)) = Second \<and>
   lightningPhase (updateLightning 1 (updateLightning 1 (updateLightning 1 struckLayer))) = Out \<and>
   lightningGraphics (updateLightning 1 (updateLightning 1 struckLayer)) = Some 2 \<and>
   lightningGraphics (updateLightning 1 (updateLightning 1 (updateLightning 1 struckLayer))) = None"
proof -
  let ?F = "updateLightning 1"
  have m7: "mulD 1 7 = 7" and m2: "mulD 1 2 = 2"
    by (simp_all add: double_simps)
  have c7: "3 / 2 ^ 55 \<le> mulD 1 7" and c2: "3 / 2 ^ 57 \<le> mulD 1 2"
    unfolding m7 m2 by simp_all
  have i0: "lightningIn First 2 {} (fl 0.92) struckLayer \<and> fl 0.92 \<le> 1"
    using flash_bounds(2) by (simp add: lightningIn_def struckLayer_flash)
  have "subD (fl 0.92) (mulD 1 7) \<le> 0"
    unfolding m7 using flash_bounds(2) by (intro subD_nonpos) simp
  then have "subD (fl 0.92) (mulD 1 7) \<le> 0.25"
    by simp
  with first_step [OF c7 flash_bounds(1) i0]
  have i1: "lightningIn Dim 2 {} 0.25 (?F struckLayer) \<and> 0.25 \<le> (1 / 4 :: real)"
    by simp
  have "subD 0.25 (mulD 1 2) \<le> 0"
    unfolding m2 by (intro subD_nonpos) simp
  with flash_bounds(3) have "subD 0.25 (mulD 1 2) \<le> fl 0.15"
    by simp
  with dim_step [OF c2 flash_bounds(4) i1]
  have i2: "lightningIn Second 2 {} (fl 0.65) (?F (?F struckLayer)) \<and> fl 0.65 \<le> 1"
    by simp
  have "subD (fl 0.65) (mulD 1 7) \<le> 0"
    unfolding m7 using flash_bounds(6) by (intro subD_nonpos) simp
  with second_step [OF c7 flash_bounds(5) i2]
  have i3: "lightningGone 2 {} (subD (fl 0.65) (mulD 1 7)) (?F (?F (?F struckLayer)))"
    by simp
  from i0 i1 i2 i3 show ?thesis
    by (simp add: lightningIn_def lightningGone_def)
qed

lemma first_stays:
  assumes "3 / 2 ^ 55 \<le> mulD dt 7" and "0.25 < a" and "lightningIn First g D a s \<and> a \<le> 1"
    and "subD a (mulD dt 7) = a'" and "0.25 < a'"
  shows "lightningIn First g D a' (updateLightning dt s) \<and> a' \<le> 1"
  using first_step [OF assms(1-3)] assms(5) unfolding assms(4) by simp

lemma first_ends:
  assumes "3 / 2 ^ 55 \<le> mulD dt 7" and "0.25 < a" and "lightningIn First g D a s \<and> a \<le> 1"
    and "subD a (mulD dt 7) = a'" and "a' \<le> 0.25"
  shows "lightningIn Dim g D 0.25 (updateLightning dt s) \<and> 0.25 \<le> (1 / 4 :: real)"
  using first_step [OF assms(1-3)] assms(5) unfolding assms(4) by simp

lemma dim_stays:
  assumes "3 / 2 ^ 57 \<le> mulD dt 2" and "fl 0.15 = l" and "l < a"
    and "lightningIn Dim g D a s \<and> a \<le> 1 / 4"
    and "subD a (mulD dt 2) = a'" and "l < a'"
  shows "lightningIn Dim g D a' (updateLightning dt s) \<and> a' \<le> 1 / 4"
  using dim_step [OF assms(1) _ assms(4)] assms(3,6) unfolding assms(2,5) by simp

lemma dim_ends:
  assumes "3 / 2 ^ 57 \<le> mulD dt 2" and "fl 0.15 = l" and "l < a"
    and "lightningIn Dim g D a s \<and> a \<le> 1 / 4"
    and "subD a (mulD dt 2) = a'" and "a' \<le> l"
  shows "lightningIn Second g D (fl 0.65) (updateLightning dt s) \<and> fl 0.65 \<le> 1"
  using dim_step [OF assms(1) _ assms(4)] assms(3,6) unfolding assms(2,5) by simp

lemma frame_step_literal: "fl 0.025 = 3602879701896397 / 144115188075855872"
proof -
  have "roundHalfEven (25 / 1000 * 2 ^ (6 + 52)) = 7205759403792794"
    by (simp add: roundHalfEven_def Let_def)
  from fl_value_small [OF _ _ _ this] have "fl (25 / 1000) = 3602879701896397 / 144115188075855872"
    by simp
  moreover have "fl 0.025 = fl (25 / 1000)"
    by simp
  ultimately show ?thesis
    by (simp only:)
qed

text \<open>
  A trace with \<open>dt = 0.025\<close>: the flash is in phase \<open>first\<close> for four steps and in phase
  \<open>dim\<close> for three. The second step of \<open>dim\<close> yields \<open>0.15000000000000002\<close>, one unit in the
  last place above the double \<open>0.15\<close>, so that \<open>second\<close> starts with step 7; over the real
  numbers it would start with step 6.
\<close>

lemma lightning_trace_small_dt:
  "lightningPhase ((updateLightning (fl 0.025) ^^ 3) struckLayer) = First \<and>
   lightningPhase ((updateLightning (fl 0.025) ^^ 4) struckLayer) = Dim \<and>
   lightningPhase ((updateLightning (fl 0.025) ^^ 6) struckLayer) = Dim \<and>
   lightningAlpha ((updateLightning (fl 0.025) ^^ 6) struckLayer) = 1351079888211149 / 9007199254740992 \<and>
   fl 0.15 = 5404319552844595 / 36028797018963968 \<and>
   lightningPhase ((updateLightning (fl 0.025) ^^ 7) struckLayer) = Second"
proof -
  define dt where "dt = fl 0.025"
  let ?F = "updateLightning dt"
  have dtv: "dt = 3602879701896397 / 144115188075855872"
    unfolding dt_def by (rule frame_step_literal)
  have c7v: "mulD dt 7 = 6305039478318695 / 36028797018963968"
  proof -
    have "roundHalfEven ((3602879701896397 / 144115188075855872) * 7 * 2 ^ (3 + 52)) = 6305039478318695"
      by (simp add: roundHalfEven_def Let_def)
    from fl_value_small [OF _ _ _ this] show ?thesis
      unfolding mulD_def dtv by simp
  qed
  have c2v: "mulD dt 2 = 3602879701896397 / 72057594037927936"
  proof -
    have "roundHalfEven ((3602879701896397 / 144115188075855872) * 2 * 2 ^ (5 + 52)) = 7205759403792794"
      by (simp add: roundHalfEven_def Let_def)
    from fl_value_small [OF _ _ _ this] show ?thesis
      unfolding mulD_def dtv by simp
  qed
  have c7: "3 / 2 ^ 55 \<le> mulD dt 7" and c2: "3 / 2 ^ 57 \<le> mulD dt 2"
    unfolding c7v c2v by simp_all
  have a1: "subD (8286623314361713 / 9007199254740992) (mulD dt 7) = 6710363444782039 / 9007199254740992"
  proof -
    have "roundHalfEven ((8286623314361713 / 9007199254740992 - 6305039478318695 / 36028797018963968) * 2 ^ (1 + 52)) = 6710363444782039"
      by (simp add: roundHalfEven_def Let_def)
    from fl_value_small [OF _ _ _ this] show ?thesis
      unfolding subD_def c7v by simp
  qed
  have a2: "subD (6710363444782039 / 9007199254740992) (mulD dt 7) = 5134103575202365 / 9007199254740992"
  proof -
    have "roundHalfEven ((6710363444782039 / 9007199254740992 - 6305039478318695 / 36028797018963968) * 2 ^ (1 + 52)) = 5134103575202365"
      by (simp add: roundHalfEven_def Let_def)
    from fl_value_small [OF _ _ _ this] show ?thesis
      unfolding subD_def c7v by simp
  qed
  have a3: "subD (5134103575202365 / 9007199254740992) (mulD dt 7) = 3557843705622691 / 9007199254740992"
  proof -
    have "roundHalfEven ((5134103575202365 / 9007199254740992 - 6305039478318695 / 36028797018963968) * 2 ^ (2 + 52)) = 7115687411245382"
      by (simp add: roundHalfEven_def Let_def)
    from fl_value_small [OF _ _ _ this] show ?thesis
      unfolding subD_def c7v by simp
  qed
  have a4: "subD (3557843705622691 / 9007199254740992) (mulD dt 7) = 7926335344172069 / 36028797018963968"
  proof -
    have "roundHalfEven ((3557843705622691 / 9007199254740992 - 6305039478318695 / 36028797018963968) * 2 ^ (3 + 52)) = 7926335344172069"
      by (simp add: roundHalfEven_def Let_def)
    from fl_value_small [OF _ _ _ this] show ?thesis
      unfolding subD_def c7v by simp
  qed
  have b1: "subD (1 / 4) (mulD dt 2) = 3602879701896397 / 18014398509481984"
  proof -
    have "roundHalfEven ((1 / 4 - 3602879701896397 / 72057594037927936) * 2 ^ (3 + 52)) = 7205759403792794"
      by (simp add: roundHalfEven_def Let_def)
    from fl_value_small [OF _ _ _ this] show ?thesis
      unfolding subD_def c2v by simp
  qed
  have b2: "subD (3602879701896397 / 18014398509481984) (mulD dt 2) = 1351079888211149 / 9007199254740992"
  proof -
    have "roundHalfEven ((3602879701896397 / 18014398509481984 - 3602879701896397 / 72057594037927936) * 2 ^ (3 + 52)) = 5404319552844596"
      by (simp add: roundHalfEven_def Let_def)
    from fl_value_small [OF _ _ _ this] show ?thesis
      unfolding subD_def c2v by simp
  qed
  have b3: "subD (1351079888211149 / 9007199254740992) (mulD dt 2) = 7205759403792795 / 72057594037927936"
  proof -
    have "roundHalfEven ((1351079888211149 / 9007199254740992 - 3602879701896397 / 72057594037927936) * 2 ^ (4 + 52)) = 7205759403792795"
      by (simp add: roundHalfEven_def Let_def)
    from fl_value_small [OF _ _ _ this] show ?thesis
      unfolding subD_def c2v by simp
  qed
  have lo: "fl 0.15 = 5404319552844595 / 36028797018963968"
    by (rule flash_literals)
  have p0: "lightningIn First 2 {} (8286623314361713 / 9007199254740992) struckLayer \<and>
        8286623314361713 / 9007199254740992 \<le> (1::real)"
    using struckLayer_flash unfolding flash_literals by (simp add: lightningIn_def)
  have p1: "lightningIn First 2 {} (6710363444782039 / 9007199254740992) (?F struckLayer) \<and>
        6710363444782039 / 9007199254740992 \<le> (1::real)"
    by (rule first_stays [OF c7 _ p0 a1]) simp_all
  have p2: "lightningIn First 2 {} (5134103575202365 / 9007199254740992)
          (?F (?F struckLayer)) \<and>
        5134103575202365 / 9007199254740992 \<le> (1::real)"
    by (rule first_stays [OF c7 _ p1 a2]) simp_all
  have p3: "lightningIn First 2 {} (3557843705622691 / 9007199254740992)
          (?F (?F (?F struckLayer))) \<and>
        3557843705622691 / 9007199254740992 \<le> (1::real)"
    by (rule first_stays [OF c7 _ p2 a3]) simp_all
  have p4: "lightningIn Dim 2 {} 0.25 (?F (?F (?F (?F struckLayer)))) \<and>
        0.25 \<le> (1 / 4 :: real)"
    by (rule first_ends [OF c7 _ p3 a4]) simp_all
  have q0: "lightningIn Dim 2 {} (1 / 4) (?F (?F (?F (?F struckLayer)))) \<and>
        1 / 4 \<le> (1 / 4 :: real)"
    using p4 by simp
  have q1: "lightningIn Dim 2 {} (3602879701896397 / 18014398509481984)
          (?F (?F (?F (?F (?F struckLayer))))) \<and>
        3602879701896397 / 18014398509481984 \<le> (1 / 4 :: real)"
    by (rule dim_stays [OF c2 lo _ q0 b1]) simp_all
  have q2: "lightningIn Dim 2 {} (1351079888211149 / 9007199254740992)
          (?F (?F (?F (?F (?F (?F struckLayer)))))) \<and>
        1351079888211149 / 9007199254740992 \<le> (1 / 4 :: real)"
    by (rule dim_stays [OF c2 lo _ q1 b2]) simp_all
  have q3: "lightningIn Second 2 {} (fl 0.65) (?F (?F (?F (?F (?F (?F (?F struckLayer))))))) \<and>
        fl 0.65 \<le> 1"
    by (rule dim_ends [OF c2 lo _ q2 b3]) simp_all
  from p3 p4 q2 q3 lo show ?thesis
    unfolding dt_def [symmetric] by (simp add: lightningIn_def eval_nat_numeral)
qed

subsection \<open>The preset without weather\<close>

lemma getWeatherLevel_none:
  "weatherConfig e = Some ''none'' \<Longrightarrow> getWeatherLevel e = levelNone"
  by (simp add: getWeatherLevel_def WEATHER_LEVEL_def)

lemma tick_none:
  assumes "weatherConfig e = Some ''none''"
  shows "tick e dt s = Some (setupContainers s)"
  by (simp add: tick_def Let_def getWeatherLevel_none [OF assms] levelNone_def)

lemma setupContainers_frame:
  "rainPool (setupContainers s) = rainPool s"
  "windPool (setupContainers s) = windPool s"
  "snowPool (setupContainers s) = snowPool s"
  "stormOverlay (setupContainers s) = stormOverlay s"
  "lightningGraphics (setupContainers s) = lightningGraphics s"
  "destroyed (host (setupContainers s)) = destroyed (host s)"
  by (simp_all add: setupContainers_def newNode_def addChild_def case_prod_beta
      split: option.split)

lemma destroyed_fold_destroyNode:
  "destroyed (fold destroyNode gs h) = destroyed h \<union> set gs"
  by (induction gs arbitrary: h) (auto simp: destroyNode_def)

lemma onWeatherChange_none:
  "weatherConfig e = Some ''none'' \<Longrightarrow> onWeatherChange e s = stopTicker s"
  by (simp add: onWeatherChange_def getWeatherLevel_none levelNone_def)

lemma stopTicker_pools:
  "rainPool (stopTicker s) = []" "windPool (stopTicker s) = []" "snowPool (stopTicker s) = []"
  by (simp_all add: stopTicker_def Let_def)

lemma stopTicker_overlay: "stormOverlay (stopTicker s) = stormOverlay s"
  by (simp add: stopTicker_def Let_def split: option.split)

lemma stopTicker_overlay_hidden:
  "stormOverlay s = Some ov \<Longrightarrow> parentOf (host s) ov \<noteq> None \<Longrightarrow>
   \<not> stormOverlayVisible (stopTicker s)"
  by (simp add: stopTicker_def Let_def split: option.split)

lemma stopTicker_lightning:
  assumes "attachedLightning s \<noteq> {}"
  shows "lightningGraphics (stopTicker s) = None"
proof (cases "lightningGraphics s")
  case None
  with assms show ?thesis
    by (simp add: attachedLightning_def)
next
  case (Some g)
  with assms have "parentOf (host s) g \<noteq> None"
    by (simp add: attachedLightning_def split: if_splits)
  with Some show ?thesis
    by (cases "stormOverlay s") (simp_all add: stopTicker_def Let_def)
qed

lemma stopTicker_destroyed:
  "destroyed (host (stopTicker s)) = destroyed (host s) \<union> attachedLightning s \<union> pooledNodes s"
proof (cases "lightningGraphics s")
  case None
  then show ?thesis
    by (cases "stormOverlay s")
      (auto simp: stopTicker_def attachedLightning_def pooledNodes_def Let_def
        destroyed_fold_destroyNode)
next
  case (Some g)
  then show ?thesis
    by (cases "stormOverlay s"; cases "parentOf (host s) g")
      (auto simp: stopTicker_def attachedLightning_def pooledNodes_def Let_def
        destroyed_fold_destroyNode destroyNode_def)
qed

lemma setupContainers_stormy: "setupContainers stormyLayer = stormyLayer"
  by (simp add: setupContainers_def stormyLayer_fields)

text \<open>
  Claim C5 says that one tick under the preset \<open>none\<close> tears everything down. The frame
  callback returns as soon as it sees the three zero densities, before any pool, the
  overlay or the lightning is touched: a component that still holds a rain particle, the
  storm overlay and a running flash over a storm zone holds all three after the tick.
\<close>

theorem none_preset_tick_is_no_teardown:
  "weatherConfig noneEnv = Some ''none'' \<and>
   gridAt (weatherGrid stormyLayer) zone00 = Some Storm \<and>
   tick noneEnv 1 stormyLayer = Some stormyLayer \<and>
   rainPool stormyLayer = [fallingDrop] \<and>
   stormOverlay stormyLayer = Some 3 \<and> 3 \<notin> destroyed (host stormyLayer) \<and>
   lightningGraphics stormyLayer = Some 2 \<and> 2 \<notin> destroyed (host stormyLayer)"
proof -
  have c: "weatherConfig noneEnv = Some ''none''"
    by (simp add: noneEnv_def highEnv_def)
  have g: "gridAt (weatherGrid stormyLayer) zone00 = Some Storm"
    by (simp add: gridAt_def stormyLayer_fields zone00_def)
  from tick_none [OF c] have "tick noneEnv 1 stormyLayer = Some stormyLayer"
    by (simp add: setupContainers_stormy)
  with c g show ?thesis
    by (simp add: stormyLayer_fields)
qed

text \<open>
  Claim C5, amended. Under the preset \<open>none\<close> a tick of the driver only makes sure the
  rain container exists and returns: pools, overlay and lightning are as before. The
  teardown is what the configuration watcher does through \<open>stopTicker\<close>: afterwards every
  particle pool is empty and every pooled node destroyed, an attached lightning node is
  destroyed and forgotten, and the storm overlay is kept and hidden, not destroyed
  (nothing else is destroyed; the overlay goes on unmount).
\<close>

theorem none_preset_stopTicker_teardown:
  assumes "weatherConfig e = Some ''none''"
  shows "tick e dt s = Some (setupContainers s) \<and>
         rainPool (setupContainers s) = rainPool s \<and>
         windPool (setupContainers s) = windPool s \<and>
         snowPool (setupContainers s) = snowPool s \<and>
         stormOverlay (setupContainers s) = stormOverlay s \<and>
         lightningGraphics (setupContainers s) = lightningGraphics s \<and>
         destroyed (host (setupContainers s)) = destroyed (host s) \<and>
         onWeatherChange e s = stopTicker s \<and>
         rainPool (stopTicker s) = [] \<and>
         windPool (stopTicker s) = [] \<and>
         snowPool (stopTicker s) = [] \<and>
         destroyed (host (stopTicker s)) =
           destroyed (host s) \<union> attachedLightning s \<union> pooledNodes s \<and>
         (attachedLightning s \<noteq> {} \<longrightarrow> lightningGraphics (stopTicker s) = None) \<and>
         stormOverlay (stopTicker s) = stormOverlay s \<and>
         (\<forall>ov. stormOverlay s = Some ov \<and> parentOf (host s) ov \<noteq> None
               \<longrightarrow> \<not> stormOverlayVisible (stopTicker s))"
proof (intro conjI)
  show "tick e dt s = Some (setupContainers s)"
    using assms by (rule tick_none)
  show "onWeatherChange e s = stopTicker s"
    using assms by (rule onWeatherChange_none)
  show "destroyed (host (stopTicker s)) =
          destroyed (host s) \<union> attachedLightning s \<union> pooledNodes s"
    by (rule stopTicker_destroyed)
  show "attachedLightning s \<noteq> {} \<longrightarrow> lightningGraphics (stopTicker s) = None"
    using stopTicker_lightning by blast
  show "\<forall>ov. stormOverlay s = Some ov \<and> parentOf (host s) ov \<noteq> None
             \<longrightarrow> \<not> stormOverlayVisible (stopTicker s)"
    using stopTicker_overlay_hidden by blast
qed (simp_all add: setupContainers_frame stopTicker_pools stopTicker_overlay)

theorem none_preset_stopTicker_teardown_witness:
  "tick noneEnv 1 stormyLayer = Some stormyLayer \<and>
   onWeatherChange noneEnv stormyLayer = stopTicker stormyLayer \<and>
   rainPool (stopTicker stormyLayer) = [] \<and>
   destroyed (host (stopTicker stormyLayer)) = {2, 4} \<and>
   lightningGraphics (stopTicker stormyLayer) = None \<and>
   stormOverlay (stopTicker stormyLayer) = Some 3 \<and>
   \<not> stormOverlayVisible (stopTicker stormyLayer)"
proof -
  have c: "weatherConfig noneEnv = Some ''none''"
    by (simp add: noneEnv_def highEnv_def)
  have a: "attachedLightning stormyLayer = {2}"
    by (simp add: attachedLightning_def stormyLayer_fields)
  have p: "pooledNodes stormyLayer = {4}"
    by (simp add: pooledNodes_def stormyLayer_fields fallingDrop_def)
  from none_preset_stopTicker_teardown [OF c, of 1 stormyLayer] show ?thesis
    by (simp add: setupContainers_stormy a p stormyLayer_fields insert_commute)
qed

end
